(* ===== verification/Prelude.thy ===== *)
theory Prelude
  imports Complex_Main "HOL-Library.Word"
begin

text \<open>
  What every component shares: the parts of Go's standard library the source uses (strings
  as byte lists, decimal formatting, truncating integer division), the collections of rules
  the proofs draw on, and generic lemmas on lists that stand for table rows.

  A Go string is a list of \<open>char\<close>, one per byte, so \<open>length\<close> is Go's \<open>len\<close>.
\<close>

named_theorems wp_intro "introduction rules for weakest preconditions of database actions"
named_theorems keeps_intro "introduction rules for invariants of database actions"
named_theorems ops "definitions of operations, unfolded by component proofs"

section \<open>Go integers\<close>

type_synonym int64 = "64 word"

definition MaxInt32 :: int where "MaxInt32 = 2147483647"
definition MaxInt64 :: int where "MaxInt64 = 9223372036854775807"

text \<open>Go's integer division and remainder truncate towards zero.\<close>

definition goDiv :: "int \<Rightarrow> int \<Rightarrow> int" where
  "goDiv a b = sgn a * sgn b * (\<bar>a\<bar> div \<bar>b\<bar>)"

lemma goDiv_nonneg [simp]: "0 \<le> a \<Longrightarrow> 0 < b \<Longrightarrow> goDiv a b = a div b"
  by (cases "a = 0") (auto simp: goDiv_def)

section \<open>Go strings\<close>

text \<open>
  \<open>strings.TrimSpace\<close> drops leading and trailing runes of Unicode's White_Space property.
  The runes are listed by their UTF-8 bytes, so the model trims exactly what Go trims.
\<close>

definition spaceRunes :: "string list" where
  "spaceRunes =
     [[CHR 0x20], [CHR 0x09], [CHR 0x0A], [CHR 0x0B], [CHR 0x0C], [CHR 0x0D],
      [CHR 0xC2, CHR 0x85], [CHR 0xC2, CHR 0xA0], [CHR 0xE1, CHR 0x9A, CHR 0x80],
      [CHR 0xE2, CHR 0x80, CHR 0x80], [CHR 0xE2, CHR 0x80, CHR 0x81],
      [CHR 0xE2, CHR 0x80, CHR 0x82], [CHR 0xE2, CHR 0x80, CHR 0x83],
      [CHR 0xE2, CHR 0x80, CHR 0x84], [CHR 0xE2, CHR 0x80, CHR 0x85],
      [CHR 0xE2, CHR 0x80, CHR 0x86], [CHR 0xE2, CHR 0x80, CHR 0x87],
      [CHR 0xE2, CHR 0x80, CHR 0x88], [CHR 0xE2, CHR 0x80, CHR 0x89],
      [CHR 0xE2, CHR 0x80, CHR 0x8A], [CHR 0xE2, CHR 0x80, CHR 0xA8],
      [CHR 0xE2, CHR 0x80, CHR 0xA9], [CHR 0xE2, CHR 0x80, CHR 0xAF],
      [CHR 0xE2, CHR 0x81, CHR 0x9F], [CHR 0xE3, CHR 0x80, CHR 0x80]]"

fun HasPrefix :: "string \<Rightarrow> string \<Rightarrow> bool" where
  "HasPrefix s [] = True"
| "HasPrefix [] (c # p) = False"
| "HasPrefix (d # s) (c # p) = (d = c \<and> HasPrefix s p)"

text \<open>Drop runes of a set from the front; the fuel is the length, enough since no rune is empty.\<close>

fun dropRunes :: "string list \<Rightarrow> nat \<Rightarrow> string \<Rightarrow> string" where
  "dropRunes rs 0 s = s"
| "dropRunes rs (Suc n) s =
     (case List.find (\<lambda>r. HasPrefix s r) rs of
        None \<Rightarrow> s
      | Some r \<Rightarrow> dropRunes rs n (drop (length r) s))"

definition TrimSpace :: "string \<Rightarrow> string" where
  "TrimSpace s =
     (let l = dropRunes spaceRunes (length s) s
      in rev (dropRunes (map rev spaceRunes) (length l) (rev l)))"

lemma HasPrefix_append: "HasPrefix s p \<longleftrightarrow> (\<exists>t. s = p @ t)"
  by (induction s p rule: HasPrefix.induct) auto

lemma TrimSpace_Nil [simp]: "TrimSpace [] = []"
  by (simp add: TrimSpace_def)

section \<open>Decimal formatting\<close>

text \<open>\<open>fmt.Sprintf("%d")\<close> on an integer.\<close>

definition digitChar :: "nat \<Rightarrow> char" where
  "digitChar d = char_of (48 + d)"

fun showNat :: "nat \<Rightarrow> string" where
  "showNat n = (if n < 10 then [digitChar n] else showNat (n div 10) @ [digitChar (n mod 10)])"

declare showNat.simps [simp del]

definition showInt :: "int \<Rightarrow> string" where
  "showInt i = (if i < 0 then ''-'' @ showNat (nat (- i)) else showNat (nat i))"

definition digitVal :: "char \<Rightarrow> nat" where
  "digitVal c = of_char c - 48"

definition readNat :: "string \<Rightarrow> nat" where
  "readNat s = foldl (\<lambda>a c. 10 * a + digitVal c) 0 s"

lemma digitVal_digitChar [simp]: "d < 10 \<Longrightarrow> digitVal (digitChar d) = d"
  by (simp add: digitVal_def digitChar_def)

lemma readNat_showNat [simp]: "readNat (showNat n) = n"
proof (induction n rule: showNat.induct)
  case (1 n)
  then show ?case
    by (subst showNat.simps) (auto simp: readNat_def)
qed

lemma showNat_inject [simp]: "showNat m = showNat n \<longleftrightarrow> m = n"
  by (metis readNat_showNat)

lemma hd_showNat: "hd (showNat n) \<in> digitChar ` {..<10} \<and> showNat n \<noteq> []"
proof (induction n rule: showNat.induct)
  case (1 n)
  then show ?case by (subst (1 2) showNat.simps) (auto simp: hd_append)
qed

lemma digitChar_not_minus: "d < 10 \<Longrightarrow> digitChar d \<noteq> CHR ''-''"
proof
  assume "d < 10" and "digitChar d = CHR ''-''"
  then have "(of_char (digitChar d) :: nat) = of_char (CHR ''-'')" by simp
  with \<open>d < 10\<close> show False by (simp add: digitChar_def)
qed

lemma showNat_not_minus: "showNat n \<noteq> CHR ''-'' # s"
  using hd_showNat [of n] digitChar_not_minus by (cases "showNat n") auto

lemma showInt_inject [simp]: "showInt i = showInt j \<longleftrightarrow> i = j"
  using showNat_not_minus [of "nat i"] showNat_not_minus [of "nat j"]
  by (auto simp: showInt_def dest: sym split: if_splits)

text \<open>\<open>strconv.ParseInt(s, 10, 64)\<close>, which is also \<open>strconv.Atoi\<close> on 64 bits.\<close>

definition decimalDigits :: "string \<Rightarrow> bool" where
  "decimalDigits s \<longleftrightarrow> s \<noteq> [] \<and> (\<forall>c \<in> set s. 48 \<le> (of_char c :: nat) \<and> (of_char c :: nat) \<le> 57)"

definition int64Range :: "int \<Rightarrow> bool" where
  "int64Range i \<longleftrightarrow> - MaxInt64 - 1 \<le> i \<and> i \<le> MaxInt64"

definition ParseInt64 :: "string \<Rightarrow> int option" where
  "ParseInt64 s =
     (let negative = (case s of [] \<Rightarrow> False | c # _ \<Rightarrow> c = CHR ''-'');
          digits = (case s of [] \<Rightarrow> [] | c # cs \<Rightarrow> if c = CHR ''-'' \<or> c = CHR ''+'' then cs else s);
          i = (if negative then - int (readNat digits) else int (readNat digits))
      in if decimalDigits digits \<and> int64Range i then Some i else None)"

text \<open>A \<open>time.Time\<close> as its Unix nanosecond, and \<open>Unix()\<close>.\<close>

definition second :: int where "second = 1000000000"

definition unixOf :: "int \<Rightarrow> int" where "unixOf t = t div second"

section \<open>Tables as lists of rows\<close>

text \<open>
  A table is the list of its rows in primary-key order. \<open>findRow\<close> is \<open>First\<close> and
  \<open>Take\<close> with a WHERE clause, \<open>updateWhere\<close> an UPDATE, \<open>countWhere\<close> both COUNT
  and the number of rows an UPDATE matches.
\<close>

definition findRow :: "('r \<Rightarrow> bool) \<Rightarrow> 'r list \<Rightarrow> 'r option" where
  "findRow P rows = List.find P rows"

definition updateWhere :: "('r \<Rightarrow> bool) \<Rightarrow> ('r \<Rightarrow> 'r) \<Rightarrow> 'r list \<Rightarrow> 'r list" where
  "updateWhere P f rows = map (\<lambda>r. if P r then f r else r) rows"

definition countWhere :: "('r \<Rightarrow> bool) \<Rightarrow> 'r list \<Rightarrow> nat" where
  "countWhere P rows = length (filter P rows)"

text \<open>The next auto-increment key: one more than the largest key of the table.\<close>

definition freshId :: "('r \<Rightarrow> int) \<Rightarrow> 'r list \<Rightarrow> int" where
  "freshId key rows = 1 + foldr max (map key rows) 0"

lemma findRow_Some:
  "findRow P rows = Some r \<Longrightarrow> r \<in> set rows \<and> P r"
  by (auto simp: findRow_def find_Some_iff)

lemma findRow_None: "findRow P rows = None \<longleftrightarrow> (\<forall>r \<in> set rows. \<not> P r)"
  by (auto simp: findRow_def find_None_iff)

lemma findRow_Nil [simp]: "findRow P [] = None"
  by (simp add: findRow_def)

lemma findRow_Cons [simp]: "findRow P (r # rs) = (if P r then Some r else findRow P rs)"
  by (simp add: findRow_def)

lemma findRow_append:
  "findRow P (xs @ ys) = (case findRow P xs of Some r \<Rightarrow> Some r | None \<Rightarrow> findRow P ys)"
  by (induction xs) auto

lemma findRow_cong: "(\<And>r. r \<in> set rows \<Longrightarrow> P r = Q r) \<Longrightarrow> findRow P rows = findRow Q rows"
  by (induction rows) auto

lemma updateWhere_simps [simp]:
  "updateWhere P f [] = []"
  "updateWhere P f (r # rs) = (if P r then f r else r) # updateWhere P f rs"
  "length (updateWhere P f rows) = length rows"
  by (simp_all add: updateWhere_def)

lemma updateWhere_append [simp]:
  "updateWhere P f (xs @ ys) = updateWhere P f xs @ updateWhere P f ys"
  by (simp add: updateWhere_def)

lemma set_updateWhere:
  "set (updateWhere P f rows) = (\<lambda>r. if P r then f r else r) ` set rows"
  by (simp add: updateWhere_def)

lemma in_updateWhereE:
  assumes "v \<in> set (updateWhere P f rows)"
  obtains w where "w \<in> set rows" "v = (if P w then f w else w)"
  using assms by (auto simp: set_updateWhere)

lemma ball_updateWhere:
  "(\<forall>v \<in> set (updateWhere P f rows). Q v) \<longleftrightarrow> (\<forall>w \<in> set rows. Q (if P w then f w else w))"
  by (induction rows) auto

lemma updateWhere_id: "(\<And>r. r \<in> set rows \<Longrightarrow> P r \<Longrightarrow> f r = r) \<Longrightarrow> updateWhere P f rows = rows"
  by (induction rows) auto

lemma map_updateWhere:
  "(\<And>r. r \<in> set rows \<Longrightarrow> P r \<Longrightarrow> g (f r) = g r) \<Longrightarrow> map g (updateWhere P f rows) = map g rows"
  by (induction rows) auto

lemma findRow_updateWhere:
  "(\<And>r. r \<in> set rows \<Longrightarrow> P r \<Longrightarrow> Q (f r) = Q r) \<Longrightarrow>
   findRow Q (updateWhere P f rows) =
     map_option (\<lambda>r. if P r then f r else r) (findRow Q rows)"
  by (induction rows) auto

lemma countWhere_simps [simp]:
  "countWhere P [] = 0"
  "countWhere P (r # rs) = (if P r then Suc (countWhere P rs) else countWhere P rs)"
  by (simp_all add: countWhere_def)

lemma countWhere_0 [simp]: "countWhere P rows = 0 \<longleftrightarrow> (\<forall>r \<in> set rows. \<not> P r)"
  by (induction rows) auto

lemma freshId_greater: "r \<in> set rows \<Longrightarrow> key r < freshId key rows"
proof (induction rows)
  case (Cons x rows)
  then show ?case by (auto simp: freshId_def)
qed simp

lemma freshId_notin [simp]: "freshId key rows \<notin> key ` set rows"
  using freshId_greater [of _ rows key] by fastforce

lemma list_all2_updateWhere:
  "(\<And>r. r \<in> set rows \<Longrightarrow> P r \<Longrightarrow> R r (f r)) \<Longrightarrow> (\<And>r. R r r) \<Longrightarrow> list_all2 R rows (updateWhere P f rows)"
  by (induction rows) auto

lemma list_all2_in: "list_all2 R xs ys \<Longrightarrow> y \<in> set ys \<Longrightarrow> \<exists>x \<in> set xs. R x y"
  by (induction rule: list_all2_induct) auto

lemma list_all2_findRow:
  "list_all2 R xs ys \<Longrightarrow> (\<And>x y. R x y \<Longrightarrow> P x = P y) \<Longrightarrow> rel_option R (findRow P xs) (findRow P ys)"
  by (induction rule: list_all2_induct) auto

text \<open>A key that is unique in a table picks out at most one row.\<close>

lemma distinct_key_unique:
  "distinct (map key rows) \<Longrightarrow> r \<in> set rows \<Longrightarrow> r' \<in> set rows \<Longrightarrow> key r = key r' \<Longrightarrow> r = r'"
  by (auto simp: distinct_map inj_on_def)

lemma findRow_key:
  "distinct (map key rows) \<Longrightarrow> r \<in> set rows \<Longrightarrow> findRow (\<lambda>x. key x = key r) rows = Some r"
  by (induction rows) (auto simp: rev_image_eqI)

lemma countWhere_key:
  "distinct (map key rows) \<Longrightarrow> r \<in> set rows \<Longrightarrow> countWhere (\<lambda>x. key x = key r) rows = 1"
  by (induction rows) (auto simp: rev_image_eqI)

lemma sum_list_filter_append [simp]:
  "(\<Sum>e \<leftarrow> filter P (xs @ ys). f e) = (\<Sum>e \<leftarrow> filter P xs. f e) + (\<Sum>e \<leftarrow> filter P ys. (f e :: int))"
  by simp

end
