(* ===== verification/Database.thy ===== *)
theory Database
  imports Prelude
begin

text \<open>
  The database connection as the code sees it. A statement either runs or the driver reports
  an error; a commit can also report an error after the server has committed. Which of these
  happens is decided by a list of outcomes the environment supplies, so every theorem that
  quantifies over the list holds for every pattern of failures. Errors are values.

  An action takes the connection to a result and the connection afterwards. \<open>wp m Q s\<close> says
  that from tables \<open>s\<close>, whatever the driver does, action \<open>m\<close> ends with a result and
  tables that satisfy \<open>Q\<close>.
\<close>

datatype outcome = Good | Broken | Lost

text \<open>The error values of the modelled code: sentinel errors by name, other errors by their text.\<close>

datatype err =
    ErrRecordNotFound | ErrDuplicatedKey | ErrInvalidTransaction | ErrDriver | ErrCache
  | ErrMsg string
  \<comment> \<open>balance ledger\<close>
  | ErrBalanceLedgerReasonRequired | ErrBalanceLedgerRequestIDRequired
  | ErrBalanceLedgerIdempotencyKeyRequired | ErrBalanceLedgerIdempotencyKeyTooLong
  | ErrBalanceLedgerIdempotencyConflict | ErrBalanceLedgerZeroDelta
  | ErrBalanceLedgerNegativeBalance | ErrBalanceLedgerOverflow | ErrBalanceLedgerImmutable
  | ErrBalanceLedgerCacheSync
  \<comment> \<open>users and tokens\<close>
  | ErrInsufficientUserQuota | ErrInsufficientTokenQuota | ErrTokenNotProvided | ErrTokenInvalid
  | ErrDatabase | ErrRedeemFailed | ErrUserQuotaExhausted | ErrUserQuotaTooLow
  \<comment> \<open>anonymous errors of the quota functions, named by what their text says\<close>
  | ErrNegativeQuota | ErrInvalidId | ErrAffQuotaBelowMinimum | ErrAffQuotaInsufficient
  | ErrLikeConsecutivePercent | ErrLikeTooManyPercent | ErrLikeKeywordTooShort
  | ErrFuzzySearchRefused | ErrTokenCount
  \<comment> \<open>refunds\<close>
  | ErrBillingRefundInvalid | ErrBillingRefundIdempotencyConflict | ErrBillingRefundDeadLetter
  \<comment> \<open>top-ups\<close>
  | ErrPaymentMethodMismatch | ErrTopUpNotFound | ErrTopUpStatusInvalid | ErrTopUpStateConflict
  | ErrTopUpCacheSyncPending
  | ErrUSDTTopUpInvalidAmount | ErrUSDTTopUpDisabled | ErrUSDTTopUpCapacity
  | ErrUSDTTopUpNotFound | ErrUSDTTopUpStateConflict | ErrUSDTTopUpTransferMismatch
  | ErrUSDTTopUpTransferAmbiguous | ErrUSDTTopUpCacheSync | ErrRandom
  \<comment> \<open>anonymous errors of the top-up and reward functions, named by what their text says\<close>
  | ErrTradeNoMissing | ErrTopUpOrderMissing | ErrTopUpOrderStatus | ErrTopUpQuotaInvalid
  | ErrTopUpFailed | ErrTopUpSearchFailed | ErrRedemptionKeyMissing | ErrRedemptionInvalid
  | ErrRedemptionUsed | ErrRedemptionExpired | ErrCheckinDisabled | ErrCheckinDone
  | ErrCheckinFailed | ErrCheckinQuotaFailed
  \<comment> \<open>subscriptions\<close>
  | ErrPurchaseLimit | ErrPlanDisabled | ErrPlanPriceNegative | ErrBalancePayNotAllowed
  | ErrBalanceInsufficient | ErrQuotaUnit | NotReturning
  | ErrSubscriptionOrderNotFound | ErrSubscriptionOrderStatusInvalid
  \<comment> \<open>request settlements\<close>
  | ErrZTAPISettlementConflict | ErrZTAPISettlementPending | ErrZTAPISettlementInvalid
  | ErrZTAPISupplierRefundEvidence

record 's conn =
  db :: 's
  faults :: "outcome list"

type_synonym ('s, 'a) act = "'s conn \<Rightarrow> (err + 'a) \<times> 's conn"

section \<open>Actions\<close>

text \<open>The driver's next outcome; when the list is used up every further call succeeds.\<close>

definition nextOutcome :: "'s conn \<Rightarrow> outcome \<times> 's conn" where
  "nextOutcome c = (case faults c of [] \<Rightarrow> (Good, c) | p # ps \<Rightarrow> (p, c\<lparr>faults := ps\<rparr>))"

definition ret :: "'a \<Rightarrow> ('s, 'a) act" where
  "ret a c = (Inr a, c)"

definition fail :: "err \<Rightarrow> ('s, 'a) act" where
  "fail e c = (Inl e, c)"

text \<open>Sequencing: an error stops it, as an early \<open>return err\<close> does.\<close>

definition bindE :: "('s, 'a) act \<Rightarrow> ('a \<Rightarrow> ('s, 'b) act) \<Rightarrow> ('s, 'b) act" where
  "bindE m k c = (case m c of (Inl e, c1) \<Rightarrow> (Inl e, c1) | (Inr a, c1) \<Rightarrow> k a c1)"

text \<open>The result of an action as a value, for code that inspects the error.\<close>

definition attempt :: "('s, 'a) act \<Rightarrow> ('s, err + 'a) act" where
  "attempt m c = (case m c of (r, c1) \<Rightarrow> (Inr r, c1))"

text \<open>One SQL statement: a function of the tables to an error or a result and new tables.\<close>

definition stmt :: "('s \<Rightarrow> err + ('a \<times> 's)) \<Rightarrow> ('s, 'a) act" where
  "stmt f c =
     (case nextOutcome c of
        (Good, c1) \<Rightarrow>
          (case f (db c1) of
             Inl e \<Rightarrow> (Inl e, c1)
           | Inr (a, s) \<Rightarrow> (Inr a, c1\<lparr>db := s\<rparr>))
      | (_, c1) \<Rightarrow> (Inl ErrDriver, c1))"

definition query :: "('s \<Rightarrow> err + 'a) \<Rightarrow> ('s, 'a) act" where
  "query f = stmt (\<lambda>s. case f s of Inl e \<Rightarrow> Inl e | Inr a \<Rightarrow> Inr (a, s))"

definition exec :: "('s \<Rightarrow> 's) \<Rightarrow> ('s, unit) act" where
  "exec f = stmt (\<lambda>s. Inr ((), f s))"

text \<open>A call to another service (the cache) that fails or not and leaves the tables alone.\<close>

definition extern :: "err \<Rightarrow> ('s, unit) act" where
  "extern e c =
     (case nextOutcome c of (Good, c1) \<Rightarrow> (Inr (), c1) | (_, c1) \<Rightarrow> (Inl e, c1))"

text \<open>
  A transaction: an error of the body or of the commit restores the tables, except that a
  commit whose acknowledgement is lost has taken effect although an error is reported.
\<close>

definition transaction :: "('s, 'a) act \<Rightarrow> ('s, 'a) act" where
  "transaction body c =
     (case body c of
        (Inl e, c1) \<Rightarrow> (Inl e, c1\<lparr>db := db c\<rparr>)
      | (Inr a, c1) \<Rightarrow>
          (case nextOutcome c1 of
             (Good, c2) \<Rightarrow> (Inr a, c2)
           | (Broken, c2) \<Rightarrow> (Inl ErrDriver, c2\<lparr>db := db c\<rparr>)
           | (Lost, c2) \<Rightarrow> (Inl ErrDriver, c2)))"

definition orNotFound :: "'a option \<Rightarrow> err + 'a" where
  "orNotFound r = (case r of None \<Rightarrow> Inl ErrRecordNotFound | Some a \<Rightarrow> Inr a)"

text \<open>A loop over a list whose body's errors end it.\<close>

primrec forEach :: "'a list \<Rightarrow> ('a \<Rightarrow> ('s, unit) act) \<Rightarrow> ('s, unit) act" where
  "forEach [] f = ret ()"
| "forEach (x # xs) f = bindE (f x) (\<lambda>_. forEach xs f)"

section \<open>Weakest preconditions\<close>

definition wp :: "('s, 'a) act \<Rightarrow> (err + 'a \<Rightarrow> 's \<Rightarrow> bool) \<Rightarrow> 's \<Rightarrow> bool" where
  "wp m Q s \<longleftrightarrow> (\<forall>pl. case m \<lparr>db = s, faults = pl\<rparr> of (r, c) \<Rightarrow> Q r (db c))"

lemma wpD: "wp m Q (db c) \<Longrightarrow> m c = (r, c') \<Longrightarrow> Q r (db c')"
  by (cases c) (force simp: wp_def split: prod.splits)

lemma wpI:
  assumes "\<And>c r c'. db c = s \<Longrightarrow> m c = (r, c') \<Longrightarrow> Q r (db c')"
  shows "wp m Q s"
  unfolding wp_def
proof (intro allI)
  fix pl
  show "case m \<lparr>db = s, faults = pl\<rparr> of (r, c) \<Rightarrow> Q r (db c)"
    using assms [of "\<lparr>db = s, faults = pl\<rparr>"] by (cases "m \<lparr>db = s, faults = pl\<rparr>") auto
qed

lemma wp_mono: "wp m Q s \<Longrightarrow> (\<And>r t. Q r t \<Longrightarrow> R r t) \<Longrightarrow> wp m R s"
  by (auto simp: wp_def split: prod.splits)

lemma wp_ret [simp]: "wp (ret a) Q s \<longleftrightarrow> Q (Inr a) s"
  by (simp add: wp_def ret_def)

lemma wp_fail [simp]: "wp (fail e) Q s \<longleftrightarrow> Q (Inl e) s"
  by (simp add: wp_def fail_def)

lemma wp_stmt [simp]:
  "wp (stmt f) Q s \<longleftrightarrow>
     Q (Inl ErrDriver) s \<and> (case f s of Inl e \<Rightarrow> Q (Inl e) s | Inr (a, t) \<Rightarrow> Q (Inr a) t)"
proof -
  have "wp (stmt f) Q s \<Longrightarrow> Q (Inl ErrDriver) s"
    unfolding wp_def by (drule spec [of _ "[Broken]"]) (simp add: stmt_def nextOutcome_def)
  moreover have "wp (stmt f) Q s \<Longrightarrow> (case f s of Inl e \<Rightarrow> Q (Inl e) s | Inr (a, t) \<Rightarrow> Q (Inr a) t)"
    unfolding wp_def
    by (drule spec [of _ "[]"]) (auto simp: stmt_def nextOutcome_def split: sum.splits prod.splits)
  moreover have "Q (Inl ErrDriver) s \<Longrightarrow>
      (case f s of Inl e \<Rightarrow> Q (Inl e) s | Inr (a, t) \<Rightarrow> Q (Inr a) t) \<Longrightarrow> wp (stmt f) Q s"
    unfolding wp_def
    by (auto simp: stmt_def nextOutcome_def split: sum.splits prod.splits list.splits outcome.splits)
  ultimately show ?thesis by blast
qed

lemma wp_query [simp]:
  "wp (query f) Q s \<longleftrightarrow>
     Q (Inl ErrDriver) s \<and> (case f s of Inl e \<Rightarrow> Q (Inl e) s | Inr a \<Rightarrow> Q (Inr a) s)"
  by (auto simp: query_def split: sum.splits)

lemma wp_exec [simp]:
  "wp (exec f) Q s \<longleftrightarrow> Q (Inl ErrDriver) s \<and> Q (Inr ()) (f s)"
  by (simp add: exec_def)

lemma wp_extern [simp]: "wp (extern e) Q s \<longleftrightarrow> Q (Inl e) s \<and> Q (Inr ()) s"
proof -
  have "wp (extern e) Q s \<Longrightarrow> Q (Inl e) s"
    unfolding wp_def by (drule spec [of _ "[Broken]"]) (simp add: extern_def nextOutcome_def)
  moreover have "wp (extern e) Q s \<Longrightarrow> Q (Inr ()) s"
    unfolding wp_def by (drule spec [of _ "[]"]) (simp add: extern_def nextOutcome_def)
  moreover have "Q (Inl e) s \<Longrightarrow> Q (Inr ()) s \<Longrightarrow> wp (extern e) Q s"
    unfolding wp_def
    by (auto simp: extern_def nextOutcome_def split: list.splits outcome.splits)
  ultimately show ?thesis by blast
qed

lemma wp_attempt [simp]: "wp (attempt m) Q s \<longleftrightarrow> wp m (\<lambda>r. Q (Inr r)) s"
  by (auto simp: wp_def attempt_def split: prod.splits)

lemma wp_bindE [wp_intro]:
  assumes "wp m (\<lambda>r t. case r of Inl e \<Rightarrow> Q (Inl e) t | Inr a \<Rightarrow> wp (k a) Q t) s"
  shows "wp (bindE m k) Q s"
proof (rule wpI)
  fix c r c' assume c: "db c = s" and run: "bindE m k c = (r, c')"
  obtain r1 c1 where m: "m c = (r1, c1)" by fastforce
  with assms c have q: "case r1 of Inl e \<Rightarrow> Q (Inl e) (db c1) | Inr a \<Rightarrow> wp (k a) Q (db c1)"
    using wpD [of m _ c r1 c1] by blast
  show "Q r (db c')"
    using q run m by (auto simp: bindE_def dest: wpD split: sum.splits)
qed

lemma wp_transaction [wp_intro]:
  assumes "wp m (\<lambda>r t. case r of
      Inl e \<Rightarrow> Q (Inl e) s
    | Inr a \<Rightarrow> Q (Inr a) t \<and> Q (Inl ErrDriver) s \<and> Q (Inl ErrDriver) t) s"
  shows "wp (transaction m) Q s"
proof (rule wpI)
  fix c r c' assume c: "db c = s" and run: "transaction m c = (r, c')"
  obtain r1 c1 where m: "m c = (r1, c1)" by fastforce
  note q = wpD [OF assms [folded c] m]
  show "Q r (db c')"
    using q run m c
    by (auto simp: transaction_def nextOutcome_def split: sum.splits list.splits outcome.splits)
qed

lemma wp_if [wp_intro]:
  "(b \<Longrightarrow> wp m Q s) \<Longrightarrow> (\<not> b \<Longrightarrow> wp n Q s) \<Longrightarrow> wp (if b then m else n) Q s"
  by simp

text \<open>The rules for a step whose behaviour a lemma has already described.\<close>

lemma wp_bindI:
  assumes "wp m P s" "\<And>e t. P (Inl e) t \<Longrightarrow> Q (Inl e) t" "\<And>a t. P (Inr a) t \<Longrightarrow> wp (k a) Q t"
  shows "wp (bindE m k) Q s"
  by (rule wp_bindE) (rule wp_mono [OF assms(1)], auto simp: assms split: sum.splits)

lemma wp_transactionI:
  assumes "wp m P s" "\<And>e t. P (Inl e) t \<Longrightarrow> Q (Inl e) s"
    "\<And>a t. P (Inr a) t \<Longrightarrow> Q (Inr a) t \<and> Q (Inl ErrDriver) s \<and> Q (Inl ErrDriver) t"
  shows "wp (transaction m) Q s"
  by (rule wp_transaction) (rule wp_mono [OF assms(1)], auto simp: assms split: sum.splits)

lemma wp_bind_attemptI:
  assumes "wp m P s" "\<And>r t. P r t \<Longrightarrow> wp (k r) Q t"
  shows "wp (bindE (attempt m) k) Q s"
  by (rule wp_bindI [where P = "\<lambda>r t. \<exists>x. r = Inr x \<and> P x t"])
     (auto intro: wp_mono [OF assms(1)] assms(2))

text \<open>An action that keeps a property whatever the driver does.\<close>

definition keeps :: "('s \<Rightarrow> bool) \<Rightarrow> ('s, 'a) act \<Rightarrow> bool" where
  "keeps I m \<longleftrightarrow> (\<forall>s. I s \<longrightarrow> wp m (\<lambda>_. I) s)"

lemma keepsI: "(\<And>s. I s \<Longrightarrow> wp m (\<lambda>_. I) s) \<Longrightarrow> keeps I m"
  by (simp add: keeps_def)

lemma keepsD: "keeps I m \<Longrightarrow> I (db c) \<Longrightarrow> m c = (r, c') \<Longrightarrow> I (db c')"
  by (auto simp: keeps_def dest: wpD [where Q = "\<lambda>_. I"])

lemma keeps_wp: "keeps I m \<Longrightarrow> I s \<Longrightarrow> wp m (\<lambda>_. I) s"
  by (simp add: keeps_def)

lemma keeps_ret [keeps_intro]: "keeps I (ret a)"
  by (simp add: keeps_def)

lemma keeps_fail [keeps_intro]: "keeps I (fail e)"
  by (simp add: keeps_def)

lemma keeps_extern [keeps_intro]: "keeps I (extern e)"
  by (simp add: keeps_def)

lemma keeps_query [keeps_intro]: "keeps I (query f)"
  by (simp add: keeps_def split: sum.splits)

lemma keeps_attempt [keeps_intro]: "keeps I m \<Longrightarrow> keeps I (attempt m)"
  by (simp add: keeps_def)

lemma keeps_bindE [keeps_intro]:
  "keeps I m \<Longrightarrow> (\<And>a. keeps I (k a)) \<Longrightarrow> keeps I (bindE m k)"
  unfolding keeps_def by (auto intro: wp_bindI [where P = "\<lambda>_. I"])

lemma keeps_transaction [keeps_intro]: "keeps I m \<Longrightarrow> keeps I (transaction m)"
  unfolding keeps_def by (auto intro: wp_transactionI [where P = "\<lambda>_. I"])

lemma keeps_if [keeps_intro]:
  "(b \<Longrightarrow> keeps I m) \<Longrightarrow> (\<not> b \<Longrightarrow> keeps I n) \<Longrightarrow> keeps I (if b then m else n)"
  by simp

lemma keeps_case_sum [keeps_intro]:
  "(\<And>e. r = Inl e \<Longrightarrow> keeps I (f e)) \<Longrightarrow> (\<And>a. r = Inr a \<Longrightarrow> keeps I (g a)) \<Longrightarrow>
   keeps I (case r of Inl e \<Rightarrow> f e | Inr a \<Rightarrow> g a)"
  by (cases r) auto

lemma keeps_case_option [keeps_intro]:
  "(r = None \<Longrightarrow> keeps I m) \<Longrightarrow> (\<And>a. r = Some a \<Longrightarrow> keeps I (g a)) \<Longrightarrow>
   keeps I (case r of None \<Rightarrow> m | Some a \<Rightarrow> g a)"
  by (cases r) auto

lemma keeps_case_prod [keeps_intro]:
  "(\<And>a b. r = (a, b) \<Longrightarrow> keeps I (g a b)) \<Longrightarrow> keeps I (case r of (a, b) \<Rightarrow> g a b)"
  by (cases r) auto

lemma keeps_forEach [keeps_intro]: "(\<And>x. keeps I (f x)) \<Longrightarrow> keeps I (forEach xs f)"
  by (induction xs) (simp_all add: keeps_ret keeps_bindE)

lemma keeps_let [keeps_intro]: "keeps I (f x) \<Longrightarrow> keeps I (let y = x in f y)"
  by simp

text \<open>An action that also returns only results with a property.\<close>

definition yields :: "('s \<Rightarrow> bool) \<Rightarrow> ('a \<Rightarrow> bool) \<Rightarrow> ('s, 'a) act \<Rightarrow> bool" where
  "yields I R m \<longleftrightarrow> (\<forall>s. I s \<longrightarrow> wp m (\<lambda>r t. I t \<and> (case r of Inl _ \<Rightarrow> True | Inr a \<Rightarrow> R a)) s)"

lemma yieldsI:
  "(\<And>s. I s \<Longrightarrow> wp m (\<lambda>r t. I t \<and> (case r of Inl _ \<Rightarrow> True | Inr a \<Rightarrow> R a)) s) \<Longrightarrow> yields I R m"
  by (simp add: yields_def)

lemma keeps_bind_yields:
  assumes "yields I R m" "\<And>a. R a \<Longrightarrow> keeps I (k a)"
  shows "keeps I (bindE m k)"
proof (rule keepsI)
  fix s assume "I s"
  with assms show "wp (bindE m k) (\<lambda>_. I) s"
    by (intro wp_bindI [where P = "\<lambda>r t. I t \<and> (case r of Inl _ \<Rightarrow> True | Inr a \<Rightarrow> R a)"])
       (auto simp: yields_def keeps_def)
qed

lemma yields_bind_yields:
  assumes "yields I R m" "\<And>a. R a \<Longrightarrow> yields I R' (k a)"
  shows "yields I R' (bindE m k)"
proof (rule yieldsI)
  fix s assume "I s"
  with assms show "wp (bindE m k) (\<lambda>r t. I t \<and> (case r of Inl _ \<Rightarrow> True | Inr a \<Rightarrow> R' a)) s"
    by (intro wp_bindI [where P = "\<lambda>r t. I t \<and> (case r of Inl _ \<Rightarrow> True | Inr a \<Rightarrow> R a)"])
       (auto simp: yields_def)
qed

lemma yields_simps:
  "yields I R (ret a) \<longleftrightarrow> (Ex I \<longrightarrow> R a)"
  "yields I R (fail e)"
  by (auto simp: yields_def)

text \<open>Calls one after another, each on the connection the one before left; errors do not stop them.\<close>

fun runAll :: "('s, 'a) act list \<Rightarrow> 's conn \<Rightarrow> (err + 'a) list \<times> 's conn" where
  "runAll [] c = ([], c)"
| "runAll (m # ms) c =
     (let (r, c1) = m c; (rs, c2) = runAll ms c1 in (r # rs, c2))"

lemma snd_runAll:
  "snd (runAll [] c) = c"
  "snd (runAll (m # ms) c) = snd (runAll ms (snd (m c)))"
  by (simp_all add: Let_def split_beta)

lemma runAll_keeps:
  "(\<And>m. m \<in> set ms \<Longrightarrow> keeps I m) \<Longrightarrow> I (db c) \<Longrightarrow> I (db (snd (runAll ms c)))"
proof (induction ms arbitrary: c)
  case (Cons m ms)
  obtain r c1 where m: "m c = (r, c1)" by fastforce
  with Cons.prems have "I (db c1)" by (auto intro: keepsD)
  with Cons.IH [of c1] Cons.prems m show ?case by (auto split: prod.splits)
qed simp

lemma runAll_map_keeps:
  "(\<And>x. keeps I (f x)) \<Longrightarrow> I (db c) \<Longrightarrow> I (db (snd (runAll (map f xs) c)))"
  by (rule runAll_keeps) auto

text \<open>Reading equations, for runs on a connection that never fails.\<close>

lemmas run_simps =
  ret_def fail_def bindE_def attempt_def stmt_def query_def exec_def extern_def
  transaction_def nextOutcome_def orNotFound_def

end
