(* ===== verification/Store.thy ===== *)
theory Store
  imports Database
begin

text \<open>
  The tables of the billing database: one record per Go struct that GORM stores (package
  \<open>server/model\<close>), with every stored column (of a channel only its usage counter), and the
  record of all tables. Column names keep the field names of the structs behind a short prefix.

  Identifiers and quotas are unbounded integers here; the functions that check their range
  (\<open>Ledger\<close>) are proved equal to their 64-bit versions. A \<open>float64\<close> column is its
  IEEE bit pattern, which only parameters of the model interpret. \<open>DeletedAt\<close> is the
  soft-delete mark: a query without \<open>Unscoped\<close> sees only rows where it is not set.
\<close>

type_synonym float64 = "64 word"

section \<open>Constants of server/common\<close>

definition UserStatusEnabled :: int where "UserStatusEnabled = 1"
definition UserStatusDisabled :: int where "UserStatusDisabled = 2"
definition TokenStatusEnabled :: int where "TokenStatusEnabled = 1"
definition TokenStatusDisabled :: int where "TokenStatusDisabled = 2"
definition TokenStatusExpired :: int where "TokenStatusExpired = 3"
definition TokenStatusExhausted :: int where "TokenStatusExhausted = 4"
definition RedemptionCodeStatusEnabled :: int where "RedemptionCodeStatusEnabled = 1"
definition RedemptionCodeStatusDisabled :: int where "RedemptionCodeStatusDisabled = 2"
definition RedemptionCodeStatusUsed :: int where "RedemptionCodeStatusUsed = 3"

lemmas status_defs =
  UserStatusEnabled_def UserStatusDisabled_def TokenStatusEnabled_def TokenStatusDisabled_def
  TokenStatusExpired_def TokenStatusExhausted_def RedemptionCodeStatusEnabled_def
  RedemptionCodeStatusDisabled_def RedemptionCodeStatusUsed_def

abbreviation TopUpStatusPending :: string where "TopUpStatusPending \<equiv> ''pending''"
abbreviation TopUpStatusSuccess :: string where "TopUpStatusSuccess \<equiv> ''success''"
abbreviation TopUpStatusFailed :: string where "TopUpStatusFailed \<equiv> ''failed''"
abbreviation TopUpStatusExpired :: string where "TopUpStatusExpired \<equiv> ''expired''"

section \<open>Rows\<close>

record User =
  u_Id :: int
  u_Username :: string
  u_Password :: string
  u_DisplayName :: string
  u_Role :: int
  u_Status :: int
  u_DebtSuspended :: bool
  u_Email :: string
  u_GitHubId :: string
  u_DiscordId :: string
  u_OidcId :: string
  u_WeChatId :: string
  u_TelegramId :: string
  u_AccessToken :: "string option"
  u_Quota :: int
  u_UsedQuota :: int
  u_RequestCount :: int
  u_Group :: string
  u_AffCode :: string
  u_AffCount :: int
  u_AffQuota :: int
  u_AffHistoryQuota :: int
  u_InviterId :: int
  u_DeletedAt :: bool
  u_LinuxDOId :: string
  u_Setting :: string
  u_Remark :: string
  u_StripeCustomer :: string
  u_CreatedAt :: int
  u_LastLoginAt :: int

record Token =
  t_Id :: int
  t_UserId :: int
  t_KeyHash :: string
  t_KeyPrefix :: string
  t_KeyCiphertext :: string
  t_Status :: int
  t_Name :: string
  t_CreatedTime :: int
  t_AccessedTime :: int
  t_ExpiredTime :: int
  t_RemainQuota :: int
  t_UnlimitedQuota :: bool
  t_ModelLimitsEnabled :: bool
  t_ModelLimits :: string
  t_AllowIps :: "string option"
  t_UsedQuota :: int
  t_Group :: string
  t_CrossGroupRetry :: bool
  t_DeletedAt :: bool

record Channel =
  ch_Id :: int
  ch_UsedQuota :: int

record BalanceLedger =
  bl_ID :: int
  bl_UserID :: int
  bl_OperatorID :: int
  bl_Delta :: int
  bl_BalanceBefore :: int
  bl_BalanceAfter :: int
  bl_Reason :: string
  bl_IdempotencyKey :: string
  bl_RequestID :: string
  bl_SourceType :: string
  bl_CreatedAt :: int

record BillingRefundPending =
  br_ID :: int
  br_UserID :: int
  br_TokenID :: int
  br_TokenKeyHash :: string
  br_Amount :: int
  br_Kind :: string
  br_Status :: string
  br_IdempotencyKey :: string
  br_RequestID :: string
  br_Attempts :: int
  br_LastError :: "err option"
  br_CreatedAt :: int
  br_UpdatedAt :: int
  br_CompletedAt :: "int option"

record TopUp =
  tu_Id :: int
  tu_UserId :: int
  tu_Amount :: int
  tu_Money :: float64
  tu_TradeNo :: string
  tu_PaymentMethod :: string
  tu_PaymentProvider :: string
  tu_CreateTime :: int
  tu_CompleteTime :: int
  tu_Status :: string

record USDTTopUpOrder =
  uo_ID :: int
  uo_TopUpID :: int
  uo_UserID :: int
  uo_TradeNo :: string
  uo_Network :: string
  uo_Asset :: string
  uo_ContractAddress :: string
  uo_ReceivingAddress :: string
  uo_CreditUnits :: int
  uo_PayAmountMicros :: int
  uo_SuffixCents :: int
  uo_Status :: string
  uo_ExpiresAt :: int
  uo_CooldownUntil :: int
  uo_TxID :: "string option"
  uo_TxFrom :: "string option"
  uo_BlockTimestampMS :: "int option"
  uo_SettledAt :: "int option"
  uo_ReviewReason :: string
  uo_CreatedAt :: int
  uo_UpdatedAt :: int

record USDTTopUpAmountLock =
  ul_CreditUnits :: int
  ul_UpdatedAt :: int

record USDTWatcherLease =
  wl_Name :: string
  wl_HolderID :: string
  wl_ExpiresAt :: int
  wl_UpdatedAt :: int

record Redemption =
  rd_Id :: int
  rd_UserId :: int
  rd_Key :: string
  rd_Status :: int
  rd_Name :: string
  rd_Quota :: int
  rd_CreatedTime :: int
  rd_RedeemedTime :: int
  rd_UsedUserId :: int
  rd_DeletedAt :: bool
  rd_ExpiredTime :: int

record Checkin =
  ck_Id :: int
  ck_UserId :: int
  ck_CheckinDate :: string
  ck_QuotaAwarded :: int
  ck_CreatedAt :: int

record SubscriptionPlan =
  sp_Id :: int
  sp_Title :: string
  sp_Subtitle :: string
  sp_PriceAmount :: float64
  sp_Currency :: string
  sp_DurationUnit :: string
  sp_DurationValue :: int
  sp_CustomSeconds :: int
  sp_Enabled :: bool
  sp_SortOrder :: int
  sp_AllowBalancePay :: "bool option"
  sp_StripePriceId :: string
  sp_CreemProductId :: string
  sp_WaffoPancakeProductId :: string
  sp_MaxPurchasePerUser :: int
  sp_UpgradeGroup :: string
  sp_TotalAmount :: int
  sp_QuotaResetPeriod :: string
  sp_QuotaResetCustomSeconds :: int
  sp_CreatedAt :: int
  sp_UpdatedAt :: int

record SubscriptionOrder =
  so_Id :: int
  so_UserId :: int
  so_PlanId :: int
  so_Money :: float64
  so_TradeNo :: string
  so_PaymentMethod :: string
  so_PaymentProvider :: string
  so_Status :: string
  so_CreateTime :: int
  so_CompleteTime :: int
  so_ProviderPayload :: string

record UserSubscription =
  us_Id :: int
  us_UserId :: int
  us_PlanId :: int
  us_AmountTotal :: int
  us_AmountUsed :: int
  us_StartTime :: int
  us_EndTime :: int
  us_Status :: string
  us_Source :: string
  us_LastResetTime :: int
  us_NextResetTime :: int
  us_UpgradeGroup :: string
  us_PrevUserGroup :: string
  us_CreatedAt :: int
  us_UpdatedAt :: int

record SubscriptionPreConsumeRecord =
  sr_Id :: int
  sr_RequestId :: string
  sr_UserId :: int
  sr_UserSubscriptionId :: int
  sr_PreConsumed :: int
  sr_Status :: string
  sr_CreatedAt :: int
  sr_UpdatedAt :: int

record ZTAPIRequestSettlement =
  zs_ID :: int
  zs_OperationID :: string
  zs_RequestID :: string
  zs_UserID :: int
  zs_TokenID :: int
  zs_TokenUnlimited :: bool
  zs_PublicModel :: string
  zs_PriceSnapshotJSON :: string
  zs_Status :: string
  zs_ReservedQuota :: int
  zs_InitialReservedQuota :: int
  zs_TokenReservedQuota :: int
  zs_ChargedQuota :: int
  zs_TokenChargedQuota :: int
  zs_RefundedQuota :: int
  zs_UsageJSON :: string
  zs_ChargeDimensionsJSON :: string
  zs_MissingDimensionsJSON :: string
  zs_LastLedgerID :: int
  zs_FinalAttempt :: int
  zs_Dispatched :: bool
  zs_CacheSyncPending :: bool
  zs_CacheLastAttemptAt :: int
  zs_CreatedAt :: int
  zs_UpdatedAt :: int

record ZTAPIRequestAttempt =
  za_ID :: int
  za_SettlementID :: int
  za_Attempt :: int
  za_ChannelID :: int
  za_CredentialVersion :: string
  za_Protocol :: string
  za_UpstreamRequestID :: string
  za_HTTPStatus :: int
  za_SafetyOutcome :: bool
  za_CreatedAt :: int
  za_UpdatedAt :: int

record ZTAPISettlementFinalizationIntent =
  zi_OperationID :: string
  zi_RequestID :: string
  zi_ActualQuota :: int
  zi_UsageJSON :: string
  zi_ChargeDimensionsJSON :: string
  zi_EvidenceJSON :: string
  zi_PayloadSHA256 :: string
  zi_CreatedAt :: int
  zi_LastAttemptAt :: int
  zi_CompletedAt :: int

section \<open>The database\<close>

text \<open>
  The last field is the process's own memory: the batch updater's pending increments per kind
  of update (\<open>batchUpdateStores\<close>), as association lists. No transaction touches it.
\<close>

record store =
  users :: "User list"
  tokens :: "Token list"
  ledgers :: "BalanceLedger list"
  refunds :: "BillingRefundPending list"
  topups :: "TopUp list"
  usdtOrders :: "USDTTopUpOrder list"
  usdtLocks :: "USDTTopUpAmountLock list"
  usdtLeases :: "USDTWatcherLease list"
  redemptions :: "Redemption list"
  checkins :: "Checkin list"
  plans :: "SubscriptionPlan list"
  subOrders :: "SubscriptionOrder list"
  subscriptions :: "UserSubscription list"
  preConsumes :: "SubscriptionPreConsumeRecord list"
  settlements :: "ZTAPIRequestSettlement list"
  attempts :: "ZTAPIRequestAttempt list"
  intents :: "ZTAPISettlementFinalizationIntent list"
  channels :: "Channel list"
  batch :: "nat \<Rightarrow> (int \<times> int) list"

definition emptyStore :: store where
  "emptyStore =
     \<lparr>users = [], tokens = [], ledgers = [], refunds = [], topups = [], usdtOrders = [],
      usdtLocks = [], usdtLeases = [], redemptions = [], checkins = [], plans = [], subOrders = [], subscriptions = [],
      preConsumes = [], settlements = [], attempts = [], intents = [], channels = [],
      batch = (\<lambda>_. [])\<rparr>"

lemmas emptyStore_simps [simp] = emptyStore_def

section \<open>Statements shared by the components\<close>

text \<open>
  \<open>First\<close> and \<open>Take\<close> with a WHERE clause: the first matching row of a table, or
  \<open>ErrRecordNotFound\<close>. \<open>updateRows\<close> is an UPDATE and returns RowsAffected.
\<close>

definition firstRow :: "('s \<Rightarrow> 'r list) \<Rightarrow> ('r \<Rightarrow> bool) \<Rightarrow> ('s, 'r) act" where
  "firstRow T P = query (\<lambda>s. orNotFound (findRow P (T s)))"

definition updateRows ::
  "('s \<Rightarrow> 'r list) \<Rightarrow> (('r list \<Rightarrow> 'r list) \<Rightarrow> 's \<Rightarrow> 's) \<Rightarrow> ('r \<Rightarrow> bool) \<Rightarrow> ('r \<Rightarrow> 'r) \<Rightarrow> ('s, nat) act" where
  "updateRows T upd P f = stmt (\<lambda>s. Inr (countWhere P (T s), upd (\<lambda>_. updateWhere P f (T s)) s))"

text \<open>\<open>tx.Where("id = ?", id).First(&user)\<close>: the live row, or \<open>ErrRecordNotFound\<close>.\<close>

definition firstUser :: "int \<Rightarrow> (store, User) act" where
  "firstUser uid = firstRow users (\<lambda>u. u_Id u = uid \<and> \<not> u_DeletedAt u)"

text \<open>An UPDATE of the live user row of an id; the result is the number of rows matched.\<close>

definition updateUser :: "int \<Rightarrow> (User \<Rightarrow> User) \<Rightarrow> (store, nat) act" where
  "updateUser uid f = updateRows users users_update (\<lambda>u. u_Id u = uid \<and> \<not> u_DeletedAt u) f"

text \<open>
  \<open>tx.Create(&entry)\<close> on the ledger: the unique index on the idempotency key rejects a
  second row with the same key, and the id is the next auto-increment value.
\<close>

definition createLedger :: "BalanceLedger \<Rightarrow> (store, BalanceLedger) act" where
  "createLedger e = stmt (\<lambda>s.
     if bl_IdempotencyKey e \<in> bl_IdempotencyKey ` set (ledgers s) then Inl ErrDuplicatedKey
     else let e' = e\<lparr>bl_ID := freshId bl_ID (ledgers s)\<rparr>
          in Inr (e', s\<lparr>ledgers := ledgers s @ [e']\<rparr>))"

definition ledgerByKey :: "string \<Rightarrow> (store, BalanceLedger) act" where
  "ledgerByKey key = firstRow ledgers (\<lambda>e. bl_IdempotencyKey e = key)"

text \<open>Creating a top-up order, whose trade number is unique, and GORM's \<open>Save\<close> of one.\<close>

definition createTopUp :: "TopUp \<Rightarrow> (store, TopUp) act" where
  "createTopUp t = stmt (\<lambda>s.
     if tu_TradeNo t \<in> tu_TradeNo ` set (topups s) then Inl ErrDuplicatedKey
     else let t' = t\<lparr>tu_Id := freshId tu_Id (topups s)\<rparr> in Inr (t', s\<lparr>topups := topups s @ [t']\<rparr>))"

definition saveTopUp :: "TopUp \<Rightarrow> (store, unit) act" where
  "saveTopUp t =
     bindE (updateRows topups topups_update (\<lambda>x. tu_Id x = tu_Id t) (\<lambda>_. t)) (\<lambda>_. ret ())"

lemma orNotFound_simps [simp]:
  "orNotFound None = Inl ErrRecordNotFound"
  "orNotFound (Some a) = Inr a"
  "orNotFound r = Inr a \<longleftrightarrow> r = Some a"
  "orNotFound r = Inl e \<longleftrightarrow> r = None \<and> e = ErrRecordNotFound"
  by (auto simp: orNotFound_def split: option.splits)

text \<open>The rules hand the proofs what a successful or failed lookup says about the table.\<close>

lemma wp_firstRow [simp]:
  "wp (firstRow T P) Q s \<longleftrightarrow>
     Q (Inl ErrDriver) s \<and>
     ((\<forall>r \<in> set (T s). \<not> P r) \<longrightarrow> Q (Inl ErrRecordNotFound) s) \<and>
     (\<forall>r. findRow P (T s) = Some r \<longrightarrow> r \<in> set (T s) \<longrightarrow> P r \<longrightarrow> Q (Inr r) s)"
proof (cases "findRow P (T s)")
  case None
  then show ?thesis by (simp add: firstRow_def findRow_None [THEN iffD1])
next
  case (Some r)
  with findRow_Some [OF Some] show ?thesis by (auto simp: firstRow_def)
qed

lemma keeps_firstRow [keeps_intro]: "keeps I (firstRow T P)"
  by (simp add: firstRow_def keeps_query)

lemma wp_updateRows [simp]:
  "wp (updateRows T upd P f) Q s \<longleftrightarrow>
     Q (Inl ErrDriver) s \<and> Q (Inr (countWhere P (T s))) (upd (\<lambda>_. updateWhere P f (T s)) s)"
  by (simp add: updateRows_def)

lemma wp_firstUser [simp]:
  "wp (firstUser uid) Q s \<longleftrightarrow>
     Q (Inl ErrDriver) s \<and>
     ((\<forall>u \<in> set (users s). u_Id u = uid \<longrightarrow> u_DeletedAt u) \<longrightarrow> Q (Inl ErrRecordNotFound) s) \<and>
     (\<forall>u. findRow (\<lambda>u. u_Id u = uid \<and> \<not> u_DeletedAt u) (users s) = Some u \<longrightarrow>
        u \<in> set (users s) \<longrightarrow> u_Id u = uid \<longrightarrow> \<not> u_DeletedAt u \<longrightarrow> Q (Inr u) s)"
  by (auto simp: firstUser_def)

lemma keeps_firstUser [keeps_intro]: "keeps I (firstUser uid)"
  by (simp add: firstUser_def keeps_firstRow)

lemma wp_updateUser [simp]:
  "wp (updateUser uid f) Q s \<longleftrightarrow>
     Q (Inl ErrDriver) s \<and>
     Q (Inr (countWhere (\<lambda>u. u_Id u = uid \<and> \<not> u_DeletedAt u) (users s)))
       (s\<lparr>users := updateWhere (\<lambda>u. u_Id u = uid \<and> \<not> u_DeletedAt u) f (users s)\<rparr>)"
  by (simp add: updateUser_def)

lemma wp_createLedger [simp]:
  "wp (createLedger e) Q s \<longleftrightarrow>
     Q (Inl ErrDriver) s \<and>
     (if bl_IdempotencyKey e \<in> bl_IdempotencyKey ` set (ledgers s) then Q (Inl ErrDuplicatedKey) s
      else Q (Inr (e\<lparr>bl_ID := freshId bl_ID (ledgers s)\<rparr>))
             (s\<lparr>ledgers := ledgers s @ [e\<lparr>bl_ID := freshId bl_ID (ledgers s)\<rparr>]\<rparr>))"
  by (simp add: createLedger_def Let_def)

lemma wp_ledgerByKey [simp]:
  "wp (ledgerByKey key) Q s \<longleftrightarrow>
     Q (Inl ErrDriver) s \<and>
     ((\<forall>e \<in> set (ledgers s). bl_IdempotencyKey e \<noteq> key) \<longrightarrow> Q (Inl ErrRecordNotFound) s) \<and>
     (\<forall>e. findRow (\<lambda>e. bl_IdempotencyKey e = key) (ledgers s) = Some e \<longrightarrow>
        e \<in> set (ledgers s) \<longrightarrow> bl_IdempotencyKey e = key \<longrightarrow> Q (Inr e) s)"
  by (simp add: ledgerByKey_def)

lemma keeps_ledgerByKey [keeps_intro]: "keeps I (ledgerByKey key)"
  by (simp add: ledgerByKey_def keeps_firstRow)

text \<open>The definitions a concrete run unfolds.\<close>

lemmas store_ops =
  run_simps firstRow_def updateRows_def firstUser_def updateUser_def createLedger_def ledgerByKey_def

end
