(* ===== verification/Ledger.thy ===== *)
theory Ledger
  imports Store
begin

text \<open>
  The balance ledger, \<open>server/model/balance_ledger.go\<close>: checked balance arithmetic, the
  update of a user that goes with a ledger entry, idempotent adjustments, and the invariant
  that replaying the ledger from the opening balances gives every user's quota.

  \<open>now\<close> is the value of \<open>time.Now()\<close>; the cache synchronisation is an external call that
  fails or not. Row locks and the SQLite mutex order concurrent transactions; the model runs
  one transaction after another.
\<close>

abbreviation BalanceLedgerSourceAdmin :: string where
  "BalanceLedgerSourceAdmin \<equiv> ''admin_adjustment''"
abbreviation BalanceLedgerSourceUsageReservation :: string where
  "BalanceLedgerSourceUsageReservation \<equiv> ''usage_reservation''"
abbreviation BalanceLedgerSourceUsageSettlement :: string where
  "BalanceLedgerSourceUsageSettlement \<equiv> ''usage_settlement''"

definition BalanceLedgerIdempotencyKeyMaxLength :: nat where
  "BalanceLedgerIdempotencyKeyMaxLength = 128"

definition maxBalanceLedgerQuota :: int where
  "maxBalanceLedgerQuota = MaxInt32"

record BalanceAdjustment =
  ba_UserID :: int
  ba_OperatorID :: int
  ba_Delta :: int
  ba_Reason :: string
  ba_IdempotencyKey :: string
  ba_RequestID :: string
  ba_SourceType :: string

section \<open>Checked arithmetic\<close>

definition checkedBalanceLedgerSum :: "int \<Rightarrow> int \<Rightarrow> err + int" where
  "checkedBalanceLedgerSum balance delta =
     (if balance < - maxBalanceLedgerQuota \<or> balance > maxBalanceLedgerQuota
      then Inl ErrBalanceLedgerOverflow
      else if delta > 0 \<and> delta > maxBalanceLedgerQuota - balance
      then Inl ErrBalanceLedgerOverflow
      else if delta < 0 \<and> (balance < 0 \<or> delta < - balance)
      then Inl ErrBalanceLedgerNegativeBalance
      else Inr (balance + delta))"

definition checkedSettlementBalanceLedgerSum :: "int \<Rightarrow> int \<Rightarrow> err + int" where
  "checkedSettlementBalanceLedgerSum balance delta =
     (if balance < - maxBalanceLedgerQuota \<or> balance > maxBalanceLedgerQuota
      then Inl ErrBalanceLedgerOverflow
      else if delta < - maxBalanceLedgerQuota \<or> delta > maxBalanceLedgerQuota
      then Inl ErrBalanceLedgerOverflow
      else let after = balance + delta in
        if after < - maxBalanceLedgerQuota \<or> after > maxBalanceLedgerQuota
        then Inl ErrBalanceLedgerOverflow
        else Inr after)"

text \<open>The same functions on Go's \<open>int64\<close>, where \<open>+\<close> and \<open>-\<close> wrap.\<close>

definition maxBalanceLedgerQuota64 :: int64 where
  "maxBalanceLedgerQuota64 = 2147483647"

definition checkedBalanceLedgerSum64 :: "int64 \<Rightarrow> int64 \<Rightarrow> err + int64" where
  "checkedBalanceLedgerSum64 balance delta =
     (if sint balance < sint (- maxBalanceLedgerQuota64) \<or> sint balance > sint maxBalanceLedgerQuota64
      then Inl ErrBalanceLedgerOverflow
      else if sint delta > 0 \<and> sint delta > sint (maxBalanceLedgerQuota64 - balance)
      then Inl ErrBalanceLedgerOverflow
      else if sint delta < 0 \<and> (sint balance < 0 \<or> sint delta < sint (- balance))
      then Inl ErrBalanceLedgerNegativeBalance
      else Inr (balance + delta))"

definition checkedSettlementBalanceLedgerSum64 :: "int64 \<Rightarrow> int64 \<Rightarrow> err + int64" where
  "checkedSettlementBalanceLedgerSum64 balance delta =
     (if sint balance < sint (- maxBalanceLedgerQuota64) \<or> sint balance > sint maxBalanceLedgerQuota64
      then Inl ErrBalanceLedgerOverflow
      else if sint delta < sint (- maxBalanceLedgerQuota64) \<or> sint delta > sint maxBalanceLedgerQuota64
      then Inl ErrBalanceLedgerOverflow
      else let after = balance + delta in
        if sint after < sint (- maxBalanceLedgerQuota64) \<or> sint after > sint maxBalanceLedgerQuota64
        then Inl ErrBalanceLedgerOverflow
        else Inr after)"

lemma sint_max64 [simp]:
  "sint maxBalanceLedgerQuota64 = 2147483647"
  "sint (- maxBalanceLedgerQuota64) = - 2147483647"
  by (simp_all add: maxBalanceLedgerQuota64_def)

lemma sint64_add:
  "- (2 ^ 63) \<le> sint a + sint b \<Longrightarrow> sint a + sint b < 2 ^ 63 \<Longrightarrow> sint (a + b) = sint a + sint (b :: int64)"
  by (simp add: sint_word_ariths signed_take_bit_int_eq_self)

lemma sint64_diff:
  "- (2 ^ 63) \<le> sint a - sint b \<Longrightarrow> sint a - sint b < 2 ^ 63 \<Longrightarrow> sint (a - b) = sint a - sint (b :: int64)"
  by (simp add: sint_word_ariths signed_take_bit_int_eq_self)

lemma sint64_minus:
  "- (2 ^ 63) < sint b \<Longrightarrow> sint (- b) = - sint (b :: int64)"
  using sint_range_size [of b]
  by (simp add: sint_word_ariths signed_take_bit_int_eq_self word_size)

lemma checkedBalanceLedgerSum64_refines:
  "map_sum id sint (checkedBalanceLedgerSum64 b d) = checkedBalanceLedgerSum (sint b) (sint d)"
proof (cases "\<bar>sint b\<bar> \<le> 2147483647")
  case False
  then show ?thesis
    by (auto simp: checkedBalanceLedgerSum64_def checkedBalanceLedgerSum_def
        maxBalanceLedgerQuota_def MaxInt32_def)
next
  case True
  from True have d: "sint (maxBalanceLedgerQuota64 - b) = 2147483647 - sint b"
    by (subst sint64_diff) auto
  from True have m: "sint (- b) = - sint b"
    by (subst sint64_minus) auto
  have r: "sint d \<ge> - (2 ^ 63)" "sint d < 2 ^ 63"
    using sint_range_size [of d] by (simp_all add: word_size)
  have "sint d \<le> 2147483647 - sint b \<Longrightarrow> \<not> (sint d < 0 \<and> (sint b < 0 \<or> sint d < - sint b)) \<Longrightarrow>
      sint (b + d) = sint b + sint d"
    using True r by (intro sint64_add) auto
  with d m True show ?thesis
    by (auto simp: checkedBalanceLedgerSum64_def checkedBalanceLedgerSum_def
        maxBalanceLedgerQuota_def MaxInt32_def)
qed

lemma checkedSettlementBalanceLedgerSum64_refines:
  "map_sum id sint (checkedSettlementBalanceLedgerSum64 b d)
     = checkedSettlementBalanceLedgerSum (sint b) (sint d)"
proof (cases "\<bar>sint b\<bar> \<le> 2147483647 \<and> \<bar>sint d\<bar> \<le> 2147483647")
  case False
  then show ?thesis
    by (auto simp: checkedSettlementBalanceLedgerSum64_def checkedSettlementBalanceLedgerSum_def
        maxBalanceLedgerQuota_def MaxInt32_def)
next
  case True
  then have "sint (b + d) = sint b + sint d"
    by (intro sint64_add) auto
  with True show ?thesis
    by (auto simp: checkedSettlementBalanceLedgerSum64_def checkedSettlementBalanceLedgerSum_def
        maxBalanceLedgerQuota_def MaxInt32_def Let_def)
qed

lemma checkedSum_Inr:
  "checkedBalanceLedgerSum b d = Inr a \<Longrightarrow>
     a = b + d \<and> - MaxInt32 \<le> a \<and> a \<le> MaxInt32 \<and> (d < 0 \<longrightarrow> 0 \<le> a)"
  by (auto simp: checkedBalanceLedgerSum_def maxBalanceLedgerQuota_def MaxInt32_def split: if_splits)

lemma checkedSum_Inr_sum: "checkedBalanceLedgerSum b d = Inr a \<Longrightarrow> a = b + d"
  using checkedSum_Inr by blast

lemma checkedSettlementSum_Inr:
  "checkedSettlementBalanceLedgerSum b d = Inr a \<Longrightarrow> a = b + d \<and> - MaxInt32 \<le> a \<and> a \<le> MaxInt32"
  by (auto simp: checkedSettlementBalanceLedgerSum_def maxBalanceLedgerQuota_def MaxInt32_def Let_def
      split: if_splits)

section \<open>The user update that goes with an entry\<close>

text \<open>The map of column updates: quota always, status and debt mark only when present.\<close>

record UserUpdates =
  up_quota :: int
  up_status :: "int option"
  up_debt_suspended :: "bool option"

definition balanceLedgerUserUpdates :: "User \<Rightarrow> int \<Rightarrow> bool \<Rightarrow> UserUpdates" where
  "balanceLedgerUserUpdates user after settlement =
     (let updates = \<lparr>up_quota = after, up_status = None, up_debt_suspended = None\<rparr> in
      if settlement \<and> after < 0 then
        (if u_Status user = UserStatusEnabled \<or> u_DebtSuspended user
         then updates\<lparr>up_status := Some UserStatusDisabled, up_debt_suspended := Some True\<rparr>
         else updates)
      else if after \<ge> 0 \<and> u_DebtSuspended user then
        (if u_Status user = UserStatusDisabled
         then updates\<lparr>up_debt_suspended := Some False, up_status := Some UserStatusEnabled\<rparr>
         else updates\<lparr>up_debt_suspended := Some False\<rparr>)
      else updates)"

definition applyUserUpdates :: "UserUpdates \<Rightarrow> User \<Rightarrow> User" where
  "applyUserUpdates up u =
     u\<lparr>u_Quota := up_quota up,
       u_Status := (case up_status up of None \<Rightarrow> u_Status u | Some st \<Rightarrow> st),
       u_DebtSuspended := (case up_debt_suspended up of None \<Rightarrow> u_DebtSuspended u | Some b \<Rightarrow> b)\<rparr>"

lemma up_quota_updates [simp]: "up_quota (balanceLedgerUserUpdates u after b) = after"
  by (simp add: balanceLedgerUserUpdates_def Let_def)

lemma applyUserUpdates_simps [simp]:
  "u_Id (applyUserUpdates up u) = u_Id u"
  "u_Quota (applyUserUpdates up u) = up_quota up"
  "u_DeletedAt (applyUserUpdates up u) = u_DeletedAt u"
  "u_UsedQuota (applyUserUpdates up u) = u_UsedQuota u"
  by (simp_all add: applyUserUpdates_def)

section \<open>Idempotent adjustments\<close>

definition balanceLedgerRequestMatches :: "BalanceLedger \<Rightarrow> BalanceAdjustment \<Rightarrow> bool" where
  "balanceLedgerRequestMatches entry adjustment =
     (if bl_UserID entry \<noteq> ba_UserID adjustment \<or>
         bl_OperatorID entry \<noteq> ba_OperatorID adjustment \<or>
         bl_Delta entry \<noteq> ba_Delta adjustment \<or>
         bl_Reason entry \<noteq> ba_Reason adjustment \<or>
         bl_SourceType entry \<noteq> ba_SourceType adjustment
      then False
      else if ba_SourceType adjustment = BalanceLedgerSourceUsageReservation \<or>
              ba_SourceType adjustment = BalanceLedgerSourceUsageSettlement
      then bl_RequestID entry = ba_RequestID adjustment
      else True)"

definition checkedSum :: "bool \<Rightarrow> int \<Rightarrow> int \<Rightarrow> err + int" where
  "checkedSum allowNegative before delta =
     (if allowNegative then checkedSettlementBalanceLedgerSum before delta
      else checkedBalanceLedgerSum before delta)"

text \<open>The function literal passed to \<open>DB.Transaction\<close>; the result is the entry and \<open>applied\<close>.\<close>

definition adjustUserBalanceTx ::
  "int \<Rightarrow> BalanceAdjustment \<Rightarrow> bool \<Rightarrow> (store, BalanceLedger \<times> bool) act" where
  "adjustUserBalanceTx now adjustment allowNegative =
     bindE (attempt (ledgerByKey (ba_IdempotencyKey adjustment))) (\<lambda>found.
       case found of
         Inr entry \<Rightarrow>
           if \<not> balanceLedgerRequestMatches entry adjustment
           then fail ErrBalanceLedgerIdempotencyConflict
           else ret (entry, False)
       | Inl err \<Rightarrow>
           if err \<noteq> ErrRecordNotFound then fail err
           else bindE (firstUser (ba_UserID adjustment)) (\<lambda>user.
             let before = u_Quota user in
             case checkedSum allowNegative before (ba_Delta adjustment) of
               Inl err \<Rightarrow> fail err
             | Inr after \<Rightarrow>
                 bindE (updateUser (u_Id user)
                   (applyUserUpdates (balanceLedgerUserUpdates user after allowNegative))) (\<lambda>_.
                 bindE (createLedger
                   \<lparr>bl_ID = 0, bl_UserID = u_Id user, bl_OperatorID = ba_OperatorID adjustment,
                    bl_Delta = ba_Delta adjustment, bl_BalanceBefore = before,
                    bl_BalanceAfter = after, bl_Reason = ba_Reason adjustment,
                    bl_IdempotencyKey = ba_IdempotencyKey adjustment,
                    bl_RequestID = ba_RequestID adjustment,
                    bl_SourceType = ba_SourceType adjustment, bl_CreatedAt = now\<rparr>) (\<lambda>entry.
                 ret (entry, True)))))"

text \<open>
  The last step: invalidate the user's cache. The entry is returned also when that fails,
  together with the error.
\<close>

definition syncLedgerCache ::
  "BalanceLedger \<Rightarrow> bool \<Rightarrow> (store, BalanceLedger \<times> bool \<times> err option) act" where
  "syncLedgerCache entry applied =
     bindE (attempt (extern ErrCache)) (\<lambda>sync.
       case sync of
         Inl _ \<Rightarrow> ret (entry, applied, Some ErrBalanceLedgerCacheSync)
       | Inr _ \<Rightarrow> ret (entry, applied, None))"

text \<open>The request as \<open>adjustUserBalance\<close> stores and compares it.\<close>

definition normalizedAdjustment :: "BalanceAdjustment \<Rightarrow> BalanceAdjustment" where
  "normalizedAdjustment adj =
     adj\<lparr>ba_Reason := TrimSpace (ba_Reason adj), ba_IdempotencyKey := TrimSpace (ba_IdempotencyKey adj),
         ba_SourceType := (if ba_SourceType adj = [] then BalanceLedgerSourceAdmin else ba_SourceType adj)\<rparr>"

text \<open>
  The transaction and what follows it: an entry that another call, or this call's commit whose
  acknowledgement was lost, has stored is found by its key.
\<close>

definition adjustAndSync ::
  "int \<Rightarrow> BalanceAdjustment \<Rightarrow> bool \<Rightarrow> (store, BalanceLedger \<times> bool \<times> err option) act" where
  "adjustAndSync now adjustment allowNegative =
     bindE (attempt (transaction (adjustUserBalanceTx now adjustment allowNegative))) (\<lambda>result.
       case result of
         Inr (entry, applied) \<Rightarrow> syncLedgerCache entry applied
       | Inl err \<Rightarrow>
           if err = ErrBalanceLedgerIdempotencyConflict then fail err
           else bindE (attempt (ledgerByKey (ba_IdempotencyKey adjustment))) (\<lambda>lookup.
             case lookup of
               Inl _ \<Rightarrow> fail err
             | Inr existing \<Rightarrow>
                 if \<not> balanceLedgerRequestMatches existing adjustment
                 then fail ErrBalanceLedgerIdempotencyConflict
                 else syncLedgerCache existing False))"

definition adjustUserBalance ::
  "int \<Rightarrow> BalanceAdjustment \<Rightarrow> bool \<Rightarrow> (store, BalanceLedger \<times> bool \<times> err option) act" where
  "adjustUserBalance now adjustment0 allowNegative =
     (if ba_Delta adjustment0 = 0 then fail ErrBalanceLedgerZeroDelta
      else let adjustment = normalizedAdjustment adjustment0 in
      if ba_Reason adjustment = [] then fail ErrBalanceLedgerReasonRequired
      else if ba_IdempotencyKey adjustment = [] then fail ErrBalanceLedgerIdempotencyKeyRequired
      else if length (ba_IdempotencyKey adjustment) > BalanceLedgerIdempotencyKeyMaxLength
      then fail ErrBalanceLedgerIdempotencyKeyTooLong
      else adjustAndSync now adjustment allowNegative)"

definition AdjustUserBalance ::
  "int \<Rightarrow> BalanceAdjustment \<Rightarrow> (store, BalanceLedger \<times> bool \<times> err option) act" where
  "AdjustUserBalance now adjustment = adjustUserBalance now adjustment False"

definition ReserveUserBalanceDebit ::
  "int \<Rightarrow> int \<Rightarrow> int \<Rightarrow> string \<Rightarrow> string \<Rightarrow> (store, BalanceLedger \<times> bool \<times> err option) act" where
  "ReserveUserBalanceDebit now userID amount idempotencyKey requestID0 =
     (if amount \<le> 0 then fail ErrBalanceLedgerZeroDelta
      else let requestID = TrimSpace requestID0 in
      if requestID = [] then fail ErrBalanceLedgerRequestIDRequired
      else bindE (attempt (adjustUserBalance now
        \<lparr>ba_UserID = userID, ba_OperatorID = 0, ba_Delta = - amount,
         ba_Reason = ''prepaid wallet usage reservation'', ba_IdempotencyKey = idempotencyKey,
         ba_RequestID = requestID, ba_SourceType = BalanceLedgerSourceUsageReservation\<rparr> False)) (\<lambda>result.
        case result of
          Inl err \<Rightarrow> if err = ErrBalanceLedgerNegativeBalance then fail ErrInsufficientUserQuota
                     else fail err
        | Inr entry \<Rightarrow> ret entry))"

definition SettleUserBalanceDebit ::
  "int \<Rightarrow> int \<Rightarrow> int \<Rightarrow> string \<Rightarrow> string \<Rightarrow> (store, BalanceLedger \<times> bool \<times> err option) act" where
  "SettleUserBalanceDebit now userID amount idempotencyKey requestID0 =
     (if amount \<le> 0 then fail ErrBalanceLedgerZeroDelta
      else let requestID = TrimSpace requestID0 in
      if requestID = [] then fail ErrBalanceLedgerRequestIDRequired
      else adjustUserBalance now
        \<lparr>ba_UserID = userID, ba_OperatorID = 0, ba_Delta = - amount,
         ba_Reason = ''actual usage exceeded the prepaid wallet reservation'',
         ba_IdempotencyKey = idempotencyKey, ba_RequestID = requestID,
         ba_SourceType = BalanceLedgerSourceUsageSettlement\<rparr> True)"

text \<open>
  \<open>GetBalanceLedger\<close>: the number of entries and one page of them, newest first
  (\<open>created_at DESC, id DESC\<close>, as two stable sorts). GORM leaves out a negative LIMIT
  and an OFFSET that is not positive.
\<close>

definition newestFirst :: "BalanceLedger list \<Rightarrow> BalanceLedger list" where
  "newestFirst es = sort_key (\<lambda>e. - bl_CreatedAt e) (sort_key (\<lambda>e. - bl_ID e) es)"

definition GetBalanceLedger ::
  "int option \<Rightarrow> int \<Rightarrow> int \<Rightarrow> (store, BalanceLedger list \<times> int) act" where
  "GetBalanceLedger userID startIdx pageSize =
     (let sel = (\<lambda>e. case userID of None \<Rightarrow> True | Some uid \<Rightarrow> bl_UserID e = uid) in
      transaction (
        bindE (query (\<lambda>s. Inr (int (countWhere sel (ledgers s))))) (\<lambda>total.
        bindE (query (\<lambda>s.
          let page = drop (nat startIdx) (newestFirst (filter sel (ledgers s))) in
          Inr (if pageSize < 0 then page else take (nat pageSize) page))) (\<lambda>entries.
        ret (entries, total)))))"

section \<open>The ledger explains the balances\<close>

text \<open>\<open>replay\<close> applies the entries in order to the opening balances.\<close>

primrec replay :: "(int \<Rightarrow> int) \<Rightarrow> BalanceLedger list \<Rightarrow> int \<Rightarrow> int" where
  "replay base [] = base"
| "replay base (e # es) = replay (base(bl_UserID e := bl_BalanceAfter e)) es"

text \<open>Every entry starts from the balance the entries before it left.\<close>

primrec chained :: "(int \<Rightarrow> int) \<Rightarrow> BalanceLedger list \<Rightarrow> bool" where
  "chained base [] = True"
| "chained base (e # es) =
     (bl_BalanceBefore e = base (bl_UserID e) \<and>
      bl_BalanceAfter e = bl_BalanceBefore e + bl_Delta e \<and>
      chained (base(bl_UserID e := bl_BalanceAfter e)) es)"

definition ledger_ok :: "(int \<Rightarrow> int) \<Rightarrow> store \<Rightarrow> bool" where
  "ledger_ok base s \<longleftrightarrow>
     distinct (map u_Id (users s)) \<and>
     distinct (map bl_IdempotencyKey (ledgers s)) \<and>
     chained base (ledgers s) \<and>
     (\<forall>u \<in> set (users s). u_Quota u = replay base (ledgers s) (u_Id u))"

text \<open>Appending entries to the ledger together with the matching update of the user's row.\<close>

definition posted :: "store \<Rightarrow> BalanceLedger \<Rightarrow> store \<Rightarrow> bool" where
  "posted s e t \<longleftrightarrow>
     map_option u_Quota (findRow (\<lambda>u. u_Id u = bl_UserID e \<and> \<not> u_DeletedAt u) (users s))
       = Some (bl_BalanceBefore e) \<and>
     bl_BalanceAfter e = bl_BalanceBefore e + bl_Delta e \<and>
     bl_IdempotencyKey e \<notin> bl_IdempotencyKey ` set (ledgers s) \<and>
     (\<exists>f. (\<forall>u. u_Id (f u) = u_Id u \<and> u_DeletedAt (f u) = u_DeletedAt u \<and>
               u_Quota (f u) = bl_BalanceAfter e) \<and>
          users t = updateWhere (\<lambda>u. u_Id u = bl_UserID e \<and> \<not> u_DeletedAt u) f (users s)) \<and>
     ledgers t = ledgers s @ [e]"

text \<open>The form in which a run of the update and the insertion leaves the tables.\<close>

lemma posted_update:
  assumes "map_option u_Quota (findRow (\<lambda>u. u_Id u = i \<and> \<not> u_DeletedAt u) (users s))
      = Some (bl_BalanceBefore e)" "bl_UserID e = i"
    "bl_BalanceAfter e = bl_BalanceBefore e + bl_Delta e"
    "bl_IdempotencyKey e \<notin> bl_IdempotencyKey ` set (ledgers s)"
    "\<And>u. u_Id (f u) = u_Id u" "\<And>u. u_DeletedAt (f u) = u_DeletedAt u"
    "\<And>u. u_Quota (f u) = bl_BalanceAfter e"
  shows "posted s e (r\<lparr>users := updateWhere (\<lambda>u. u_Id u = i \<and> \<not> u_DeletedAt u) f (users s),
                       ledgers := ledgers s @ [e]\<rparr>)"
  unfolding posted_def by (intro conjI exI [of _ f]) (simp_all add: assms)

lemma postedE:
  assumes "posted s e t"
  obtains u f where "findRow (\<lambda>u. u_Id u = bl_UserID e \<and> \<not> u_DeletedAt u) (users s) = Some u"
    "bl_BalanceBefore e = u_Quota u" "bl_BalanceAfter e = bl_BalanceBefore e + bl_Delta e"
    "bl_IdempotencyKey e \<notin> bl_IdempotencyKey ` set (ledgers s)"
    "\<forall>u. u_Id (f u) = u_Id u \<and> u_DeletedAt (f u) = u_DeletedAt u \<and> u_Quota (f u) = bl_BalanceAfter e"
    "users t = updateWhere (\<lambda>u. u_Id u = bl_UserID e \<and> \<not> u_DeletedAt u) f (users s)"
    "ledgers t = ledgers s @ [e]"
proof -
  from assms obtain u where "findRow (\<lambda>u. u_Id u = bl_UserID e \<and> \<not> u_DeletedAt u) (users s) = Some u"
    "bl_BalanceBefore e = u_Quota u" unfolding posted_def by auto
  moreover from assms obtain f where
    "\<forall>u. u_Id (f u) = u_Id u \<and> u_DeletedAt (f u) = u_DeletedAt u \<and> u_Quota (f u) = bl_BalanceAfter e"
    "users t = updateWhere (\<lambda>u. u_Id u = bl_UserID e \<and> \<not> u_DeletedAt u) f (users s)"
    unfolding posted_def by blast
  ultimately show thesis
    using assms by (intro that [of u f]) (simp_all add: posted_def)
qed

lemma posted_cong:
  "users s' = users s \<Longrightarrow> ledgers s' = ledgers s \<Longrightarrow> users t' = users t \<Longrightarrow> ledgers t' = ledgers t \<Longrightarrow>
   posted s' e t' = posted s e t"
  by (simp add: posted_def)

lemma replay_append: "replay base (xs @ ys) = replay (replay base xs) ys"
  by (induction xs arbitrary: base) auto

lemma chained_append: "chained base (xs @ ys) \<longleftrightarrow> chained base xs \<and> chained (replay base xs) ys"
  by (induction xs arbitrary: base) auto

lemma chained_sum:
  "chained base es \<Longrightarrow>
     replay base es uid = base uid + (\<Sum>e \<leftarrow> filter (\<lambda>e. bl_UserID e = uid) es. bl_Delta e)"
  by (induction es arbitrary: base) auto

lemma ledger_ok_frame:
  "users t = users s \<Longrightarrow> ledgers t = ledgers s \<Longrightarrow> ledger_ok base t = ledger_ok base s"
  by (simp add: ledger_ok_def)

lemma ledger_ok_users:
  assumes "ledger_ok base s" "ledgers t = ledgers s" "users t = updateWhere P f (users s)"
    "\<And>u. u_Id (f u) = u_Id u" "\<And>u. u_Quota (f u) = u_Quota u"
  shows "ledger_ok base t"
  using assms by (auto simp: ledger_ok_def set_updateWhere map_updateWhere)

lemma ledger_ok_posted:
  assumes ok: "ledger_ok base s" and p: "posted s e t"
  shows "ledger_ok base t"
proof -
  obtain u f where u: "findRow (\<lambda>u. u_Id u = bl_UserID e \<and> \<not> u_DeletedAt u) (users s) = Some u"
    and before: "bl_BalanceBefore e = u_Quota u"
    and after: "bl_BalanceAfter e = bl_BalanceBefore e + bl_Delta e"
    and fresh: "bl_IdempotencyKey e \<notin> bl_IdempotencyKey ` set (ledgers s)"
    and f: "\<forall>u. u_Id (f u) = u_Id u \<and> u_DeletedAt (f u) = u_DeletedAt u \<and> u_Quota (f u) = bl_BalanceAfter e"
    and ut: "users t = updateWhere (\<lambda>u. u_Id u = bl_UserID e \<and> \<not> u_DeletedAt u) f (users s)"
    and lt: "ledgers t = ledgers s @ [e]"
    using p by (rule postedE)
  then have mem: "u \<in> set (users s)" "u_Id u = bl_UserID e" "\<not> u_DeletedAt u"
    by (auto dest: findRow_Some)
  have only: "v = u" if "v \<in> set (users s)" "u_Id v = bl_UserID e" for v
    using that mem ok distinct_key_unique [of u_Id "users s"] by (auto simp: ledger_ok_def)
  have quota: "u_Quota v = replay base (ledgers t) (u_Id v)" if v: "v \<in> set (users t)" for v
  proof -
    obtain w where w: "w \<in> set (users s)"
        "v = (if u_Id w = bl_UserID e \<and> \<not> u_DeletedAt w then f w else w)"
      using v unfolding ut by (rule in_updateWhereE)
    show ?thesis
    proof (cases "u_Id w = bl_UserID e")
      case True
      with w only mem have "w = u" by blast
      with w mem f lt show ?thesis by (auto simp: replay_append)
    next
      case False
      with w ok lt show ?thesis by (auto simp: replay_append ledger_ok_def)
    qed
  qed
  have "map u_Id (users t) = map u_Id (users s)"
    unfolding ut by (rule map_updateWhere) (simp add: f)
  moreover have "chained base (ledgers t)"
    using ok mem before after lt by (auto simp: chained_append ledger_ok_def)
  moreover have "distinct (map bl_IdempotencyKey (ledgers t))"
    using ok fresh lt by (auto simp: ledger_ok_def)
  ultimately show ?thesis
    using ok quota by (auto simp: ledger_ok_def)
qed

section \<open>The balance of a user\<close>

definition balanceOf :: "int \<Rightarrow> store \<Rightarrow> int option" where
  "balanceOf uid s = map_option u_Quota (findRow (\<lambda>u. u_Id u = uid \<and> \<not> u_DeletedAt u) (users s))"

lemma balanceOf_users: "users t = users s \<Longrightarrow> balanceOf uid t = balanceOf uid s"
  by (simp add: balanceOf_def)

lemma balanceOf_raised:
  assumes "users t = updateWhere (\<lambda>u. u_Id u = uid \<and> \<not> u_DeletedAt u) f (users s)"
    "\<And>u. u_Id (f u) = u_Id u" "\<And>u. u_DeletedAt (f u) = u_DeletedAt u"
    "\<And>u. u_Quota (f u) = u_Quota u + q"
  shows "balanceOf v t = map_option (\<lambda>b. b + (if v = uid then q else 0)) (balanceOf v s)"
  using findRow_Some [of "\<lambda>u. u_Id u = v \<and> \<not> u_DeletedAt u" "users s"]
  by (cases "findRow (\<lambda>u. u_Id u = v \<and> \<not> u_DeletedAt u) (users s)")
     (auto simp: balanceOf_def findRow_updateWhere assms)

lemma balanceOf_posted:
  assumes "posted s e t"
  shows "balanceOf v t = map_option (\<lambda>b. b + (if v = bl_UserID e then bl_Delta e else 0)) (balanceOf v s)"
proof -
  from assms obtain u f where u: "findRow (\<lambda>u. u_Id u = bl_UserID e \<and> \<not> u_DeletedAt u) (users s) = Some u"
    "bl_BalanceBefore e = u_Quota u" "bl_BalanceAfter e = bl_BalanceBefore e + bl_Delta e"
    "\<forall>u. u_Id (f u) = u_Id u \<and> u_DeletedAt (f u) = u_DeletedAt u \<and> u_Quota (f u) = bl_BalanceAfter e"
    "users t = updateWhere (\<lambda>u. u_Id u = bl_UserID e \<and> \<not> u_DeletedAt u) f (users s)"
    by (elim postedE)
  have row: "findRow (\<lambda>u. u_Id u = v \<and> \<not> u_DeletedAt u) (users t) =
      map_option (\<lambda>w. if u_Id w = bl_UserID e \<and> \<not> u_DeletedAt w then f w else w)
        (findRow (\<lambda>u. u_Id u = v \<and> \<not> u_DeletedAt u) (users s))"
    unfolding u(5) by (rule findRow_updateWhere) (simp add: u(4))
  show ?thesis
  proof (cases "v = bl_UserID e")
    case True
    with row u(1-4) findRow_Some [OF u(1)] show ?thesis by (simp add: balanceOf_def)
  next
    case False
    have "u_Quota (if u_Id w = bl_UserID e \<and> \<not> u_DeletedAt w then f w else w) = u_Quota w"
      if "findRow (\<lambda>u. u_Id u = v \<and> \<not> u_DeletedAt u) (users s) = Some w" for w
      using False findRow_Some [OF that] by simp
    with False row show ?thesis
      by (cases "findRow (\<lambda>u. u_Id u = v \<and> \<not> u_DeletedAt u) (users s)") (simp_all add: balanceOf_def)
  qed
qed

section \<open>What an adjustment does\<close>

text \<open>
  The one change of the tables an adjustment can make: the live row of the user gets the new
  quota (and status), and exactly one entry is appended.
\<close>

definition adjusted :: "store \<Rightarrow> BalanceAdjustment \<Rightarrow> bool \<Rightarrow> BalanceLedger \<Rightarrow> store \<Rightarrow> bool" where
  "adjusted s adj allowNegative e t \<longleftrightarrow>
     (case findRow (\<lambda>u. u_Id u = ba_UserID adj \<and> \<not> u_DeletedAt u) (users s) of
        None \<Rightarrow> False
      | Some u \<Rightarrow>
          checkedSum allowNegative (u_Quota u) (ba_Delta adj) = Inr (bl_BalanceAfter e) \<and>
          bl_UserID e = ba_UserID adj \<and> bl_OperatorID e = ba_OperatorID adj \<and>
          bl_Delta e = ba_Delta adj \<and> bl_BalanceBefore e = u_Quota u \<and>
          bl_Reason e = ba_Reason adj \<and> bl_IdempotencyKey e = ba_IdempotencyKey adj \<and>
          bl_RequestID e = ba_RequestID adj \<and> bl_SourceType e = ba_SourceType adj \<and>
          bl_IdempotencyKey e \<notin> bl_IdempotencyKey ` set (ledgers s) \<and>
          t = s\<lparr>users := updateWhere (\<lambda>v. u_Id v = ba_UserID adj \<and> \<not> u_DeletedAt v)
                  (applyUserUpdates (balanceLedgerUserUpdates u (bl_BalanceAfter e) allowNegative))
                  (users s),
                ledgers := ledgers s @ [e]\<rparr>)"

lemma checkedSum_Inr_eq: "checkedSum allowNegative b d = Inr a \<Longrightarrow> a = b + d"
  by (auto simp: checkedSum_def dest: checkedSum_Inr checkedSettlementSum_Inr split: if_splits)

lemma adjusted_posted: "adjusted s adj allowNegative e t \<Longrightarrow> posted s e t"
  by (auto simp: adjusted_def dest: checkedSum_Inr_eq split: option.splits intro!: posted_update)

lemma adjusted_ledger: "adjusted s adj allowNegative e t \<Longrightarrow> ledgers t = ledgers s @ [e]"
  by (auto simp: adjusted_def split: option.splits)

lemma adjusted_matches: "adjusted s adj allowNegative e t \<Longrightarrow> balanceLedgerRequestMatches e adj"
  by (auto simp: adjusted_def balanceLedgerRequestMatches_def split: option.splits)

lemma adjusted_key: "adjusted s adj allowNegative e t \<Longrightarrow> bl_IdempotencyKey e = ba_IdempotencyKey adj"
  by (auto simp: adjusted_def split: option.splits)

definition adjustTx_post ::
  "store \<Rightarrow> BalanceAdjustment \<Rightarrow> bool \<Rightarrow> err + BalanceLedger \<times> bool \<Rightarrow> store \<Rightarrow> bool" where
  "adjustTx_post s adj allowNegative r t =
     (case r of
        Inl err \<Rightarrow> True
      | Inr (e, applied) \<Rightarrow>
          balanceLedgerRequestMatches e adj \<and> bl_IdempotencyKey e = ba_IdempotencyKey adj \<and>
          (if applied then adjusted s adj allowNegative e t else t = s \<and> e \<in> set (ledgers s)))"

lemma wp_adjustUserBalanceTx:
  "wp (adjustUserBalanceTx now adj allowNegative) (adjustTx_post s adj allowNegative) s"
  unfolding adjustUserBalanceTx_def
  by (auto intro!: wp_intro simp: adjustTx_post_def adjusted_def Let_def balanceLedgerRequestMatches_def
      dest: findRow_Some split: sum.splits option.splits if_splits)

definition adjust_post ::
  "store \<Rightarrow> BalanceAdjustment \<Rightarrow> bool \<Rightarrow> err + BalanceLedger \<times> bool \<times> err option \<Rightarrow> store \<Rightarrow> bool" where
  "adjust_post s adj allowNegative r t =
     (case r of
        Inl err \<Rightarrow> t = s \<or> (\<exists>e. adjusted s adj allowNegative e t)
      | Inr (e, applied, warning) \<Rightarrow>
          balanceLedgerRequestMatches e adj \<and> bl_IdempotencyKey e = ba_IdempotencyKey adj \<and>
          e \<in> set (ledgers t) \<and>
          (if applied then adjusted s adj allowNegative e t
           else t = s \<or> adjusted s adj allowNegative e t))"

lemma wp_syncLedgerCache [simp]:
  "wp (syncLedgerCache e applied) Q s \<longleftrightarrow>
     Q (Inr (e, applied, Some ErrBalanceLedgerCacheSync)) s \<and> Q (Inr (e, applied, None)) s"
  by (auto simp: syncLedgerCache_def wp_def bindE_def attempt_def extern_def ret_def nextOutcome_def
      split: list.splits outcome.splits)

lemma wp_adjustTransaction:
  "wp (transaction (adjustUserBalanceTx now adj allowNegative))
     (\<lambda>r t. case r of
        Inl err \<Rightarrow> t = s \<or> (\<exists>e. adjusted s adj allowNegative e t)
      | Inr _ \<Rightarrow> adjustTx_post s adj allowNegative r t) s"
  by (rule wp_transactionI [OF wp_adjustUserBalanceTx])
     (auto simp: adjustTx_post_def split: if_splits)

lemma adjusted_entry:
  "adjusted s adj allowNegative e t \<Longrightarrow> e' \<in> set (ledgers t) \<Longrightarrow>
     bl_IdempotencyKey e' = ba_IdempotencyKey adj \<Longrightarrow> adjusted s adj allowNegative e' t"
  by (auto simp: adjusted_def image_iff split: option.splits)

lemma adjusted_last: "adjusted s adj allowNegative e t \<Longrightarrow> e \<in> set (ledgers t)"
  by (auto simp: adjusted_def split: option.splits)

lemma wp_adjustAndSync:
  "wp (adjustAndSync now adj allowNegative) (adjust_post s adj allowNegative) s"
  unfolding adjustAndSync_def
proof (rule wp_bind_attemptI [OF wp_adjustTransaction], goal_cases)
  case (1 r t)
  show ?case
  proof (cases r)
    case (Inr a)
    with 1 show ?thesis
      by (auto simp: adjustTx_post_def adjust_post_def adjusted_last split: prod.splits if_splits)
  next
    case (Inl err)
    with 1 have "t = s \<or> (\<exists>e. adjusted s adj allowNegative e t)" by simp
    with Inl show ?thesis
      by (auto intro!: wp_intro simp: adjust_post_def intro: adjusted_entry)
  qed
qed

lemma wp_adjustUserBalance:
  "wp (adjustUserBalance now adj allowNegative)
     (adjust_post s (normalizedAdjustment adj) allowNegative) s"
  unfolding adjustUserBalance_def Let_def
  by (intro wp_if wp_adjustAndSync) (simp_all add: adjust_post_def)

text \<open>The requests the two usage debits make.\<close>

definition reserveRequest :: "int \<Rightarrow> int \<Rightarrow> string \<Rightarrow> string \<Rightarrow> BalanceAdjustment" where
  "reserveRequest userID amount key requestID =
     \<lparr>ba_UserID = userID, ba_OperatorID = 0, ba_Delta = - amount,
      ba_Reason = ''prepaid wallet usage reservation'', ba_IdempotencyKey = TrimSpace key,
      ba_RequestID = TrimSpace requestID, ba_SourceType = BalanceLedgerSourceUsageReservation\<rparr>"

definition settleRequest :: "int \<Rightarrow> int \<Rightarrow> string \<Rightarrow> string \<Rightarrow> BalanceAdjustment" where
  "settleRequest userID amount key requestID =
     \<lparr>ba_UserID = userID, ba_OperatorID = 0, ba_Delta = - amount,
      ba_Reason = ''actual usage exceeded the prepaid wallet reservation'',
      ba_IdempotencyKey = TrimSpace key, ba_RequestID = TrimSpace requestID,
      ba_SourceType = BalanceLedgerSourceUsageSettlement\<rparr>"

lemma TrimSpace_reasons:
  "TrimSpace ''prepaid wallet usage reservation'' = ''prepaid wallet usage reservation''"
  "TrimSpace ''actual usage exceeded the prepaid wallet reservation'' =
     ''actual usage exceeded the prepaid wallet reservation''"
  by code_simp+

lemma wp_ReserveUserBalanceDebit:
  "wp (ReserveUserBalanceDebit now userID amount key requestID)
     (adjust_post s (reserveRequest userID amount key requestID) False) s"
  unfolding ReserveUserBalanceDebit_def Let_def
  by (intro wp_if wp_bind_attemptI [OF wp_adjustUserBalance])
     (auto simp: adjust_post_def reserveRequest_def normalizedAdjustment_def TrimSpace_reasons
       intro!: wp_intro split: sum.splits if_splits)

lemma wp_SettleUserBalanceDebit:
  "wp (SettleUserBalanceDebit now userID amount key requestID)
     (adjust_post s (settleRequest userID amount key requestID) True) s"
  unfolding SettleUserBalanceDebit_def Let_def
  apply (intro wp_if)
    apply (simp_all add: adjust_post_def)
  apply (rule wp_mono [OF wp_adjustUserBalance])
  apply (simp add: adjust_post_def settleRequest_def normalizedAdjustment_def TrimSpace_reasons)
  done

lemma adjust_post_cases:
  "adjust_post s adj allowNegative r t \<Longrightarrow> t = s \<or> (\<exists>e. adjusted s adj allowNegative e t)"
  by (auto simp: adjust_post_def split: sum.splits if_splits)

lemma adjust_post_ledger_ok:
  "ledger_ok base s \<Longrightarrow> adjust_post s adj allowNegative r t \<Longrightarrow> ledger_ok base t"
  by (auto dest!: adjust_post_cases dest: adjusted_posted intro: ledger_ok_posted)

section \<open>Retries\<close>

definition appliedCalls :: "(err + BalanceLedger \<times> bool \<times> err option) list \<Rightarrow> nat" where
  "appliedCalls rs = length (filter (\<lambda>r. case r of Inl _ \<Rightarrow> False | Inr (_, applied, _) \<Rightarrow> applied) rs)"

lemma appliedCalls_simps [simp]:
  "appliedCalls [] = 0"
  "appliedCalls (r # rs) = (case r of Inl _ \<Rightarrow> 0 | Inr (_, applied, _) \<Rightarrow> of_bool applied) + appliedCalls rs"
  by (auto simp: appliedCalls_def split: sum.splits)

lemma adjusted_key_used:
  "adjusted s adj allowNegative e t \<Longrightarrow> ba_IdempotencyKey adj \<in> bl_IdempotencyKey ` set (ledgers t)"
  by (force simp: adjusted_def split: option.splits)

lemma adjusted_key_fresh:
  "adjusted s adj allowNegative e t \<Longrightarrow> ba_IdempotencyKey adj \<notin> bl_IdempotencyKey ` set (ledgers s)"
  by (auto simp: adjusted_def split: option.splits)

lemma adjust_post_replay:
  assumes post: "adjust_post s adj allowNegative r t"
    and used: "ba_IdempotencyKey adj \<in> bl_IdempotencyKey ` set (ledgers s)"
  shows "t = s \<and> appliedCalls [r] = 0"
proof -
  have no: "adjusted s adj allowNegative e t = False" for e
    using used adjusted_key_fresh by blast
  from post show ?thesis
    unfolding adjust_post_def no by (cases r) (auto split: if_splits)
qed

lemma runAll_adjust_replay:
  "ba_IdempotencyKey (normalizedAdjustment adj) \<in> bl_IdempotencyKey ` set (ledgers (db c)) \<Longrightarrow>
   runAll (map (\<lambda>now. adjustUserBalance now adj allowNegative) nows) c = (rs, c') \<Longrightarrow>
   db c' = db c \<and> appliedCalls rs = 0"
proof (induction nows arbitrary: c rs)
  case (Cons now nows)
  obtain r c1 where m: "adjustUserBalance now adj allowNegative c = (r, c1)" by fastforce
  obtain rs' where ms: "runAll (map (\<lambda>now. adjustUserBalance now adj allowNegative) nows) c1 = (rs', c')"
    and rs: "rs = r # rs'"
    using Cons.prems(2) m by (auto split: prod.splits)
  have "db c1 = db c \<and> appliedCalls [r] = 0"
    by (rule adjust_post_replay [OF wpD [OF wp_adjustUserBalance m] Cons.prems(1)])
  with Cons.IH [OF _ ms] Cons.prems(1) rs show ?case by simp
qed simp

text \<open>
  C1. A balance adjustment is applied at most once however often it is retried: whatever the
  driver and the cache do in each call, after any number of calls with the same request either
  nothing has changed or exactly the one entry and user update of the request have been made,
  and at most one of the calls reports that it applied the adjustment.
\<close>

theorem adjust_retries_apply_once:
  "case runAll (map (\<lambda>now. adjustUserBalance now adj allowNegative) nows) c of
     (rs, c') \<Rightarrow>
       (db c' = db c \<or> (\<exists>e. adjusted (db c) (normalizedAdjustment adj) allowNegative e (db c'))) \<and>
       appliedCalls rs \<le> 1"
proof (induction nows arbitrary: c)
  case (Cons now nows)
  obtain r c1 where m: "adjustUserBalance now adj allowNegative c = (r, c1)" by fastforce
  obtain rs c2 where ms: "runAll (map (\<lambda>now. adjustUserBalance now adj allowNegative) nows) c1 = (rs, c2)"
    by fastforce
  have post: "adjust_post (db c) (normalizedAdjustment adj) allowNegative r (db c1)"
    by (rule wpD [OF wp_adjustUserBalance m])
  show ?case
  proof (cases "\<exists>e. adjusted (db c) (normalizedAdjustment adj) allowNegative e (db c1)")
    case True
    then obtain e where e: "adjusted (db c) (normalizedAdjustment adj) allowNegative e (db c1)" ..
    from runAll_adjust_replay [OF adjusted_key_used [OF e] ms] e m ms show ?thesis
      by (auto split: sum.splits)
  next
    case False
    with post have "db c1 = db c" "appliedCalls [r] = 0"
      by (auto simp: adjust_post_def split: sum.splits if_splits)
    with Cons.IH [of c1] m ms show ?thesis by (auto split: sum.splits)
  qed
qed simp

text \<open>
  C7. The balance checks are exact on 64-bit integers: on every pair of \<open>int64\<close> values the
  wrapping code gives the error, or the sum, that unbounded arithmetic gives, so no overflow
  goes unnoticed.
\<close>

theorem checked_sums_on_int64:
  "map_sum id sint (checkedBalanceLedgerSum64 b d) = checkedBalanceLedgerSum (sint b) (sint d) \<and>
   map_sum id sint (checkedSettlementBalanceLedgerSum64 b d)
     = checkedSettlementBalanceLedgerSum (sint b) (sint d)"
  by (simp add: checkedBalanceLedgerSum64_refines checkedSettlementBalanceLedgerSum64_refines)

section \<open>Reservations\<close>

lemma reserve_run:
  assumes "0 < amount" "TrimSpace requestID \<noteq> []" "TrimSpace key \<noteq> []"
    "length (TrimSpace key) \<le> BalanceLedgerIdempotencyKeyMaxLength"
    and fresh: "findRow (\<lambda>e. bl_IdempotencyKey e = TrimSpace key) (ledgers s) = None"
    and user: "findRow (\<lambda>u. u_Id u = userID \<and> \<not> u_DeletedAt u) (users s) = Some u"
    and range: "\<bar>u_Quota u\<bar> \<le> MaxInt32"
  shows "ReserveUserBalanceDebit now userID amount key requestID \<lparr>db = s, faults = []\<rparr> =
    (if u_Quota u < amount then (Inl ErrInsufficientUserQuota, \<lparr>db = s, faults = []\<rparr>)
     else let e = \<lparr>bl_ID = freshId bl_ID (ledgers s), bl_UserID = userID, bl_OperatorID = 0,
                   bl_Delta = - amount, bl_BalanceBefore = u_Quota u,
                   bl_BalanceAfter = u_Quota u - amount,
                   bl_Reason = ''prepaid wallet usage reservation'',
                   bl_IdempotencyKey = TrimSpace key, bl_RequestID = TrimSpace requestID,
                   bl_SourceType = BalanceLedgerSourceUsageReservation, bl_CreatedAt = now\<rparr> in
       (Inr (e, True, None),
        \<lparr>db = s\<lparr>users := updateWhere (\<lambda>v. u_Id v = userID \<and> \<not> u_DeletedAt v)
                  (applyUserUpdates (balanceLedgerUserUpdates u (u_Quota u - amount) False)) (users s),
               ledgers := ledgers s @ [e]\<rparr>, faults = []\<rparr>))"
proof -
  have id: "u_Id u = userID" using user by (auto dest: findRow_Some)
  have new: "TrimSpace key \<notin> bl_IdempotencyKey ` set (ledgers s)"
    using fresh by (auto simp: findRow_None)
  have sum: "checkedSum False (u_Quota u) (- amount) =
      (if u_Quota u < amount then Inl ErrBalanceLedgerNegativeBalance else Inr (u_Quota u - amount))"
    using range \<open>0 < amount\<close> by (auto simp: checkedSum_def checkedBalanceLedgerSum_def
        maxBalanceLedgerQuota_def)
  show ?thesis
    using assms(1-4) fresh user id new sum
    by (simp add: ReserveUserBalanceDebit_def adjustUserBalance_def adjustAndSync_def
        adjustUserBalanceTx_def syncLedgerCache_def normalizedAdjustment_def TrimSpace_reasons
        store_ops Let_def)
qed

text \<open>
  C5. On a working database a reservation under a new key is decided by the balance alone: it is
  refused with \<open>ErrInsufficientUserQuota\<close> and changes nothing when the live user has less
  than the amount, and otherwise returns the new entry, which takes exactly the amount from the
  user's quota and leaves it non-negative.
\<close>

theorem reserve_decided_by_balance:
  assumes "0 < amount" "TrimSpace requestID \<noteq> []" "TrimSpace key \<noteq> []"
    "length (TrimSpace key) \<le> BalanceLedgerIdempotencyKeyMaxLength"
    "findRow (\<lambda>e. bl_IdempotencyKey e = TrimSpace key) (ledgers s) = None"
    "findRow (\<lambda>u. u_Id u = userID \<and> \<not> u_DeletedAt u) (users s) = Some u"
    "\<bar>u_Quota u\<bar> \<le> MaxInt32"
  shows "case ReserveUserBalanceDebit now userID amount key requestID \<lparr>db = s, faults = []\<rparr> of
      (Inl err, c) \<Rightarrow> u_Quota u < amount \<and> err = ErrInsufficientUserQuota \<and> db c = s
    | (Inr (e, applied, warning), c) \<Rightarrow>
        amount \<le> u_Quota u \<and> applied \<and> warning = None \<and>
        bl_BalanceAfter e = u_Quota u - amount \<and> 0 \<le> bl_BalanceAfter e \<and>
        adjusted s (reserveRequest userID amount key requestID) False e (db c)"
proof -
  have new: "TrimSpace key \<notin> bl_IdempotencyKey ` set (ledgers s)"
    using assms(5) by (auto simp: findRow_None)
  show ?thesis
    using assms(1,6,7) new unfolding reserve_run [OF assms]
    by (auto simp: Let_def adjusted_def reserveRequest_def checkedSum_def
        checkedBalanceLedgerSum_def maxBalanceLedgerQuota_def)
qed

definition demoUser :: User where
  "demoUser =
     \<lparr>u_Id = 7, u_Username = ''ann'', u_Password = ''x'', u_DisplayName = ''Ann'', u_Role = 1, u_Status = 1,
      u_DebtSuspended = False, u_Email = ''a@b.c'', u_GitHubId = [], u_DiscordId = [], u_OidcId = [],
      u_WeChatId = [], u_TelegramId = [], u_AccessToken = None, u_Quota = 500, u_UsedQuota = 0,
      u_RequestCount = 0, u_Group = ''default'', u_AffCode = [], u_AffCount = 0, u_AffQuota = 0,
      u_AffHistoryQuota = 0, u_InviterId = 0, u_DeletedAt = False, u_LinuxDOId = [], u_Setting = [],
      u_Remark = [], u_StripeCustomer = [], u_CreatedAt = 0, u_LastLoginAt = 0\<rparr>"

definition demoStore :: store where
  "demoStore = emptyStore\<lparr>users := [demoUser]\<rparr>"

theorem reserve_decided_by_balance_witness:
  "case ReserveUserBalanceDebit 0 7 200 '' k1'' ''r1'' \<lparr>db = demoStore, faults = []\<rparr> of
      (Inl err, c) \<Rightarrow> u_Quota demoUser < 200 \<and> err = ErrInsufficientUserQuota \<and> db c = demoStore
    | (Inr (e, applied, warning), c) \<Rightarrow>
        200 \<le> u_Quota demoUser \<and> applied \<and> warning = None \<and>
        bl_BalanceAfter e = u_Quota demoUser - 200 \<and> 0 \<le> bl_BalanceAfter e \<and>
        adjusted demoStore (reserveRequest 7 200 '' k1'' ''r1'') False e (db c)"
  by (rule reserve_decided_by_balance)
     (code_simp | simp add: demoStore_def demoUser_def MaxInt32_def)+

section \<open>Debt suspension\<close>

text \<open>
  The abstract account standing: the pair of the status column and the debt mark. Every other
  combination of the two columns is irregular.
\<close>

datatype standing = Active | DebtSuspended | AdminDisabled | Irregular

definition standing_of :: "User \<Rightarrow> standing" where
  "standing_of u =
     (if u_Status u = UserStatusEnabled \<and> \<not> u_DebtSuspended u then Active
      else if u_Status u = UserStatusDisabled \<and> u_DebtSuspended u then DebtSuspended
      else if u_Status u = UserStatusDisabled then AdminDisabled
      else Irregular)"

fun nextStanding :: "bool \<Rightarrow> int \<Rightarrow> standing \<Rightarrow> standing" where
  "nextStanding settlement after Active = (if settlement \<and> after < 0 then DebtSuspended else Active)"
| "nextStanding settlement after DebtSuspended = (if after < 0 then DebtSuspended else Active)"
| "nextStanding settlement after AdminDisabled = AdminDisabled"
| "nextStanding settlement after Irregular = Irregular"

text \<open>
  C6. Debt suspension and administrative disabling never mix: the update that goes with a
  ledger entry moves an account between active and debt-suspended exactly by the sign of the
  new balance (only a settlement may suspend), and an account an administrator disabled stays
  so, whatever is credited to it.
\<close>

theorem debt_suspension_refines:
  "case standing_of u of
     Irregular \<Rightarrow> True
   | st \<Rightarrow> standing_of (applyUserUpdates (balanceLedgerUserUpdates u after settlement) u)
            = nextStanding settlement after st"
  by (auto simp: standing_of_def balanceLedgerUserUpdates_def applyUserUpdates_def Let_def
      UserStatusEnabled_def UserStatusDisabled_def split: standing.splits)

end
