(* ===== verification/LedgerGuard.thy ===== *)
theory LedgerGuard
  imports Ledger
begin

text \<open>
  The guard that keeps ledger rows from being changed through GORM: the callback
  \<open>rejectBalanceLedgerMutation\<close> of \<open>model/balance_ledger.go\<close> and the small SQL scanner
  it uses to find the table name in a table expression. The scanner reads bytes; a position in
  the Go code is here the rest of the input from that position on.
\<close>

section \<open>The scanner\<close>

definition isBalanceLedgerSQLIdentifierByte :: "char \<Rightarrow> bool" where
  "isBalanceLedgerSQLIdentifierByte c \<longleftrightarrow>
     (let n = of_char c :: nat
      in 97 \<le> n \<and> n \<le> 122 \<or> 65 \<le> n \<and> n \<le> 90 \<or> 48 \<le> n \<and> n \<le> 57 \<or> c = CHR ''_'' \<or> c = CHR ''$'')"

definition newline :: char where "newline = CHR 0x0A"
definition blankByte :: "char \<Rightarrow> bool" where
  "blankByte c \<longleftrightarrow> c \<in> {CHR 0x20, CHR 0x09, CHR 0x0D, CHR 0x0A}"

abbreviation restOfLine :: "string \<Rightarrow> string" where
  "restOfLine \<equiv> dropWhile (\<lambda>c. c \<noteq> newline)"

text \<open>The input after the first \<open>*/\<close>, if there is one.\<close>

fun afterComment :: "string \<Rightarrow> string option" where
  "afterComment (c # d # s) =
     (if c = CHR ''*'' \<and> d = CHR ''/'' then Some s else afterComment (d # s))"
| "afterComment s = None"

lemma afterComment_length: "afterComment s = Some t \<Longrightarrow> length t < length s"
  by (induction s rule: afterComment.induct) (auto split: if_splits)

lemma restOfLine_length: "length (restOfLine s) \<le> length s"
  by (rule length_dropWhile_le)

function skipBalanceLedgerSQLTrivia :: "string \<Rightarrow> string" where
  "skipBalanceLedgerSQLTrivia [] = []"
| "skipBalanceLedgerSQLTrivia (c # s) =
     (if blankByte c then skipBalanceLedgerSQLTrivia s
      else if c = CHR ''#'' then skipBalanceLedgerSQLTrivia (restOfLine s)
      else if c = CHR ''-'' \<and> s \<noteq> [] \<and> hd s = CHR ''-'' then skipBalanceLedgerSQLTrivia (restOfLine (tl s))
      else if c = CHR ''/'' \<and> s \<noteq> [] \<and> hd s = CHR ''*'' then
        (case afterComment (tl s) of None \<Rightarrow> [] | Some t \<Rightarrow> skipBalanceLedgerSQLTrivia t)
      else c # s)"
  by pat_completeness auto
termination
proof (relation "measure length", goal_cases)
  case (3 c s)
  then show ?case using restOfLine_length [of s] by simp
next
  case (4 c s)
  then show ?case using restOfLine_length [of "tl s"] by (cases s) auto
next
  case (5 c s t)
  then show ?case using afterComment_length [of "tl s" t] by (cases s) auto
qed simp_all

text \<open>The rest of the input after a string literal whose opening quote has been read.\<close>

fun skipBalanceLedgerSQLString :: "string \<Rightarrow> string" where
  "skipBalanceLedgerSQLString [] = []"
| "skipBalanceLedgerSQLString [c] = []"
| "skipBalanceLedgerSQLString (c # d # s) =
     (if c = CHR 0x5C then skipBalanceLedgerSQLString s
      else if c = CHR 0x27 then (if d = CHR 0x27 then skipBalanceLedgerSQLString s else d # s)
      else skipBalanceLedgerSQLString (d # s))"

text \<open>The identifier up to its closing quote, a doubled quote standing for one.\<close>

fun quotedIdentifier :: "char \<Rightarrow> string \<Rightarrow> (string \<times> string) option" where
  "quotedIdentifier q [] = None"
| "quotedIdentifier q [c] = (if c = q then Some ([], []) else None)"
| "quotedIdentifier q (c # d # s) =
     (if c = q then
        (if d = q then map_option (apfst (Cons q)) (quotedIdentifier q s) else Some ([], d # s))
      else map_option (apfst (Cons c)) (quotedIdentifier q (d # s)))"

definition openingQuote :: "char \<Rightarrow> bool" where
  "openingQuote c \<longleftrightarrow> c \<in> {CHR 0x60, CHR 0x22, CHR ''[''}"

definition closingOf :: "char \<Rightarrow> char" where
  "closingOf c = (if c = CHR ''['' then CHR '']'' else c)"

definition parseBalanceLedgerSQLIdentifier :: "string \<Rightarrow> (string \<times> string) option" where
  "parseBalanceLedgerSQLIdentifier s =
     (case s of
        [] \<Rightarrow> None
      | c # t \<Rightarrow>
          if openingQuote c then
            (case quotedIdentifier (closingOf c) t of
               None \<Rightarrow> None
             | Some (i, rest) \<Rightarrow> if i = [] then None else Some (i, rest))
          else
            (let i = takeWhile isBalanceLedgerSQLIdentifierByte s
             in if i = [] then None else Some (i, dropWhile isBalanceLedgerSQLIdentifierByte s)))"

text \<open>
  \<open>strings.EqualFold\<close> against a name in lower-case ASCII letters other than \<open>k\<close>: besides
  the capital letter, the letter s folds with the long s, U+017F, two bytes in UTF-8.
\<close>

definition lowerByte :: "char \<Rightarrow> char" where
  "lowerByte c = (let n = of_char c :: nat in if 65 \<le> n \<and> n \<le> 90 then char_of (n + 32) else c)"

fun equalFold :: "string \<Rightarrow> string \<Rightarrow> bool" where
  "equalFold [] [] = True"
| "equalFold [] (n # ns) = False"
| "equalFold (c # cs) [] = False"
| "equalFold (c # cs) (n # ns) =
     (if lowerByte c = n then equalFold cs ns
      else n = CHR ''s'' \<and> c = CHR 0xC5 \<and> cs \<noteq> [] \<and> hd cs = CHR 0xBF \<and> equalFold (tl cs) ns)"

definition isLedgerName :: "string \<Rightarrow> bool" where
  "isLedgerName i \<longleftrightarrow> equalFold i ''balance_ledgers''"

section \<open>The scanner consumes input\<close>

declare skipBalanceLedgerSQLTrivia.simps(2) [simp del]

lemma skipTrivia_cases:
  obtains "skipBalanceLedgerSQLTrivia s = s"
  | t where "skipBalanceLedgerSQLTrivia s = skipBalanceLedgerSQLTrivia t" "length t < length s"
proof (cases s)
  case Nil
  then show thesis by (simp add: that(1))
next
  case (Cons c t)
  have r: "length (restOfLine x) \<le> length x" for x by (rule restOfLine_length)
  show thesis
  proof (cases "skipBalanceLedgerSQLTrivia s = s")
    case False
    note skip = skipBalanceLedgerSQLTrivia.simps(2) [of c t, folded Cons]
    consider "blankByte c" | "\<not> blankByte c" "c = CHR ''#''"
      | "\<not> blankByte c" "c = CHR ''-''" "t \<noteq> []" "hd t = CHR ''-''"
      | "\<not> blankByte c" "c = CHR ''/''" "t \<noteq> []" "hd t = CHR ''*''"
      using False skip unfolding Cons by (auto split: if_splits)
    then show thesis
    proof cases
      case 1
      with skip Cons show thesis by (intro that(2) [of t]) simp_all
    next
      case 2
      with skip Cons r [of t] show thesis by (intro that(2) [of "restOfLine t"]) simp_all
    next
      case 3
      then have "length (restOfLine (tl t)) < length s"
        using r [of "tl t"] Cons by (cases t) auto
      with 3 skip show thesis by (intro that(2) [of "restOfLine (tl t)"]) simp_all
    next
      case 4
      show thesis
      proof (cases "afterComment (tl t)")
        case None
        with 4 skip Cons show thesis by (intro that(2) [of "[]"]) simp_all
      next
        case (Some u)
        with afterComment_length [OF Some] Cons 4 skip show thesis
          by (intro that(2) [of u]) auto
      qed
    qed
  qed (rule that(1))
qed

lemma skipTrivia_length: "length (skipBalanceLedgerSQLTrivia s) \<le> length s"
proof (induction s rule: length_induct)
  case (1 s)
  show ?case by (rule skipTrivia_cases [of s]) (use 1 in fastforce)+
qed

lemma skipTrivia_less:
  "skipBalanceLedgerSQLTrivia s \<noteq> s \<Longrightarrow> length (skipBalanceLedgerSQLTrivia s) < length s"
  by (rule skipTrivia_cases [of s]) (use skipTrivia_length le_less_trans in fastforce)+

lemma skipString_length: "length (skipBalanceLedgerSQLString s) \<le> length s"
  by (induction s rule: skipBalanceLedgerSQLString.induct) auto

lemma quotedIdentifier_length: "quotedIdentifier q s = Some (i, r) \<Longrightarrow> length r < length s"
proof (induction q s arbitrary: i rule: quotedIdentifier.induct)
  case (3 q c d s)
  then show ?case by (auto split: if_splits)
qed (auto split: if_splits)

lemma parse_length: "parseBalanceLedgerSQLIdentifier s = Some (i, r) \<Longrightarrow> length r < length s"
  by (auto simp: parseBalanceLedgerSQLIdentifier_def Let_def less_Suc_eq_le length_dropWhile_le
           dest: quotedIdentifier_length split: list.splits if_splits option.splits)

section \<open>Finding the table\<close>

function balanceLedgerTableExpressionTargetsLedger :: "string \<Rightarrow> bool" where
  "balanceLedgerTableExpressionTargetsLedger s =
     (if skipBalanceLedgerSQLTrivia s \<noteq> s
      then balanceLedgerTableExpressionTargetsLedger (skipBalanceLedgerSQLTrivia s)
      else (case s of
          [] \<Rightarrow> False
        | c # t \<Rightarrow>
            if c = CHR 0x27
            then balanceLedgerTableExpressionTargetsLedger (skipBalanceLedgerSQLString t)
            else (case parseBalanceLedgerSQLIdentifier s of
                Some (i, rest) \<Rightarrow> isLedgerName i \<or> balanceLedgerTableExpressionTargetsLedger rest
              | None \<Rightarrow> \<not> openingQuote c \<and> balanceLedgerTableExpressionTargetsLedger t)))"
  by pat_completeness auto
termination
  by (relation "measure length")
     (auto simp: skipTrivia_less less_Suc_eq_le skipString_length dest!: parse_length)

declare balanceLedgerTableExpressionTargetsLedger.simps [simp del]

text \<open>
  The values a GORM table expression may hold. Slices and pointers are addresses of a heap (a
  slice also has its length), so a value may contain itself; the scan records the slices and
  pointers it has entered. \<open>TOther\<close> stands for every kind of value the code does not look into.
\<close>

datatype tableValue =
    TNil | TString string | TTable string string | TTablePtr "nat option"
  | TExpr string "(nat \<times> nat) option" | TExprPtr "nat option"
  | TSlice "(nat \<times> nat) option" | TArray "tableValue list" | TOther

record tableHeap =
  th_tables :: "(string \<times> string) list"
  th_exprs :: "(string \<times> (nat \<times> nat) option) list"
  th_slots :: "tableValue list list"

datatype balanceLedgerTableExpressionVisit = VTable nat | VExpr nat | VSlice nat nat

text \<open>Elements are tried in order until one targets the ledger; the visits go on from one to the next.\<close>

primrec anyTargets ::
  "('v \<Rightarrow> 'k list \<Rightarrow> (bool \<times> 'k list) option) \<Rightarrow> 'v list \<Rightarrow> 'k list \<Rightarrow> (bool \<times> 'k list) option" where
  "anyTargets f [] visited = Some (False, visited)"
| "anyTargets f (v # vs) visited =
     (case f v visited of
        None \<Rightarrow> None
      | Some (b, visited') \<Rightarrow> if b then Some (True, visited') else anyTargets f vs visited')"

text \<open>
  The first argument bounds the depth of the recursion; \<open>None\<close> is running out of it, which
  \<open>guard_scan_returns\<close> shows never happens with enough. Addresses are those of live objects.
\<close>

fun valueTargetsLedger ::
  "tableHeap \<Rightarrow> nat \<Rightarrow> tableValue \<Rightarrow> balanceLedgerTableExpressionVisit list \<Rightarrow>
   (bool \<times> balanceLedgerTableExpressionVisit list) option" where
  "valueTargetsLedger h 0 v visited = None"
| "valueTargetsLedger h (Suc n) (TString s) visited =
     Some (balanceLedgerTableExpressionTargetsLedger s, visited)"
| "valueTargetsLedger h (Suc n) (TTable name alias) visited =
     Some (balanceLedgerTableExpressionTargetsLedger name \<or>
           balanceLedgerTableExpressionTargetsLedger alias, visited)"
| "valueTargetsLedger h (Suc n) (TTablePtr (Some p)) visited =
     (if p < length (th_tables h) \<and> VTable p \<notin> set visited
      then valueTargetsLedger h n (TTable (fst (th_tables h ! p)) (snd (th_tables h ! p))) (VTable p # visited)
      else Some (False, visited))"
| "valueTargetsLedger h (Suc n) (TExpr sql vars) visited =
     (if balanceLedgerTableExpressionTargetsLedger sql then Some (True, visited)
      else valueTargetsLedger h n (TSlice vars) visited)"
| "valueTargetsLedger h (Suc n) (TExprPtr (Some p)) visited =
     (if p < length (th_exprs h) \<and> VExpr p \<notin> set visited
      then valueTargetsLedger h n (TExpr (fst (th_exprs h ! p)) (snd (th_exprs h ! p))) (VExpr p # visited)
      else Some (False, visited))"
| "valueTargetsLedger h (Suc n) (TSlice (Some (p, l))) visited =
     (if p < length (th_slots h) \<and> l \<le> length (th_slots h ! p) \<and> VSlice p l \<notin> set visited
      then anyTargets (valueTargetsLedger h n) (take l (th_slots h ! p)) (VSlice p l # visited)
      else Some (False, visited))"
| "valueTargetsLedger h (Suc n) (TArray vs) visited = anyTargets (valueTargetsLedger h n) vs visited"
| "valueTargetsLedger h (Suc n) _ visited = Some (False, visited)"

section \<open>The callback\<close>

text \<open>What the callback reads of a GORM statement: table, schema's table, table expression.\<close>

record gormStatement =
  gs_Table :: string
  gs_SchemaTable :: "string option"
  gs_TableExpr :: "tableValue option"

definition rejectBalanceLedgerMutation :: "tableHeap \<Rightarrow> nat \<Rightarrow> gormStatement \<Rightarrow> err option" where
  "rejectBalanceLedgerMutation h fuel st =
     (let byTable = balanceLedgerTableExpressionTargetsLedger (gs_Table st);
          bySchema = (case gs_SchemaTable st of
                        None \<Rightarrow> False | Some t \<Rightarrow> balanceLedgerTableExpressionTargetsLedger t);
          byExpr = (case gs_TableExpr st of
                      None \<Rightarrow> False
                    | Some v \<Rightarrow> (case valueTargetsLedger h fuel v [] of
                                  None \<Rightarrow> False | Some (b, _) \<Rightarrow> b))
      in if byTable \<or> bySchema \<or> byExpr then Some ErrBalanceLedgerImmutable else None)"

definition BeforeUpdate :: "BalanceLedger \<Rightarrow> err option" where
  "BeforeUpdate e = Some ErrBalanceLedgerImmutable"

definition BeforeDelete :: "BalanceLedger \<Rightarrow> err option" where
  "BeforeDelete e = Some ErrBalanceLedgerImmutable"

section \<open>Cyclic table expressions\<close>

text \<open>
  Every pointer or slice entered is one more visit, and there are only so many of them; between
  two visits the recursion goes down the nesting of arrays.
\<close>

definition visits :: "tableHeap \<Rightarrow> balanceLedgerTableExpressionVisit set" where
  "visits h = VTable ` {..<length (th_tables h)} \<union> VExpr ` {..<length (th_exprs h)} \<union>
     (\<Union>p < length (th_slots h). VSlice p ` {..length (th_slots h ! p)})"

fun nesting :: "tableValue \<Rightarrow> nat" where
  "nesting (TArray vs) = Suc (foldr max (map nesting vs) 0)"
| "nesting (TExpr s v) = 1"
| "nesting v = 0"

definition heapNesting :: "tableHeap \<Rightarrow> nat" where
  "heapNesting h = foldr max (map nesting (concat (th_slots h))) 0"

text \<open>A depth that is always enough.\<close>

definition scanFuel :: "tableHeap \<Rightarrow> tableValue \<Rightarrow> nat" where
  "scanFuel h v = Suc (nesting v) + (2 + heapNesting h) *
     (length (th_tables h) + length (th_exprs h) + length (concat (th_slots h)) + length (th_slots h))"

lemma finite_visits [simp]: "finite (visits h)"
  by (simp add: visits_def)

lemma foldr_max_ge: "x \<in> set xs \<Longrightarrow> x \<le> foldr max xs (0 :: nat)"
  by (induction xs) (auto simp: max_def)

lemma nesting_slot: "p < length (th_slots h) \<Longrightarrow> v \<in> set (th_slots h ! p) \<Longrightarrow> nesting v \<le> heapNesting h"
  unfolding heapNesting_def by (rule foldr_max_ge) (auto intro!: image_eqI nth_mem)

lemma anyTargets_returns:
  assumes "\<And>v visited. v \<in> set vs \<Longrightarrow> K \<subseteq> set visited \<Longrightarrow>
      \<exists>b visited'. f v visited = Some (b, visited') \<and> set visited \<subseteq> set visited'"
    and "K \<subseteq> set visited"
  shows "\<exists>b visited'. anyTargets f vs visited = Some (b, visited') \<and> set visited \<subseteq> set visited'"
  using assms
proof (induction vs arbitrary: visited)
  case (Cons v vs)
  obtain b visited' where v: "f v visited = Some (b, visited')" "set visited \<subseteq> set visited'"
    using Cons.prems(1) [of v visited] Cons.prems(2) by auto
  have "\<exists>b w. anyTargets f vs visited' = Some (b, w) \<and> set visited' \<subseteq> set w"
    using Cons.prems v(2) by (intro Cons.IH) auto
  with v show ?case by (auto intro: order_trans)
qed (auto intro: exI [of _ False])

text \<open>What one more visit leaves of the visits that can still be made.\<close>

abbreviation room :: "tableHeap \<Rightarrow> balanceLedgerTableExpressionVisit set \<Rightarrow> nat" where
  "room h V \<equiv> card (visits h - V) * (2 + heapNesting h)"

lemma room_visit:
  assumes "x \<in> visits h" "x \<notin> V"
  shows "room h (insert x V) + (2 + heapNesting h) \<le> room h V"
proof -
  have "card (visits h - V) = Suc (card (visits h - V - {x}))"
    using assms by (intro card.remove) auto
  moreover have "visits h - V - {x} = visits h - insert x V" by auto
  ultimately show ?thesis by simp
qed

lemma room_mono: "V \<subseteq> W \<Longrightarrow> room h W \<le> room h V"
  by (intro mult_right_mono card_mono) auto

lemma scan_returns:
  "nesting v + room h (set visited) < n \<Longrightarrow>
   \<exists>b visited'. valueTargetsLedger h n v visited = Some (b, visited') \<and> set visited \<subseteq> set visited'"
proof (induction n arbitrary: v visited)
  case (Suc n)
  note plain = exI [of _ False] exI [of _ visited]
  show ?case
  proof (cases v)
    case (TTablePtr q)
    show ?thesis
    proof (cases "\<exists>p. q = Some p \<and> p < length (th_tables h) \<and> VTable p \<notin> set visited")
      case True
      then obtain p where p: "q = Some p" "p < length (th_tables h)" "VTable p \<notin> set visited" by auto
      have "room h (insert (VTable p) (set visited)) + (2 + heapNesting h) \<le> room h (set visited)"
        using p by (intro room_visit) (auto simp: visits_def)
      with Suc.prems TTablePtr p Suc.IH [of "TTable (fst (th_tables h ! p)) (snd (th_tables h ! p))" "VTable p # visited"]
      show ?thesis by auto
    qed (use TTablePtr in \<open>cases q; auto\<close>)
  next
    case (TExprPtr q)
    show ?thesis
    proof (cases "\<exists>p. q = Some p \<and> p < length (th_exprs h) \<and> VExpr p \<notin> set visited")
      case True
      then obtain p where p: "q = Some p" "p < length (th_exprs h)" "VExpr p \<notin> set visited" by auto
      have "room h (insert (VExpr p) (set visited)) + (2 + heapNesting h) \<le> room h (set visited)"
        using p by (intro room_visit) (auto simp: visits_def)
      with Suc.prems TExprPtr p Suc.IH [of "TExpr (fst (th_exprs h ! p)) (snd (th_exprs h ! p))" "VExpr p # visited"]
      show ?thesis by auto
    qed (use TExprPtr in \<open>cases q; auto\<close>)
  next
    case (TSlice q)
    show ?thesis
    proof (cases "\<exists>p l. q = Some (p, l) \<and> p < length (th_slots h) \<and> l \<le> length (th_slots h ! p) \<and>
        VSlice p l \<notin> set visited")
      case True
      then obtain p l where p: "q = Some (p, l)" "p < length (th_slots h)" "l \<le> length (th_slots h ! p)"
        "VSlice p l \<notin> set visited" by auto
      have less: "room h (insert (VSlice p l) (set visited)) + (2 + heapNesting h) \<le> room h (set visited)"
        using p by (intro room_visit) (auto simp: visits_def)
      have "\<exists>b w. anyTargets (valueTargetsLedger h n) (take l (th_slots h ! p)) (VSlice p l # visited) =
          Some (b, w) \<and> set (VSlice p l # visited) \<subseteq> set w"
      proof (rule anyTargets_returns [where K = "insert (VSlice p l) (set visited)"])
        fix v w assume v: "v \<in> set (take l (th_slots h ! p))" and w: "insert (VSlice p l) (set visited) \<subseteq> set w"
        have "nesting v \<le> heapNesting h" using p(2) v by (intro nesting_slot) (auto dest: in_set_takeD)
        with less room_mono [OF w, of h] Suc.prems TSlice
        show "\<exists>b w'. valueTargetsLedger h n v w = Some (b, w') \<and> set w \<subseteq> set w'"
          by (intro Suc.IH) simp
      qed simp
      with p TSlice show ?thesis by auto
    qed (use TSlice in \<open>cases q; auto\<close>)
  next
    case (TArray vs)
    have "\<exists>b w. anyTargets (valueTargetsLedger h n) vs visited = Some (b, w) \<and> set visited \<subseteq> set w"
    proof (rule anyTargets_returns [where K = "set visited"])
      fix v w assume v: "v \<in> set vs" and w: "set visited \<subseteq> set w"
      have "nesting v \<le> foldr max (map nesting vs) 0" using v by (intro foldr_max_ge) simp
      with room_mono [OF w, of h] Suc.prems TArray
      show "\<exists>b w'. valueTargetsLedger h n v w = Some (b, w') \<and> set w \<subseteq> set w'"
        by (intro Suc.IH) simp
    qed simp
    with TArray show ?thesis by simp
  next
    case (TExpr s vars)
    with Suc show ?thesis by auto
  qed auto
qed simp

lemma sum_lengths: "(\<Sum>p < length xs. Suc (length (xs ! p))) = length (concat xs) + length xs"
  by (induction xs rule: rev_induct) (simp_all add: nth_append)

lemma card_visits: "card (visits h) \<le> length (th_tables h) + length (th_exprs h) +
    length (concat (th_slots h)) + length (th_slots h)"
proof -
  let ?T = "VTable ` {..<length (th_tables h)}" and ?E = "VExpr ` {..<length (th_exprs h)}"
    and ?S = "\<Union>p < length (th_slots h). VSlice p ` {..length (th_slots h ! p)}"
  have slice: "card (VSlice p ` {..k}) \<le> Suc k" for p k
    using card_image_le [of "{..k}" "VSlice p"] by simp
  have "card ?S \<le> (\<Sum>p < length (th_slots h). card (VSlice p ` {..length (th_slots h ! p)}))"
    by (rule card_UN_le) simp
  also have "\<dots> \<le> (\<Sum>p < length (th_slots h). Suc (length (th_slots h ! p)))"
    by (rule sum_mono) (rule slice)
  finally have "card ?S \<le> length (concat (th_slots h)) + length (th_slots h)"
    by (simp only: sum_lengths)
  moreover have "card ?T \<le> length (th_tables h)"
    using card_image_le [of "{..<length (th_tables h)}" VTable] by simp
  moreover have "card ?E \<le> length (th_exprs h)"
    using card_image_le [of "{..<length (th_exprs h)}" VExpr] by simp
  moreover have "card (?T \<union> ?E \<union> ?S) \<le> card (?T \<union> ?E) + card ?S" "card (?T \<union> ?E) \<le> card ?T + card ?E"
    by (rule card_Un_le)+
  ultimately show ?thesis unfolding visits_def by linarith
qed

text \<open>
  C20. The scan of a table expression returns, also when pointers and slices in it form a cycle:
  \<open>scanFuel\<close> is always enough.
\<close>

theorem guard_scan_returns: "valueTargetsLedger h (scanFuel h v) v [] \<noteq> None"
proof -
  have "card (visits h) * (2 + heapNesting h) \<le> (length (th_tables h) + length (th_exprs h) +
      length (concat (th_slots h)) + length (th_slots h)) * (2 + heapNesting h)"
    by (intro mult_right_mono card_visits) simp
  then have "nesting v + room h (set []) < scanFuel h v"
    by (simp add: scanFuel_def mult.commute)
  from scan_returns [OF this] show ?thesis by auto
qed

section \<open>What the scanner recognises\<close>

text \<open>
  A table expression as SQL tokens and its text, with a blank after every token: words, quoted
  identifiers, string literals, both kinds of comments, and other characters.
\<close>

datatype sqlToken =
    SWord string | SQuoted char string | SLiteral string | SComment string | SLine string | SMark char

definition escapeQuoted :: "char \<Rightarrow> string \<Rightarrow> string" where
  "escapeQuoted q s = concat (map (\<lambda>c. if c = q then [c, c] else [c]) s)"

definition escapeLiteral :: "string \<Rightarrow> string" where
  "escapeLiteral s =
     concat (map (\<lambda>c. if c = CHR 0x27 \<or> c = CHR 0x5C then [CHR 0x5C, c] else [c]) s)"

primrec tokenText :: "sqlToken \<Rightarrow> string" where
  "tokenText (SWord w) = w"
| "tokenText (SQuoted q s) = q # escapeQuoted (closingOf q) s @ [closingOf q]"
| "tokenText (SLiteral s) = CHR 0x27 # escapeLiteral s @ [CHR 0x27]"
| "tokenText (SComment s) = ''/*'' @ s @ ''*/''"
| "tokenText (SLine s) = ''--'' @ s @ [newline]"
| "tokenText (SMark c) = [c]"

primrec tokenOk :: "sqlToken \<Rightarrow> bool" where
  "tokenOk (SWord w) = (w \<noteq> [] \<and> list_all isBalanceLedgerSQLIdentifierByte w)"
| "tokenOk (SQuoted q s) = (openingQuote q \<and> s \<noteq> [])"
| "tokenOk (SLiteral s) = True"
| "tokenOk (SComment s) = (afterComment s = None)"
| "tokenOk (SLine s) = (newline \<notin> set s)"
| "tokenOk (SMark c) = (\<not> isBalanceLedgerSQLIdentifierByte c \<and> \<not> openingQuote c \<and> \<not> blankByte c \<and>
     c \<noteq> CHR 0x27 \<and> c \<noteq> CHR ''#'')"

primrec tokenNamesLedger :: "sqlToken \<Rightarrow> bool" where
  "tokenNamesLedger (SWord w) = isLedgerName w"
| "tokenNamesLedger (SQuoted q s) = isLedgerName s"
| "tokenNamesLedger (SLiteral s) = False"
| "tokenNamesLedger (SComment s) = False"
| "tokenNamesLedger (SLine s) = False"
| "tokenNamesLedger (SMark c) = False"

definition render :: "sqlToken list \<Rightarrow> string" where
  "render ts = concat (map (\<lambda>t. tokenText t @ '' '') ts)"

abbreviation targets :: "string \<Rightarrow> bool" where
  "targets \<equiv> balanceLedgerTableExpressionTargetsLedger"

lemmas byte_defs = blankByte_def openingQuote_def closingOf_def newline_def
  isBalanceLedgerSQLIdentifierByte_def Let_def

lemma targets_skip: "targets (skipBalanceLedgerSQLTrivia s) = targets s"
  by (cases "skipBalanceLedgerSQLTrivia s = s")
     (simp_all add: balanceLedgerTableExpressionTargetsLedger.simps [of s])

lemma targets_cong_skip:
  "skipBalanceLedgerSQLTrivia s = skipBalanceLedgerSQLTrivia t \<Longrightarrow> targets s = targets t"
  by (metis targets_skip)

lemma targets_Nil [simp]: "targets [] = False"
  by (simp add: balanceLedgerTableExpressionTargetsLedger.simps)

lemma targets_blank [simp]: "targets (CHR '' '' # s) = targets s"
  by (rule targets_cong_skip) (simp add: skipBalanceLedgerSQLTrivia.simps(2) blankByte_def)

text \<open>At a byte that starts no trivia the scanner reads a literal, an identifier or one byte.\<close>

definition startsTrivia :: "char \<Rightarrow> string \<Rightarrow> bool" where
  "startsTrivia c s \<longleftrightarrow> blankByte c \<or> c = CHR ''#'' \<or> c = CHR ''-'' \<and> s \<noteq> [] \<and> hd s = CHR ''-'' \<or>
     c = CHR ''/'' \<and> s \<noteq> [] \<and> hd s = CHR ''*''"

lemma targets_step:
  assumes "\<not> startsTrivia c s"
  shows "targets (c # s) =
    (if c = CHR 0x27 then targets (skipBalanceLedgerSQLString s)
     else (case parseBalanceLedgerSQLIdentifier (c # s) of
         Some (i, rest) \<Rightarrow> isLedgerName i \<or> targets rest
       | None \<Rightarrow> \<not> openingQuote c \<and> targets s))"
proof -
  have "skipBalanceLedgerSQLTrivia (c # s) = c # s"
    using assms by (auto simp: skipBalanceLedgerSQLTrivia.simps(2) startsTrivia_def)
  then show ?thesis
    by (subst balanceLedgerTableExpressionTargetsLedger.simps) (simp del: not_None_eq)
qed

lemma quotedIdentifier_escape:
  "r \<noteq> [] \<Longrightarrow> hd r \<noteq> q \<Longrightarrow> quotedIdentifier q (escapeQuoted q s @ q # r) = Some (s, r)"
proof (induction s)
  case Nil
  then show ?case by (cases r) (auto simp: escapeQuoted_def)
next
  case (Cons c s)
  obtain d u where "escapeQuoted q s @ q # r = d # u"
    by (cases "escapeQuoted q s @ q # r") auto
  with Cons show ?case by (auto simp: escapeQuoted_def)
qed

lemma skipString_escape:
  "r \<noteq> [] \<Longrightarrow> hd r \<noteq> CHR 0x27 \<Longrightarrow> skipBalanceLedgerSQLString (escapeLiteral s @ CHR 0x27 # r) = r"
proof (induction s)
  case Nil
  then show ?case by (cases r) (auto simp: escapeLiteral_def)
next
  case (Cons c s)
  obtain d u where "escapeLiteral s @ CHR 0x27 # r = d # u"
    by (cases "escapeLiteral s @ CHR 0x27 # r") auto
  with Cons show ?case by (auto simp: escapeLiteral_def)
qed

lemma afterComment_append: "afterComment s = None \<Longrightarrow> afterComment (s @ CHR ''*'' # CHR ''/'' # r) = Some r"
  by (induction s rule: afterComment.induct) (auto split: if_splits)

lemma word_span:
  "list_all isBalanceLedgerSQLIdentifierByte w \<Longrightarrow>
   takeWhile isBalanceLedgerSQLIdentifierByte (w @ CHR '' '' # r) = w \<and>
   dropWhile isBalanceLedgerSQLIdentifierByte (w @ CHR '' '' # r) = CHR '' '' # r"
  by (induction w) (auto simp: isBalanceLedgerSQLIdentifierByte_def Let_def)

lemma identifierByte_plain:
  "isBalanceLedgerSQLIdentifierByte c \<Longrightarrow> \<not> startsTrivia c s \<and> c \<noteq> CHR 0x27 \<and> \<not> openingQuote c"
  by (auto simp: startsTrivia_def byte_defs)

lemma targets_token:
  assumes "tokenOk t"
  shows "targets (tokenText t @ CHR '' '' # r) = (tokenNamesLedger t \<or> targets r)"
proof (cases t)
  case (SWord w)
  with assms obtain c u where w: "w = c # u" "isBalanceLedgerSQLIdentifierByte c"
    "list_all isBalanceLedgerSQLIdentifierByte w" by (cases w) auto
  with identifierByte_plain [OF w(2)] word_span [OF w(3), of r] SWord show ?thesis
    by (simp add: targets_step parseBalanceLedgerSQLIdentifier_def Let_def)
next
  case (SQuoted q s)
  have q: "openingQuote q" "s \<noteq> []" using assms SQuoted by auto
  then have "\<not> startsTrivia q x" "q \<noteq> CHR 0x27" "closingOf q \<noteq> CHR '' ''" for x
    by (auto simp: startsTrivia_def byte_defs)
  with q SQuoted quotedIdentifier_escape [of "CHR '' '' # r" "closingOf q" s] show ?thesis
    by (simp add: targets_step parseBalanceLedgerSQLIdentifier_def)
next
  case (SLiteral s)
  have "\<not> startsTrivia (CHR 0x27) x" for x by (auto simp: startsTrivia_def byte_defs)
  with SLiteral skipString_escape [of "CHR '' '' # r" s] show ?thesis
    by (simp add: targets_step)
next
  case (SComment s)
  with assms have skip: "skipBalanceLedgerSQLTrivia (tokenText t @ CHR '' '' # r) = skipBalanceLedgerSQLTrivia r"
    by (simp add: skipBalanceLedgerSQLTrivia.simps(2) [of "CHR ''/''"]
        skipBalanceLedgerSQLTrivia.simps(2) [of "CHR '' ''"] afterComment_append blankByte_def)
  from targets_cong_skip [OF skip] SComment show ?thesis by simp
next
  case (SLine s)
  have "restOfLine (s @ newline # x) = newline # x" for x
    using assms SLine by (auto simp: dropWhile_append)
  with SLine have skip: "skipBalanceLedgerSQLTrivia (tokenText t @ CHR '' '' # r) = skipBalanceLedgerSQLTrivia r"
    by (simp add: skipBalanceLedgerSQLTrivia.simps(2) blankByte_def newline_def)
  from targets_cong_skip [OF skip] SLine show ?thesis by simp
next
  case (SMark c)
  with assms have "\<not> startsTrivia c (CHR '' '' # r)" "c \<noteq> CHR 0x27" "\<not> openingQuote c"
    "\<not> isBalanceLedgerSQLIdentifierByte c"
    by (auto simp: startsTrivia_def)
  with SMark show ?thesis
    by (simp add: targets_step parseBalanceLedgerSQLIdentifier_def)
qed

text \<open>
  C19. On a table expression made of SQL tokens the scanner is exact: it reports the ledger when
  some word or quoted identifier is its name, in any letter case, and never for the name inside
  a string literal or a comment.
\<close>

theorem guard_finds_ledger:
  assumes "list_all tokenOk ts"
  shows "balanceLedgerTableExpressionTargetsLedger (render ts) = list_ex tokenNamesLedger ts"
  using assms by (induction ts) (auto simp: render_def targets_token)

theorem guard_finds_ledger_witness:
  "balanceLedgerTableExpressionTargetsLedger (render
     [SLiteral ''balance_ledgers'', SComment ''balance_ledgers'', SWord ''public'', SMark CHR ''.'',
      SQuoted CHR 0x22 ''Balance_Ledgers'']) = True"
proof -
  let ?ts = "[SLiteral ''balance_ledgers'', SComment ''balance_ledgers'', SWord ''public'',
      SMark CHR ''.'', SQuoted CHR 0x22 ''Balance_Ledgers'']"
  have "list_all tokenOk ?ts" "list_ex tokenNamesLedger ?ts" by code_simp+
  with guard_finds_ledger [of ?ts] show ?thesis by simp
qed

end
