(* ===== verification/Refund.thy ===== *)
theory Refund
  imports Ledger
begin

text \<open>
  Durable billing refunds, \<open>server/model/billing_refund.go\<close>: the row that hands a refund to
  the background compensator, its processing (credit, then cache synchronisation) and the
  bounded retry bookkeeping. The time of the call is an argument; \<open>redis\<close> is
  \<open>common.RedisEnabled\<close>.
\<close>

abbreviation BillingRefundKindWallet :: string where "BillingRefundKindWallet \<equiv> ''wallet''"
abbreviation BillingRefundKindToken :: string where "BillingRefundKindToken \<equiv> ''token''"
abbreviation BillingRefundStatusPending :: string where "BillingRefundStatusPending \<equiv> ''pending''"
abbreviation BillingRefundStatusApplied :: string where "BillingRefundStatusApplied \<equiv> ''applied''"
abbreviation BillingRefundStatusCompleted :: string where
  "BillingRefundStatusCompleted \<equiv> ''completed''"
abbreviation BillingRefundStatusDeadLetter :: string where
  "BillingRefundStatusDeadLetter \<equiv> ''dead_letter''"
abbreviation BalanceLedgerSourceBillingRefund :: string where
  "BalanceLedgerSourceBillingRefund \<equiv> ''billing_refund''"

definition BillingRefundMaxAttempts :: int where "BillingRefundMaxAttempts = 10"

section \<open>Creating a refund\<close>

definition refundCandidateInvalid :: "BillingRefundPending \<Rightarrow> bool" where
  "refundCandidateInvalid candidate \<longleftrightarrow>
     br_IdempotencyKey candidate = [] \<or> br_RequestID candidate = [] \<or>
     length (br_IdempotencyKey candidate) > BalanceLedgerIdempotencyKeyMaxLength \<or>
     br_UserID candidate \<le> 0 \<or> br_Amount candidate \<le> 0 \<or> br_Amount candidate > MaxInt32 \<or>
     (br_Kind candidate \<noteq> BillingRefundKindWallet \<and> br_Kind candidate \<noteq> BillingRefundKindToken) \<or>
     (br_Kind candidate = BillingRefundKindToken \<and>
        (br_TokenID candidate \<le> 0 \<or> br_TokenKeyHash candidate = []))"

text \<open>INSERT: the unique index on the idempotency key rejects a second row.\<close>

definition createRefund :: "BillingRefundPending \<Rightarrow> (store, BillingRefundPending) act" where
  "createRefund r = transaction (stmt (\<lambda>s.
     if br_IdempotencyKey r \<in> br_IdempotencyKey ` set (refunds s) then Inl ErrDuplicatedKey
     else let r' = r\<lparr>br_ID := freshId br_ID (refunds s)\<rparr>
          in Inr (r', s\<lparr>refunds := refunds s @ [r']\<rparr>)))"

text \<open>GORM's \<open>FirstOrCreate\<close>: look the row up, create it from the attributes when missing.\<close>

definition firstOrCreateRefund :: "BillingRefundPending \<Rightarrow> (store, BillingRefundPending) act" where
  "firstOrCreateRefund candidate =
     bindE (attempt (firstRow refunds (\<lambda>r. br_IdempotencyKey r = br_IdempotencyKey candidate))) (\<lambda>found.
       case found of
         Inr r \<Rightarrow> ret r
       | Inl err \<Rightarrow> if err = ErrRecordNotFound then createRefund candidate else fail err)"

definition EnsureBillingRefundPending ::
  "int \<Rightarrow> BillingRefundPending \<Rightarrow> (store, BillingRefundPending) act" where
  "EnsureBillingRefundPending now candidate0 =
     (let candidate1 = candidate0\<lparr>br_IdempotencyKey := TrimSpace (br_IdempotencyKey candidate0),
                                  br_RequestID := TrimSpace (br_RequestID candidate0)\<rparr> in
      if refundCandidateInvalid candidate1 then fail ErrBillingRefundInvalid
      else let candidate = candidate1\<lparr>br_Status := BillingRefundStatusPending,
                                      br_CreatedAt := now, br_UpdatedAt := now\<rparr> in
      bindE (firstOrCreateRefund candidate) (\<lambda>stored.
        if br_UserID stored \<noteq> br_UserID candidate \<or> br_TokenID stored \<noteq> br_TokenID candidate \<or>
           br_TokenKeyHash stored \<noteq> br_TokenKeyHash candidate \<or>
           br_Amount stored \<noteq> br_Amount candidate \<or>
           br_Kind stored \<noteq> br_Kind candidate \<or> br_RequestID stored \<noteq> br_RequestID candidate
        then fail ErrBillingRefundIdempotencyConflict
        else ret stored))"

section \<open>Processing a refund\<close>

definition updateRefund ::
  "(BillingRefundPending \<Rightarrow> bool) \<Rightarrow> (BillingRefundPending \<Rightarrow> BillingRefundPending) \<Rightarrow> (store, nat) act" where
  "updateRefund P f = updateRows refunds refunds_update P f"

definition updateToken :: "(Token \<Rightarrow> bool) \<Rightarrow> (Token \<Rightarrow> Token) \<Rightarrow> (store, nat) act" where
  "updateToken P f = updateRows tokens tokens_update (\<lambda>k. P k \<and> \<not> t_DeletedAt k) f"

definition applyWalletBillingRefund :: "int \<Rightarrow> BillingRefundPending \<Rightarrow> (store, unit) act" where
  "applyWalletBillingRefund now pending =
     bindE (firstUser (br_UserID pending)) (\<lambda>user.
       let before = u_Quota user in
       case checkedBalanceLedgerSum before (br_Amount pending) of
         Inl err \<Rightarrow> fail err
       | Inr after \<Rightarrow>
           bindE (updateUser (u_Id user) (applyUserUpdates (balanceLedgerUserUpdates user after False))) (\<lambda>_.
           bindE (createLedger
             \<lparr>bl_ID = 0, bl_UserID = u_Id user, bl_OperatorID = 0, bl_Delta = br_Amount pending,
              bl_BalanceBefore = before, bl_BalanceAfter = after,
              bl_Reason = ''Automatic refund for failed relay request'',
              bl_IdempotencyKey = br_IdempotencyKey pending, bl_RequestID = br_RequestID pending,
              bl_SourceType = BalanceLedgerSourceBillingRefund, bl_CreatedAt = now\<rparr>) (\<lambda>_.
           ret ())))"

definition refundToken :: "int \<Rightarrow> int \<Rightarrow> Token \<Rightarrow> Token" where
  "refundToken now amount k =
     k\<lparr>t_RemainQuota := t_RemainQuota k + amount, t_UsedQuota := t_UsedQuota k - amount,
       t_AccessedTime := now\<rparr>"

definition applyTokenBillingRefund :: "int \<Rightarrow> BillingRefundPending \<Rightarrow> (store, unit) act" where
  "applyTokenBillingRefund now pending =
     bindE (updateToken
       (\<lambda>k. t_Id k = br_TokenID pending \<and> t_KeyHash k = br_TokenKeyHash pending \<and>
            t_UsedQuota k \<ge> br_Amount pending)
       (refundToken now (br_Amount pending))) (\<lambda>rows.
     if rows = 0 then fail ErrBillingRefundInvalid else ret ())"

definition syncBillingRefundCache :: "bool \<Rightarrow> BillingRefundPending \<Rightarrow> (store, unit) act" where
  "syncBillingRefundCache redis pending =
     (if \<not> redis then ret ()
      else if br_Kind pending = BillingRefundKindWallet then extern ErrCache
      else if br_Kind pending = BillingRefundKindToken then extern ErrCache
      else ret ())"

text \<open>The bookkeeping of a failed attempt; its own errors are dropped.\<close>

definition recordBillingRefundFailure :: "int \<Rightarrow> int \<Rightarrow> err \<Rightarrow> (store, unit) act" where
  "recordBillingRefundFailure now rid refundErr =
     bindE (attempt (transaction (
       bindE (firstRow refunds (\<lambda>r. br_ID r = rid)) (\<lambda>pending.
         if (br_Status pending \<noteq> BillingRefundStatusPending \<and>
             br_Status pending \<noteq> BillingRefundStatusApplied) \<or>
            br_Attempts pending \<ge> BillingRefundMaxAttempts
         then ret ()
         else let nextAttempts = br_Attempts pending + 1 in
           bindE (updateRefund
             (\<lambda>r. br_ID r = br_ID pending \<and> br_Status r = br_Status pending \<and>
                  br_Attempts r = br_Attempts pending)
             (\<lambda>r. r\<lparr>br_Attempts := nextAttempts, br_LastError := Some refundErr, br_UpdatedAt := now,
                     br_Status := (if nextAttempts \<ge> BillingRefundMaxAttempts
                                   then BillingRefundStatusDeadLetter else br_Status r)\<rparr>)) (\<lambda>rows.
           if rows \<noteq> 1 then fail ErrInvalidTransaction else ret ()))))) (\<lambda>_. ret ())"

text \<open>The \<open>switch pending.Kind\<close> inside the transaction.\<close>

definition applyBillingRefund :: "int \<Rightarrow> BillingRefundPending \<Rightarrow> (store, unit) act" where
  "applyBillingRefund now pending =
     (if br_Kind pending = BillingRefundKindWallet then applyWalletBillingRefund now pending
      else if br_Kind pending = BillingRefundKindToken then applyTokenBillingRefund now pending
      else fail ErrBillingRefundInvalid)"

text \<open>The function literal passed to \<open>DB.Transaction\<close>; the result is the row it read.\<close>

definition processRefundTx :: "int \<Rightarrow> int \<Rightarrow> (store, BillingRefundPending) act" where
  "processRefundTx now rid =
     bindE (firstRow refunds (\<lambda>r. br_ID r = rid)) (\<lambda>pending.
       if br_Status pending = BillingRefundStatusCompleted \<or>
          br_Status pending = BillingRefundStatusApplied then ret pending
       else if br_Status pending = BillingRefundStatusDeadLetter then fail ErrBillingRefundDeadLetter
       else if br_Status pending \<noteq> BillingRefundStatusPending then fail ErrBillingRefundInvalid
       else bindE (applyBillingRefund now pending) (\<lambda>_.
         bindE (updateRefund
           (\<lambda>r. br_ID r = br_ID pending \<and> br_Status r = BillingRefundStatusPending)
           (\<lambda>r. r\<lparr>br_Status := BillingRefundStatusApplied, br_LastError := None, br_UpdatedAt := now\<rparr>)) (\<lambda>_.
         ret pending)))"

text \<open>What follows the transaction: the cache, then the mark of completion.\<close>

definition refundFailed :: "int \<Rightarrow> int \<Rightarrow> err \<Rightarrow> (store, unit) act" where
  "refundFailed now rid err = bindE (recordBillingRefundFailure now rid err) (\<lambda>_. fail err)"

definition completeRefund :: "int \<Rightarrow> int \<Rightarrow> (store, unit) act" where
  "completeRefund now rid =
     bindE (transaction (updateRefund
       (\<lambda>r. br_ID r = rid \<and> br_Status r = BillingRefundStatusApplied)
       (\<lambda>r. r\<lparr>br_Status := BillingRefundStatusCompleted, br_LastError := None,
               br_UpdatedAt := now, br_CompletedAt := Some now\<rparr>))) (\<lambda>_. ret ())"

definition afterRefundTx :: "bool \<Rightarrow> int \<Rightarrow> int \<Rightarrow> BillingRefundPending \<Rightarrow> (store, unit) act" where
  "afterRefundTx redis now rid pending =
     (if br_Status pending = BillingRefundStatusCompleted then ret ()
      else bindE (attempt (syncBillingRefundCache redis pending)) (\<lambda>sync.
        case sync of
          Inl err \<Rightarrow> refundFailed now rid err
        | Inr _ \<Rightarrow> completeRefund now rid))"

definition ProcessBillingRefundPending :: "bool \<Rightarrow> int \<Rightarrow> int \<Rightarrow> (store, unit) act" where
  "ProcessBillingRefundPending redis now rid =
     (if rid \<le> 0 then fail ErrBillingRefundInvalid
      else bindE (attempt (transaction (processRefundTx now rid))) (\<lambda>result.
        case result of
          Inl err \<Rightarrow> if err \<noteq> ErrBillingRefundDeadLetter then refundFailed now rid err else fail err
        | Inr pending \<Rightarrow> afterRefundTx redis now rid pending))"

lemmas process_refund_defs =
  ProcessBillingRefundPending_def afterRefundTx_def refundFailed_def completeRefund_def

text \<open>The compensator's pass over a batch, in order of the ids; the loop counts and goes on.\<close>

primrec processRefunds ::
  "bool \<Rightarrow> int \<Rightarrow> int list \<Rightarrow> int \<times> err option \<Rightarrow> (store, int \<times> err option) act" where
  "processRefunds redis now [] acc = ret acc"
| "processRefunds redis now (rid # ids) acc =
     bindE (attempt (ProcessBillingRefundPending redis now rid)) (\<lambda>r.
       case r of
         Inl err \<Rightarrow> processRefunds redis now ids
                      (fst acc, case snd acc of None \<Rightarrow> Some err | Some e \<Rightarrow> Some e)
       | Inr _ \<Rightarrow> processRefunds redis now ids (fst acc + 1, snd acc))"

definition refundOpen :: "BillingRefundPending \<Rightarrow> bool" where
  "refundOpen r \<longleftrightarrow> br_Status r = BillingRefundStatusPending \<or> br_Status r = BillingRefundStatusApplied"

definition ProcessPendingBillingRefunds ::
  "bool \<Rightarrow> int \<Rightarrow> int \<Rightarrow> (store, int \<times> err option) act" where
  "ProcessPendingBillingRefunds redis now limit0 =
     (let limit = (if limit0 \<le> 0 then 100 else limit0) in
      bindE (query (\<lambda>s. Inr (take (nat limit) (sort_key br_ID (filter refundOpen (refunds s)))))) (\<lambda>pending.
      processRefunds redis now (map br_ID pending) (0, None)))"

definition CountPendingBillingRefunds :: "(store, int) act" where
  "CountPendingBillingRefunds = query (\<lambda>s. Inr (int (countWhere refundOpen (refunds s))))"

definition CountDeadLetterBillingRefunds :: "(store, int) act" where
  "CountDeadLetterBillingRefunds = query (\<lambda>s.
     Inr (int (countWhere (\<lambda>r. br_Status r = BillingRefundStatusDeadLetter) (refunds s))))"

lemma wp_updateRefund [simp]:
  "wp (updateRefund P f) Q s \<longleftrightarrow>
     Q (Inl ErrDriver) s \<and>
     Q (Inr (countWhere P (refunds s))) (s\<lparr>refunds := updateWhere P f (refunds s)\<rparr>)"
  by (simp add: updateRefund_def)

lemma wp_updateToken [simp]:
  "wp (updateToken P f) Q s \<longleftrightarrow>
     Q (Inl ErrDriver) s \<and>
     Q (Inr (countWhere (\<lambda>k. P k \<and> \<not> t_DeletedAt k) (tokens s)))
       (s\<lparr>tokens := updateWhere (\<lambda>k. P k \<and> \<not> t_DeletedAt k) f (tokens s)\<rparr>)"
  by (simp add: updateToken_def)

section \<open>The life of a refund row\<close>

text \<open>The abstract lifecycle: apply, complete, or count a failed attempt, the tenth being the last.\<close>

inductive refund_step :: "BillingRefundPending \<Rightarrow> BillingRefundPending \<Rightarrow> bool" where
  apply_refund: "br_Status r = BillingRefundStatusPending \<Longrightarrow>
    refund_step r (r\<lparr>br_Status := BillingRefundStatusApplied, br_LastError := None, br_UpdatedAt := now\<rparr>)"
| complete_refund: "br_Status r = BillingRefundStatusApplied \<Longrightarrow>
    refund_step r (r\<lparr>br_Status := BillingRefundStatusCompleted, br_LastError := None,
                     br_UpdatedAt := now, br_CompletedAt := Some now\<rparr>)"
| fail_refund: "refundOpen r \<Longrightarrow> br_Attempts r < BillingRefundMaxAttempts \<Longrightarrow>
    refund_step r (r\<lparr>br_Attempts := br_Attempts r + 1, br_LastError := Some refundErr, br_UpdatedAt := now,
                     br_Status := (if br_Attempts r + 1 \<ge> BillingRefundMaxAttempts
                                   then BillingRefundStatusDeadLetter else br_Status r)\<rparr>)"

lemma fail_refund_eq:
  "refundOpen r \<Longrightarrow> br_Attempts r < BillingRefundMaxAttempts \<Longrightarrow> n = br_Attempts r + 1 \<Longrightarrow>
   st = (if n \<ge> BillingRefundMaxAttempts then BillingRefundStatusDeadLetter else br_Status r) \<Longrightarrow>
   refund_step r (r\<lparr>br_Attempts := n, br_LastError := Some refundErr, br_UpdatedAt := now, br_Status := st\<rparr>)"
  using fail_refund by simp

inductive_cases refund_stepE [elim]: "refund_step r r'"

abbreviation refund_steps :: "BillingRefundPending \<Rightarrow> BillingRefundPending \<Rightarrow> bool" where
  "refund_steps \<equiv> refund_step\<^sup>*\<^sup>*"

lemma refund_step_request:
  "refund_step r r' \<Longrightarrow>
     br_ID r' = br_ID r \<and> br_UserID r' = br_UserID r \<and> br_TokenID r' = br_TokenID r \<and>
     br_TokenKeyHash r' = br_TokenKeyHash r \<and> br_Amount r' = br_Amount r \<and> br_Kind r' = br_Kind r \<and>
     br_IdempotencyKey r' = br_IdempotencyKey r \<and> br_RequestID r' = br_RequestID r \<and>
     (br_Status r' = BillingRefundStatusPending \<longrightarrow> br_Status r = BillingRefundStatusPending)"
  by (auto simp: refundOpen_def split: if_splits)

lemma refund_steps_request:
  "refund_steps r r' \<Longrightarrow>
     br_ID r' = br_ID r \<and> br_UserID r' = br_UserID r \<and> br_TokenID r' = br_TokenID r \<and>
     br_TokenKeyHash r' = br_TokenKeyHash r \<and> br_Amount r' = br_Amount r \<and> br_Kind r' = br_Kind r \<and>
     br_IdempotencyKey r' = br_IdempotencyKey r \<and> br_RequestID r' = br_RequestID r \<and>
     (br_Status r' = BillingRefundStatusPending \<longrightarrow> br_Status r = BillingRefundStatusPending)"
  by (induction rule: rtranclp_induct) (auto dest!: refund_step_request)

text \<open>Changes of the bookkeeping only: no balance moves, and every row moves along its life.\<close>

definition bookkept :: "store \<Rightarrow> store \<Rightarrow> bool" where
  "bookkept s t \<longleftrightarrow>
     users t = users s \<and> tokens t = tokens s \<and> ledgers t = ledgers s \<and>
     list_all2 refund_steps (refunds s) (refunds t)"

lemma bookkept_refl [simp]: "bookkept s s"
  by (simp add: bookkept_def list_all2_refl)

lemma bookkept_trans: "bookkept s t \<Longrightarrow> bookkept t u \<Longrightarrow> bookkept s u"
  unfolding bookkept_def
  by (auto elim!: list_all2_trans [rotated 1, of _ _ _ refund_steps] dest: rtranclp_trans)

lemma wp_recordBillingRefundFailure:
  "wp (recordBillingRefundFailure now rid err) (\<lambda>_ t. bookkept s t) s"
  unfolding recordBillingRefundFailure_def
  by (auto intro!: wp_intro list_all2_updateWhere r_into_rtranclp fail_refund_eq
      simp: bookkept_def list_all2_refl refundOpen_def Let_def split: sum.splits)

lemma wp_completeRefund:
  "wp (transaction (updateRefund
        (\<lambda>r. br_ID r = rid \<and> br_Status r = BillingRefundStatusApplied)
        (\<lambda>r. r\<lparr>br_Status := BillingRefundStatusCompleted, br_LastError := None,
                br_UpdatedAt := now, br_CompletedAt := Some now\<rparr>))) (\<lambda>_ t. bookkept s t) s"
  by (auto intro!: wp_intro list_all2_updateWhere r_into_rtranclp complete_refund
      simp: bookkept_def list_all2_refl)

section \<open>What processing a refund does\<close>

text \<open>One credit of the refund: a ledger entry for a wallet, the quota of the key for a token.\<close>

definition refunded :: "store \<Rightarrow> BillingRefundPending \<Rightarrow> store \<Rightarrow> bool" where
  "refunded s p t \<longleftrightarrow>
     (if br_Kind p = BillingRefundKindWallet then
        tokens t = tokens s \<and>
        (let e = last (ledgers t) in
           posted s e t \<and> bl_UserID e = br_UserID p \<and> bl_Delta e = br_Amount p \<and>
           bl_IdempotencyKey e = br_IdempotencyKey p \<and> bl_RequestID e = br_RequestID p \<and>
           bl_SourceType e = BalanceLedgerSourceBillingRefund)
      else
        br_Kind p = BillingRefundKindToken \<and> users t = users s \<and> ledgers t = ledgers s \<and>
        (let sel = (\<lambda>k. (t_Id k = br_TokenID p \<and> t_KeyHash k = br_TokenKeyHash p \<and>
                        t_UsedQuota k \<ge> br_Amount p) \<and> \<not> t_DeletedAt k) in
           (\<exists>k \<in> set (tokens s). sel k) \<and>
           (\<exists>now. tokens t = updateWhere sel (refundToken now (br_Amount p)) (tokens s))))"

lemma refunded_cong:
  assumes "users s' = users s" "tokens s' = tokens s" "ledgers s' = ledgers s"
    "users t' = users t" "tokens t' = tokens t" "ledgers t' = ledgers t" "refund_steps p p'"
  shows "refunded s' p' t' = refunded s p t"
  using assms(1-6) refund_steps_request [OF assms(7)]
  by (simp add: refunded_def posted_def)

lemma wp_applyWalletBillingRefund:
  assumes "br_Kind p = BillingRefundKindWallet"
  shows "wp (applyWalletBillingRefund now p)
    (\<lambda>r t. r = Inr () \<longrightarrow> refunded s p t \<and> refunds t = refunds s) s"
  unfolding applyWalletBillingRefund_def
  by (auto intro!: wp_intro posted_update simp: assms refunded_def Let_def dest!: checkedSum_Inr_sum
      split: sum.splits)

lemma wp_applyTokenBillingRefund:
  assumes "br_Kind p = BillingRefundKindToken"
  shows "wp (applyTokenBillingRefund now p)
    (\<lambda>r t. r = Inr () \<longrightarrow> refunded s p t \<and> refunds t = refunds s) s"
  unfolding applyTokenBillingRefund_def
  by (auto intro!: wp_intro exI [of _ now] simp: assms refunded_def Let_def)

text \<open>The transaction: either nothing, or the credit together with the change of status.\<close>

definition credited :: "int \<Rightarrow> store \<Rightarrow> BillingRefundPending \<Rightarrow> store \<Rightarrow> bool" where
  "credited rid s p t \<longleftrightarrow>
     findRow (\<lambda>r. br_ID r = rid) (refunds s) = Some p \<and> br_Status p = BillingRefundStatusPending \<and>
     refunded s p t \<and>
     list_all2 refund_steps (refunds s) (refunds t) \<and>
     (\<forall>r \<in> set (refunds t). br_ID r = rid \<longrightarrow> br_Status r \<noteq> BillingRefundStatusPending)"

lemma refunded_refunds [simp]: "refunded s p (u\<lparr>refunds := rs\<rparr>) = refunded s p u"
  by (simp add: refunded_def posted_def)

lemma credited_update:
  assumes "findRow (\<lambda>r. br_ID r = rid) (refunds s) = Some p" "br_Status p = BillingRefundStatusPending"
    "refunded s p u" "refunds u = refunds s"
  shows "credited rid s p (u\<lparr>refunds := updateWhere
      (\<lambda>r. br_ID r = rid \<and> br_Status r = BillingRefundStatusPending)
      (\<lambda>r. r\<lparr>br_Status := BillingRefundStatusApplied, br_LastError := None, br_UpdatedAt := now\<rparr>)
      (refunds s)\<rparr>)"
proof -
  have "list_all2 refund_steps (refunds s) (updateWhere
      (\<lambda>r. br_ID r = rid \<and> br_Status r = BillingRefundStatusPending)
      (\<lambda>r. r\<lparr>br_Status := BillingRefundStatusApplied, br_LastError := None, br_UpdatedAt := now\<rparr>)
      (refunds s))"
    by (auto intro!: list_all2_updateWhere r_into_rtranclp apply_refund)
  then show ?thesis
    unfolding credited_def by (intro conjI) (simp_all add: assms ball_updateWhere)
qed

lemma wp_applyBillingRefund:
  "wp (applyBillingRefund now p) (\<lambda>r t. r = Inr () \<longrightarrow> refunded s p t \<and> refunds t = refunds s) s"
  by (simp add: applyBillingRefund_def wp_applyWalletBillingRefund wp_applyTokenBillingRefund)

definition refundTx_post :: "int \<Rightarrow> store \<Rightarrow> err + BillingRefundPending \<Rightarrow> store \<Rightarrow> bool" where
  "refundTx_post rid s r t \<longleftrightarrow>
     (case r of
        Inl err \<Rightarrow> True
      | Inr p \<Rightarrow> findRow (\<lambda>r. br_ID r = rid) (refunds s) = Some p \<and>
                 (if br_Status p = BillingRefundStatusPending then credited rid s p t else t = s))"

lemma wp_processRefundTx: "wp (processRefundTx now rid) (refundTx_post rid s) s"
proof -
  have body: "wp (bindE (applyBillingRefund now p) (\<lambda>_.
       bindE (updateRefund (\<lambda>r. br_ID r = br_ID p \<and> br_Status r = BillingRefundStatusPending)
         (\<lambda>r. r\<lparr>br_Status := BillingRefundStatusApplied, br_LastError := None, br_UpdatedAt := now\<rparr>)) (\<lambda>_.
       ret p))) (refundTx_post rid s) s"
    if "findRow (\<lambda>r. br_ID r = rid) (refunds s) = Some p" "br_Status p = BillingRefundStatusPending"
      "br_ID p = rid" for p
    by (rule wp_bindI [OF wp_applyBillingRefund])
       (auto intro!: wp_intro simp: that credited_update refundTx_post_def)
  show ?thesis
    unfolding processRefundTx_def
  proof (rule wp_bindI [where P = "\<lambda>r t. case r of Inl _ \<Rightarrow> True
      | Inr p \<Rightarrow> t = s \<and> findRow (\<lambda>r. br_ID r = rid) (refunds s) = Some p \<and> br_ID p = rid"], goal_cases)
    case (3 p t)
    then have p: "findRow (\<lambda>r. br_ID r = rid) (refunds s) = Some p" "br_ID p = rid" "t = s" by simp_all
    show ?case
      unfolding p(3) by (intro wp_if body p) (auto simp: refundTx_post_def p(1))
  qed (simp_all add: refundTx_post_def)
qed

definition refund_post :: "int \<Rightarrow> store \<Rightarrow> store \<Rightarrow> bool" where
  "refund_post rid s t \<longleftrightarrow> bookkept s t \<or> (\<exists>p. credited rid s p t)"

lemma credited_bookkept:
  assumes c: "credited rid s p t" and b: "bookkept t u"
  shows "credited rid s p u"
proof -
  have p: "list_all2 refund_steps (refunds s) (refunds t)" "list_all2 refund_steps (refunds t) (refunds u)"
    using c b by (simp_all add: credited_def bookkept_def)
  then have "list_all2 refund_steps (refunds s) (refunds u)"
    by (rule list_all2_trans [rotated]) (rule rtranclp_trans)
  moreover have "refunded s p u"
    using c b refunded_cong [of s s u t p p] by (simp add: credited_def bookkept_def)
  moreover have "br_Status r \<noteq> BillingRefundStatusPending" if r: "r \<in> set (refunds u)" "br_ID r = rid" for r
  proof -
    obtain q where q: "q \<in> set (refunds t)" "refund_steps q r"
      using list_all2_in [OF p(2) r(1)] by blast
    with c r(2) refund_steps_request [OF q(2)] show ?thesis by (auto simp: credited_def)
  qed
  ultimately show ?thesis
    using c by (auto simp: credited_def)
qed

lemma refund_post_bookkept: "refund_post rid s t \<Longrightarrow> bookkept t u \<Longrightarrow> refund_post rid s u"
  unfolding refund_post_def using bookkept_trans credited_bookkept by blast

lemma wp_refundTransaction:
  "wp (transaction (processRefundTx now rid)) (\<lambda>_ t. refund_post rid s t) s"
  by (rule wp_transactionI [OF wp_processRefundTx])
     (auto simp: refundTx_post_def refund_post_def split: if_splits)

lemma keeps_refund_post:
  assumes m: "\<And>t. wp m (\<lambda>_ u. bookkept t u) t"
  shows "keeps (refund_post rid s) m"
proof (rule keepsI)
  fix t assume t: "refund_post rid s t"
  show "wp m (\<lambda>_. refund_post rid s) t"
    by (rule wp_mono [OF m]) (rule refund_post_bookkept [OF t])
qed

lemma keeps_syncBillingRefundCache [keeps_intro]: "keeps I (syncBillingRefundCache redis p)"
  unfolding syncBillingRefundCache_def by (intro keeps_intro)

lemma wp_ProcessBillingRefundPending:
  "wp (ProcessBillingRefundPending redis now rid) (\<lambda>_. refund_post rid s) s"
proof -
  have run: "wp (bindE (attempt (transaction (processRefundTx now rid))) k) (\<lambda>_. refund_post rid s) s"
    if "\<And>r. keeps (refund_post rid s) (k r)" for k :: "_ \<Rightarrow> (store, unit) act"
    by (rule wp_bind_attemptI [OF wp_refundTransaction]) (rule keeps_wp [OF that])
  show ?thesis
    unfolding process_refund_defs
    by (rule wp_if)
       (simp add: refund_post_def, intro run keeps_intro keeps_refund_post
         wp_recordBillingRefundFailure wp_completeRefund)
qed

section \<open>Exactly-once credit\<close>

lemma refund_post_twice:
  assumes "refund_post rid s t" "refund_post rid t u"
  shows "refund_post rid s u"
proof -
  consider "bookkept t u" | p where "credited rid t p u" using assms(2) by (auto simp: refund_post_def)
  then show ?thesis
  proof cases
    case 1
    with assms(1) show ?thesis by (rule refund_post_bookkept)
  next
    case 2
    then have p: "p \<in> set (refunds t)" "br_ID p = rid" "br_Status p = BillingRefundStatusPending"
      by (auto simp: credited_def dest: findRow_Some)
    with assms(1) have b: "bookkept s t" by (auto simp: refund_post_def credited_def)
    then have l: "list_all2 refund_steps (refunds s) (refunds t)" by (simp add: bookkept_def)
    have "rel_option refund_steps (findRow (\<lambda>r. br_ID r = rid) (refunds s))
        (findRow (\<lambda>r. br_ID r = rid) (refunds t))"
      by (rule list_all2_findRow [OF l]) (auto dest: refund_steps_request)
    with 2 obtain q where q: "findRow (\<lambda>r. br_ID r = rid) (refunds s) = Some q" "refund_steps q p"
      by (auto simp: credited_def option_rel_Some2)
    then have "br_Status q = BillingRefundStatusPending"
      using p refund_steps_request by blast
    moreover have "refunded s q u"
      using 2 b refunded_cong [of t s u u q p] q(2) by (simp add: credited_def bookkept_def)
    moreover have "list_all2 refund_steps (refunds s) (refunds u)"
      using l 2 by (auto simp: credited_def intro: list_all2_trans [rotated] rtranclp_trans)
    ultimately have "credited rid s q u"
      using q(1) 2 by (simp add: credited_def)
    then show ?thesis by (auto simp: refund_post_def)
  qed
qed

lemma keeps_ProcessBillingRefundPending:
  "keeps (refund_post rid s) (ProcessBillingRefundPending redis now rid)"
proof (rule keepsI)
  fix t assume t: "refund_post rid s t"
  show "wp (ProcessBillingRefundPending redis now rid) (\<lambda>_. refund_post rid s) t"
    by (rule wp_mono [OF wp_ProcessBillingRefundPending]) (rule refund_post_twice [OF t])
qed

text \<open>
  C2. A refund is credited at most once: however often the compensator processes it, and
  whichever statements, commits and cache calls fail or lose their acknowledgement, the
  balances afterwards are the old ones or those after exactly one credit of a refund that was
  still pending.
\<close>

theorem refund_credited_at_most_once:
  "let s = db c; t = db (snd (runAll (map (\<lambda>now. ProcessBillingRefundPending redis now rid) nows) c)) in
   (users t = users s \<and> tokens t = tokens s \<and> ledgers t = ledgers s) \<or>
   (\<exists>p. findRow (\<lambda>r. br_ID r = rid) (refunds s) = Some p \<and>
        br_Status p = BillingRefundStatusPending \<and> refunded s p t)"
proof -
  have "refund_post rid (db c)
      (db (snd (runAll (map (\<lambda>now. ProcessBillingRefundPending redis now rid) nows) c)))"
    by (rule runAll_map_keeps [where I = "refund_post rid (db c)"])
       (rule keeps_ProcessBillingRefundPending, simp add: refund_post_def)
  then show ?thesis by (auto simp: refund_post_def bookkept_def credited_def Let_def)
qed

definition refund_lives :: "store \<Rightarrow> store \<Rightarrow> bool" where
  "refund_lives s t \<longleftrightarrow> list_all2 refund_steps (refunds s) (refunds t)"

lemma refund_steps_attempts:
  "refund_steps r r' \<Longrightarrow> br_Attempts r \<le> br_Attempts r' \<and>
     (br_Attempts r \<le> BillingRefundMaxAttempts \<longrightarrow> br_Attempts r' \<le> BillingRefundMaxAttempts)"
  by (induction rule: rtranclp_induct) (auto split: if_splits)

lemma refund_steps_terminal:
  "refund_steps r r' \<Longrightarrow> \<not> refundOpen r \<Longrightarrow> r' = r"
  by (induction rule: rtranclp_induct) (auto simp: refundOpen_def)

lemma refund_post_lives: "refund_post rid s t \<Longrightarrow> refund_lives s t"
  by (auto simp: refund_post_def refund_lives_def bookkept_def credited_def)

text \<open>
  C8. Refund rows only move along their lifecycle: through any sequence of processing calls
  under any failures no row is added or removed, every row makes only the steps of
  \<open>refund_step\<close>, its attempts never pass the bound of ten, and a completed or dead-lettered
  row never changes again.
\<close>

theorem refund_lifecycle:
  "list_all2 (\<lambda>r r'. refund_steps r r' \<and>
        (br_Attempts r' \<le> BillingRefundMaxAttempts \<or> br_Attempts r > BillingRefundMaxAttempts) \<and>
        (refundOpen r \<or> r' = r))
     (refunds (db c))
     (refunds (db (snd (runAll (map (\<lambda>(now, rid). ProcessBillingRefundPending redis now rid) calls) c))))"
proof -
  have step: "keeps (refund_lives (db c)) (ProcessBillingRefundPending redis now rid)" for now rid
  proof (rule keepsI)
    fix t assume t: "refund_lives (db c) t"
    have "refund_lives (db c) u" if "refund_post rid t u" for u
      using t refund_post_lives [OF that]
      by (auto simp: refund_lives_def intro: list_all2_trans [rotated] rtranclp_trans)
    then show "wp (ProcessBillingRefundPending redis now rid) (\<lambda>_. refund_lives (db c)) t"
      by (rule wp_mono [OF wp_ProcessBillingRefundPending])
  qed
  have "refund_lives (db c)
      (db (snd (runAll (map (\<lambda>(now, rid). ProcessBillingRefundPending redis now rid) calls) c)))"
    by (rule runAll_map_keeps [where I = "refund_lives (db c)"])
       (intro keeps_case_prod step, simp add: refund_lives_def list_all2_refl)
  then show ?thesis
    unfolding refund_lives_def
  proof (rule list_all2_mono)
    fix r r' assume r: "refund_steps r r'"
    show "refund_steps r r' \<and>
        (br_Attempts r' \<le> BillingRefundMaxAttempts \<or> br_Attempts r > BillingRefundMaxAttempts) \<and>
        (refundOpen r \<or> r' = r)"
      using r refund_steps_attempts [OF r] refund_steps_terminal [OF r] by linarith
  qed
qed

text \<open>
  C9. On a working database a pending wallet refund is paid in one call: the live user gets
  exactly the amount, the ledger one entry with the refund's key, and the row is completed.
\<close>

theorem wallet_refund_completes:
  assumes "0 < rid" "findRow (\<lambda>r. br_ID r = rid) (refunds s) = Some p"
    "br_Status p = BillingRefundStatusPending" "br_Kind p = BillingRefundKindWallet"
    "findRow (\<lambda>u. u_Id u = br_UserID p \<and> \<not> u_DeletedAt u) (users s) = Some u"
    "0 < br_Amount p" "\<bar>u_Quota u\<bar> \<le> MaxInt32" "u_Quota u + br_Amount p \<le> MaxInt32"
    "findRow (\<lambda>e. bl_IdempotencyKey e = br_IdempotencyKey p) (ledgers s) = None"
  shows "case ProcessBillingRefundPending redis now rid \<lparr>db = s, faults = []\<rparr> of (r, c) \<Rightarrow>
     r = Inr () \<and>
     map_option u_Quota (findRow (\<lambda>v. u_Id v = br_UserID p \<and> \<not> u_DeletedAt v) (users (db c)))
       = Some (u_Quota u + br_Amount p) \<and>
     map bl_IdempotencyKey (ledgers (db c)) = map bl_IdempotencyKey (ledgers s) @ [br_IdempotencyKey p] \<and>
     map_option br_Status (findRow (\<lambda>r. br_ID r = rid) (refunds (db c))) = Some BillingRefundStatusCompleted"
proof -
  have ids: "br_ID p = rid" "u_Id u = br_UserID p" "\<not> u_DeletedAt u"
    using assms(2,5) by (auto dest: findRow_Some)
  have fresh: "br_IdempotencyKey p \<notin> bl_IdempotencyKey ` set (ledgers s)"
    using assms(9) by (auto simp: findRow_None)
  have sum: "checkedBalanceLedgerSum (u_Quota u) (br_Amount p) = Inr (u_Quota u + br_Amount p)"
    using assms(6-8) by (auto simp: checkedBalanceLedgerSum_def maxBalanceLedgerQuota_def)
  show ?thesis
    using assms(1-5) ids fresh sum
    by (simp add: process_refund_defs processRefundTx_def applyBillingRefund_def
        applyWalletBillingRefund_def updateRefund_def syncBillingRefundCache_def store_ops Let_def
        findRow_updateWhere applyUserUpdates_def)
qed

definition demoRefund :: BillingRefundPending where
  "demoRefund =
     \<lparr>br_ID = 1, br_UserID = 7, br_TokenID = 0, br_TokenKeyHash = [], br_Amount = 40,
      br_Kind = ''wallet'', br_Status = ''pending'', br_IdempotencyKey = ''rk'', br_RequestID = ''r1'',
      br_Attempts = 0, br_LastError = None, br_CreatedAt = 0, br_UpdatedAt = 0, br_CompletedAt = None\<rparr>"

theorem wallet_refund_completes_witness:
  "case ProcessBillingRefundPending True 5 1 \<lparr>db = demoStore\<lparr>refunds := [demoRefund]\<rparr>, faults = []\<rparr> of (r, c) \<Rightarrow>
     r = Inr () \<and>
     map_option u_Quota (findRow (\<lambda>v. u_Id v = br_UserID demoRefund \<and> \<not> u_DeletedAt v) (users (db c)))
       = Some (u_Quota demoUser + br_Amount demoRefund) \<and>
     map bl_IdempotencyKey (ledgers (db c)) =
       map bl_IdempotencyKey (ledgers (demoStore\<lparr>refunds := [demoRefund]\<rparr>)) @ [br_IdempotencyKey demoRefund] \<and>
     map_option br_Status (findRow (\<lambda>r. br_ID r = 1) (refunds (db c))) = Some BillingRefundStatusCompleted"
  by (rule wallet_refund_completes)
     (simp_all add: demoStore_def demoUser_def demoRefund_def MaxInt32_def)

end
