(* ===== verification/Quota.thy ===== *)
theory Quota
  imports Refund
begin

text \<open>
  Direct quota changes of users and tokens: the quota functions of \<open>server/model/user.go\<close>
  and \<open>server/model/token.go\<close>, the batch updater of \<open>server/model/utils.go\<close>, token
  validation, and the token's list-valued columns.

  A single statement outside a transaction runs in GORM's own transaction. Cache updates the
  code starts in the background change no table and are left out. \<open>now\<close> is
  \<open>common.GetTimestamp()\<close>, \<open>redis\<close> and \<open>batchEnabled\<close> are the two configuration flags.
\<close>

section \<open>The batch updater's records\<close>

definition BatchUpdateTypeUserQuota :: nat where "BatchUpdateTypeUserQuota = 0"
definition BatchUpdateTypeTokenQuota :: nat where "BatchUpdateTypeTokenQuota = 1"
definition BatchUpdateTypeUsedQuota :: nat where "BatchUpdateTypeUsedQuota = 2"
definition BatchUpdateTypeChannelUsedQuota :: nat where "BatchUpdateTypeChannelUsedQuota = 3"
definition BatchUpdateTypeRequestCount :: nat where "BatchUpdateTypeRequestCount = 4"
definition BatchUpdateTypeCount :: nat where "BatchUpdateTypeCount = 5"

lemmas batch_types =
  BatchUpdateTypeUserQuota_def BatchUpdateTypeTokenQuota_def BatchUpdateTypeUsedQuota_def
  BatchUpdateTypeChannelUsedQuota_def BatchUpdateTypeRequestCount_def BatchUpdateTypeCount_def

fun addRecord :: "int \<Rightarrow> int \<Rightarrow> (int \<times> int) list \<Rightarrow> (int \<times> int) list" where
  "addRecord k v [] = [(k, v)]"
| "addRecord k v ((k', v') # m) = (if k' = k then (k', v' + v) # m else (k', v') # addRecord k v m)"

definition recorded :: "(int \<times> int) list \<Rightarrow> int \<Rightarrow> int" where
  "recorded m k = (case map_of m k of None \<Rightarrow> 0 | Some v \<Rightarrow> v)"

text \<open>A step on the process's own memory: it cannot fail.\<close>

definition memory :: "(store \<Rightarrow> store) \<Rightarrow> (store, unit) act" where
  "memory f c = (Inr (), c\<lparr>db := f (db c)\<rparr>)"

definition addNewRecord :: "nat \<Rightarrow> int \<Rightarrow> int \<Rightarrow> (store, unit) act" where
  "addNewRecord type uid v =
     memory (\<lambda>s. s\<lparr>batch := (batch s)(type := addRecord uid v (batch s type))\<rparr>)"

section \<open>User quota\<close>

definition addUserQuota :: "int \<Rightarrow> User \<Rightarrow> User" where
  "addUserQuota q u = u\<lparr>u_Quota := u_Quota u + q\<rparr>"

definition increaseUserQuota :: "int \<Rightarrow> int \<Rightarrow> (store, unit) act" where
  "increaseUserQuota uid quota =
     bindE (transaction (updateUser uid (addUserQuota quota))) (\<lambda>_. ret ())"

definition IncreaseUserQuota :: "bool \<Rightarrow> int \<Rightarrow> int \<Rightarrow> bool \<Rightarrow> (store, unit) act" where
  "IncreaseUserQuota batchEnabled uid quota direct =
     (if quota < 0 then fail ErrNegativeQuota
      else if \<not> direct \<and> batchEnabled then addNewRecord BatchUpdateTypeUserQuota uid quota
      else increaseUserQuota uid quota)"

definition decreaseUserQuota :: "int \<Rightarrow> int \<Rightarrow> (store, unit) act" where
  "decreaseUserQuota uid quota =
     bindE (transaction (updateRows users users_update
         (\<lambda>u. (u_Id u = uid \<and> u_Quota u \<ge> quota) \<and> \<not> u_DeletedAt u) (addUserQuota (- quota)))) (\<lambda>rows.
       if rows = 0 then fail ErrInsufficientUserQuota else ret ())"

definition DecreaseUserQuota :: "int \<Rightarrow> int \<Rightarrow> (store, unit) act" where
  "DecreaseUserQuota uid quota =
     (if quota < 0 then fail ErrNegativeQuota else decreaseUserQuota uid quota)"

definition DeltaUpdateUserQuota :: "bool \<Rightarrow> int \<Rightarrow> int \<Rightarrow> (store, unit) act" where
  "DeltaUpdateUserQuota batchEnabled uid delta =
     (if delta = 0 then ret ()
      else if delta > 0 then IncreaseUserQuota batchEnabled uid delta False
      else DecreaseUserQuota uid (- delta))"

definition updateUserUsedQuotaAndRequestCount :: "int \<Rightarrow> int \<Rightarrow> int \<Rightarrow> (store, unit) act" where
  "updateUserUsedQuotaAndRequestCount uid quota count =
     bindE (attempt (transaction (updateUser uid
       (\<lambda>u. u\<lparr>u_UsedQuota := u_UsedQuota u + quota, u_RequestCount := u_RequestCount u + count\<rparr>)))) (\<lambda>_. ret ())"

definition UpdateUserUsedQuotaAndRequestCount :: "bool \<Rightarrow> int \<Rightarrow> int \<Rightarrow> (store, unit) act" where
  "UpdateUserUsedQuotaAndRequestCount batchEnabled uid quota =
     (if batchEnabled
      then bindE (addNewRecord BatchUpdateTypeUsedQuota uid quota) (\<lambda>_.
           addNewRecord BatchUpdateTypeRequestCount uid 1)
      else updateUserUsedQuotaAndRequestCount uid quota 1)"

definition addUserCounters :: "int \<Rightarrow> int \<Rightarrow> int \<Rightarrow> User \<Rightarrow> User" where
  "addUserCounters quota usedQuota requestCount u =
     u\<lparr>u_Quota := u_Quota u + quota, u_UsedQuota := u_UsedQuota u + usedQuota,
       u_RequestCount := u_RequestCount u + requestCount\<rparr>"

definition updateUserQuotaUsedQuotaAndRequestCount ::
  "int \<Rightarrow> int \<Rightarrow> int \<Rightarrow> int \<Rightarrow> (store, unit) act" where
  "updateUserQuotaUsedQuotaAndRequestCount uid quota usedQuota requestCount =
     (if quota = 0 \<and> usedQuota = 0 \<and> requestCount = 0 then ret ()
      else bindE (attempt (transaction (updateUser uid
             (addUserCounters quota usedQuota requestCount)))) (\<lambda>_. ret ()))"

text \<open>
  \<open>TransferAffQuotaToQuota\<close>: the float comparison \<open>float64(quota) < QuotaPerUnit\<close> is exact
  for every quota below \<open>2 ^ 53\<close>; \<open>QuotaPerUnit\<close> is the configured rational value.
\<close>

definition TransferAffQuotaToQuota :: "rat \<Rightarrow> int \<Rightarrow> int \<Rightarrow> (store, unit) act" where
  "TransferAffQuotaToQuota QuotaPerUnit uid quota =
     (if rat_of_int quota < QuotaPerUnit then fail ErrAffQuotaBelowMinimum
      else transaction (
        bindE (firstUser uid) (\<lambda>user.
          if u_AffQuota user < quota then fail ErrAffQuotaInsufficient
          else let user' = user\<lparr>u_AffQuota := u_AffQuota user - quota, u_Quota := u_Quota user + quota\<rparr> in
            bindE (updateUser (u_Id user) (\<lambda>_. user')) (\<lambda>_. ret ()))))"

section \<open>Token quota\<close>

definition increaseTokenQuota :: "int \<Rightarrow> int \<Rightarrow> int \<Rightarrow> (store, unit) act" where
  "increaseTokenQuota now tid quota =
     bindE (transaction (updateToken (\<lambda>k. t_Id k = tid) (refundToken now quota))) (\<lambda>_. ret ())"

definition IncreaseTokenQuota :: "int \<Rightarrow> int \<Rightarrow> int \<Rightarrow> (store, unit) act" where
  "IncreaseTokenQuota now tid quota =
     (if quota < 0 then fail ErrNegativeQuota else increaseTokenQuota now tid quota)"

definition chargeToken :: "int \<Rightarrow> int \<Rightarrow> Token \<Rightarrow> Token" where
  "chargeToken now quota k =
     k\<lparr>t_RemainQuota := t_RemainQuota k - quota, t_UsedQuota := t_UsedQuota k + quota,
       t_AccessedTime := now\<rparr>"

definition decreaseTokenQuota :: "int \<Rightarrow> int \<Rightarrow> int \<Rightarrow> (store, unit) act" where
  "decreaseTokenQuota now tid quota =
     bindE (transaction (updateToken (\<lambda>k. t_Id k = tid \<and> t_RemainQuota k \<ge> quota)
       (chargeToken now quota))) (\<lambda>rows.
     if rows = 0 then fail ErrInsufficientTokenQuota else ret ())"

definition DecreaseTokenQuota :: "int \<Rightarrow> int \<Rightarrow> int \<Rightarrow> (store, unit) act" where
  "DecreaseTokenQuota now tid quota =
     (if quota < 0 then fail ErrNegativeQuota else decreaseTokenQuota now tid quota)"

definition ExhaustTokenQuota :: "bool \<Rightarrow> int \<Rightarrow> int \<Rightarrow> string \<Rightarrow> (store, unit) act" where
  "ExhaustTokenQuota redis now tid keyHash =
     bindE (transaction (
       bindE (firstRow tokens (\<lambda>k. (t_KeyHash k = keyHash \<and> t_Id k = tid) \<and> \<not> t_DeletedAt k)) (\<lambda>token.
       bindE (updateToken (\<lambda>k. t_Id k = tid \<and> t_KeyHash k = keyHash)
         (\<lambda>k. k\<lparr>t_RemainQuota := 0, t_UsedQuota := t_UsedQuota k + t_RemainQuota token,
                 t_Status := TokenStatusExhausted, t_AccessedTime := now\<rparr>)) (\<lambda>_. ret ())))) (\<lambda>_.
     if redis then extern ErrCache else ret ())"

definition CountUserTokens :: "int \<Rightarrow> (store, int) act" where
  "CountUserTokens userId = query (\<lambda>s.
     Inr (int (countWhere (\<lambda>k. t_UserId k = userId \<and> \<not> t_DeletedAt k) (tokens s))))"

definition BatchDeleteTokens :: "int list \<Rightarrow> int \<Rightarrow> (store, int) act" where
  "BatchDeleteTokens ids userId =
     (if ids = [] then fail ErrInvalidId
      else let sel = (\<lambda>k. (t_UserId k = userId \<and> t_Id k \<in> set ids) \<and> \<not> t_DeletedAt k) in
      transaction (
        bindE (query (\<lambda>s. Inr (filter sel (tokens s)))) (\<lambda>found.
        bindE (updateRows tokens tokens_update sel (\<lambda>k. k\<lparr>t_DeletedAt := True\<rparr>)) (\<lambda>_.
        ret (int (length found))))))"

section \<open>The batch update\<close>

definition updateChannelUsedQuota :: "int \<Rightarrow> int \<Rightarrow> (store, unit) act" where
  "updateChannelUsedQuota cid quota =
     bindE (attempt (transaction (updateRows channels channels_update (\<lambda>c. ch_Id c = cid)
       (\<lambda>c. c\<lparr>ch_UsedQuota := ch_UsedQuota c + quota\<rparr>)))) (\<lambda>_. ret ())"

text \<open>
  \<open>batchUpdate\<close> takes the recorded increments out of the process's memory and then runs one
  UPDATE per token, channel and user; an UPDATE that fails is logged and skipped. Go's map
  iteration order is the order of the association lists here, and the result is proved not to
  depend on it.
\<close>

definition batchUpdate :: "int \<Rightarrow> (store, unit) act" where
  "batchUpdate now = (\<lambda>c.
     let stores = batch (db c) in
     if \<not> (\<exists>i \<in> set [0..<BatchUpdateTypeCount]. stores i \<noteq> []) then (Inr (), c)
     else bindE (memory (\<lambda>s. s\<lparr>batch := (\<lambda>_. [])\<rparr>)) (\<lambda>_.
       bindE (forEach (stores BatchUpdateTypeTokenQuota) (\<lambda>(key, v).
         bindE (attempt (increaseTokenQuota now key v)) (\<lambda>_. ret ()))) (\<lambda>_.
       bindE (forEach (stores BatchUpdateTypeChannelUsedQuota) (\<lambda>(key, v).
         updateChannelUsedQuota key v)) (\<lambda>_.
       let userIDs = remdups (map fst (stores BatchUpdateTypeUserQuota)
             @ map fst (stores BatchUpdateTypeUsedQuota) @ map fst (stores BatchUpdateTypeRequestCount)) in
       forEach userIDs (\<lambda>key. updateUserQuotaUsedQuotaAndRequestCount key
         (recorded (stores BatchUpdateTypeUserQuota) key)
         (recorded (stores BatchUpdateTypeUsedQuota) key)
         (recorded (stores BatchUpdateTypeRequestCount) key))))) c)"

lemma recorded_addRecord:
  "recorded (addRecord k v m) k' = recorded m k' + (if k' = k then v else 0)"
  by (induction k v m rule: addRecord.induct) (auto simp: recorded_def)

lemma keys_addRecord [simp]: "fst ` set (addRecord k v m) = insert k (fst ` set m)"
  by (induction k v m rule: addRecord.induct) auto

lemma distinct_addRecord: "distinct (map fst m) \<Longrightarrow> distinct (map fst (addRecord k v m))"
proof (induction k v m rule: addRecord.induct)
  case (2 k v k' v' m)
  then show ?case using keys_addRecord [of k v m] by auto
qed simp

text \<open>A row-wise loop over distinct keys updates each row at most once.\<close>

lemma fold_updateWhere_keys:
  assumes "distinct ks" "\<And>k r. key (f k r) = key r" "\<And>k r. live (f k r) = live r"
  shows "fold (\<lambda>k. updateWhere (\<lambda>r. key r = k \<and> live r) (f k)) ks rows
       = map (\<lambda>r. if key r \<in> set ks \<and> live r then f (key r) r else r) rows"
  using assms(1)
proof (induction ks arbitrary: rows)
  case (Cons k ks)
  then show ?case by (auto simp: updateWhere_def assms(2,3))
qed simp

lemma forEach_users_run:
  "forEach ks (\<lambda>key. updateUserQuotaUsedQuotaAndRequestCount key (q key) (w key) (n key)) \<lparr>db = s, faults = []\<rparr>
   = (Inr (), \<lparr>db = s\<lparr>users := fold (\<lambda>k. updateWhere (\<lambda>u. u_Id u = k \<and> \<not> u_DeletedAt u)
        (addUserCounters (q k) (w k) (n k))) ks (users s)\<rparr>, faults = []\<rparr>)"
proof (induction ks arbitrary: s)
  case (Cons k ks)
  have zero: "q k = 0 \<Longrightarrow> w k = 0 \<Longrightarrow> n k = 0 \<Longrightarrow>
      updateWhere P (addUserCounters (q k) (w k) (n k)) us = us" for P us
    by (rule updateWhere_id) (simp add: addUserCounters_def)
  show ?case
    using Cons.IH zero
    by (simp add: updateUserQuotaUsedQuotaAndRequestCount_def store_ops)
qed (simp add: ret_def)

lemma forEach_tokens_run:
  "forEach m (\<lambda>(key, v). bindE (attempt (increaseTokenQuota now key v)) (\<lambda>_. ret ())) \<lparr>db = s, faults = []\<rparr>
   = (Inr (), \<lparr>db = s\<lparr>tokens := fold (\<lambda>(k, v). updateWhere (\<lambda>t. t_Id t = k \<and> \<not> t_DeletedAt t)
        (refundToken now v)) m (tokens s)\<rparr>, faults = []\<rparr>)"
  by (induction m arbitrary: s)
     (auto simp: increaseTokenQuota_def updateToken_def store_ops)

lemma forEach_channels_run:
  "forEach m (\<lambda>(key, v). updateChannelUsedQuota key v) \<lparr>db = s, faults = []\<rparr>
   = (Inr (), \<lparr>db = s\<lparr>channels := fold (\<lambda>(k, v). updateWhere (\<lambda>c. ch_Id c = k)
        (\<lambda>c. c\<lparr>ch_UsedQuota := ch_UsedQuota c + v\<rparr>)) m (channels s)\<rparr>, faults = []\<rparr>)"
  by (induction m arbitrary: s) (auto simp: updateChannelUsedQuota_def store_ops)

lemma fold_updateWhere_assoc:
  assumes "distinct (map fst m)" "\<And>v r. key (f v r) = key r" "\<And>v r. live (f v r) = live r"
  shows "fold (\<lambda>(k, v). updateWhere (\<lambda>r. key r = k \<and> live r) (f v)) m rows
       = map (\<lambda>r. if key r \<in> fst ` set m \<and> live r then f (recorded m (key r)) r else r) rows"
  using assms(1)
proof (induction m arbitrary: rows)
  case (Cons kv m)
  then show ?case
    by (cases kv) (auto simp: updateWhere_def assms(2,3) recorded_def)
qed simp

definition batchedUsers :: "(nat \<Rightarrow> (int \<times> int) list) \<Rightarrow> User list \<Rightarrow> User list" where
  "batchedUsers b us = map (\<lambda>u. if u_DeletedAt u then u else
     addUserCounters (recorded (b BatchUpdateTypeUserQuota) (u_Id u))
       (recorded (b BatchUpdateTypeUsedQuota) (u_Id u))
       (recorded (b BatchUpdateTypeRequestCount) (u_Id u)) u) us"

lemma recorded_absent: "k \<notin> fst ` set m \<Longrightarrow> recorded m k = 0"
  by (simp add: recorded_def map_of_eq_None_iff [symmetric])

lemma addUserCounters_0 [simp]: "addUserCounters 0 0 0 u = u"
  by (simp add: addUserCounters_def)

lemma fold_batched_users:
  "fold (\<lambda>k. updateWhere (\<lambda>u. u_Id u = k \<and> \<not> u_DeletedAt u)
      (addUserCounters (recorded a k) (recorded b k) (recorded d k)))
     (remdups (map fst a @ map fst b @ map fst d)) us
   = map (\<lambda>u. if u_DeletedAt u then u else
       addUserCounters (recorded a (u_Id u)) (recorded b (u_Id u)) (recorded d (u_Id u)) u) us"
  by (subst fold_updateWhere_keys [where live = "\<lambda>u. \<not> u_DeletedAt u" and key = u_Id])
     (auto simp: addUserCounters_def recorded_absent)

text \<open>
  The batch update adds to every live user, token and channel exactly what was recorded for its
  id, whatever the order in which Go iterates over its maps, and empties the records.
\<close>

lemma batchUpdate_run:
  assumes "distinct (map fst (batch s BatchUpdateTypeTokenQuota))"
    "distinct (map fst (batch s BatchUpdateTypeChannelUsedQuota))"
    "\<exists>i < BatchUpdateTypeCount. batch s i \<noteq> []"
  shows "batchUpdate now \<lparr>db = s, faults = []\<rparr> = (Inr (), \<lparr>db = s\<lparr>
     users := batchedUsers (batch s) (users s),
     tokens := map (\<lambda>k. if t_Id k \<in> fst ` set (batch s BatchUpdateTypeTokenQuota) \<and> \<not> t_DeletedAt k
       then refundToken now (recorded (batch s BatchUpdateTypeTokenQuota) (t_Id k)) k else k) (tokens s),
     channels := map (\<lambda>c. if ch_Id c \<in> fst ` set (batch s BatchUpdateTypeChannelUsedQuota)
       then c\<lparr>ch_UsedQuota := ch_UsedQuota c
                + recorded (batch s BatchUpdateTypeChannelUsedQuota) (ch_Id c)\<rparr> else c) (channels s),
     batch := (\<lambda>_. [])\<rparr>, faults = []\<rparr>)"
proof -
  have t: "fold (\<lambda>(k, v). updateWhere (\<lambda>t. t_Id t = k \<and> \<not> t_DeletedAt t) (refundToken now v))
      (batch s BatchUpdateTypeTokenQuota) (tokens s) =
    map (\<lambda>k. if t_Id k \<in> fst ` set (batch s BatchUpdateTypeTokenQuota) \<and> \<not> t_DeletedAt k
       then refundToken now (recorded (batch s BatchUpdateTypeTokenQuota) (t_Id k)) k else k) (tokens s)"
    by (rule fold_updateWhere_assoc [OF assms(1)]) (simp_all add: refundToken_def)
  have c: "fold (\<lambda>(k, v). updateWhere (\<lambda>c. ch_Id c = k) (\<lambda>c. c\<lparr>ch_UsedQuota := ch_UsedQuota c + v\<rparr>))
      (batch s BatchUpdateTypeChannelUsedQuota) (channels s) =
    map (\<lambda>c. if ch_Id c \<in> fst ` set (batch s BatchUpdateTypeChannelUsedQuota)
       then c\<lparr>ch_UsedQuota := ch_UsedQuota c
                + recorded (batch s BatchUpdateTypeChannelUsedQuota) (ch_Id c)\<rparr> else c) (channels s)"
    using fold_updateWhere_assoc [OF assms(2), where key = ch_Id and live = "\<lambda>_. True"
        and f = "\<lambda>v c. c\<lparr>ch_UsedQuota := ch_UsedQuota c + v\<rparr>"] by simp
  have d: "(\<exists>i \<in> set [0..<BatchUpdateTypeCount]. batch s i \<noteq> []) = True"
    using assms(3) by auto
  show ?thesis
    unfolding batchUpdate_def Let_def d memory_def
    by (simp only: conn.simps store.simps d not_True_eq_False if_False bindE_def sum.case prod.case
        forEach_tokens_run forEach_channels_run forEach_users_run t c fold_batched_users batchedUsers_def
        d Let_def simp_thms)
       (simp add: t c)
qed

section \<open>Deferred and immediate increases agree\<close>

definition increments :: "(int \<times> int) list \<Rightarrow> int \<Rightarrow> int" where
  "increments calls uid = (\<Sum>(i, q) \<leftarrow> filter (\<lambda>(i, q). i = uid \<and> 0 \<le> q) calls. q)"

lemma increments_simps [simp]:
  "increments [] = (\<lambda>_. 0)"
  "increments ((i, q) # calls) uid = (if i = uid \<and> 0 \<le> q then q else 0) + increments calls uid"
  by (simp_all add: increments_def fun_eq_iff)

definition addIncrements :: "(int \<Rightarrow> int) \<Rightarrow> User list \<Rightarrow> User list" where
  "addIncrements d = map (\<lambda>u. if u_DeletedAt u then u else addUserQuota (d (u_Id u)) u)"

lemma addIncrements_0 [simp]: "addIncrements (\<lambda>_. 0) us = us"
  by (simp add: addIncrements_def addUserQuota_def map_idI)

text \<open>What the batched calls leave in the records.\<close>

fun deferred :: "(int \<times> int) list \<Rightarrow> (int \<times> int) list \<Rightarrow> (int \<times> int) list" where
  "deferred [] m = m"
| "deferred ((i, q) # calls) m = deferred calls (if 0 \<le> q then addRecord i q m else m)"

lemma direct_increases_run:
  "db (snd (runAll (map (\<lambda>(i, q). IncreaseUserQuota False i q False) calls) \<lparr>db = s, faults = []\<rparr>))
   = s\<lparr>users := addIncrements (increments calls) (users s)\<rparr>"
proof (induction calls arbitrary: s)
  case (Cons call calls)
  obtain i q where call: "call = (i, q)" by fastforce
  have "addIncrements (increments calls)
      (updateWhere (\<lambda>u. u_Id u = i \<and> \<not> u_DeletedAt u) (addUserQuota q) (users s))
    = addIncrements (increments ((i, q) # calls)) (users s)" if "0 \<le> q"
    using that by (auto simp: addIncrements_def updateWhere_def addUserQuota_def)
  moreover have "increments ((i, q) # calls) = increments calls" if "\<not> 0 \<le> q"
    using that by auto
  ultimately show ?case
    using Cons.IH
    by (cases "0 \<le> q")
       (simp_all add: call IncreaseUserQuota_def increaseUserQuota_def store_ops snd_runAll
         del: increments_simps(2) runAll.simps)
qed simp

lemma batched_increases_run:
  "snd (runAll (map (\<lambda>(i, q). IncreaseUserQuota True i q False) calls) \<lparr>db = s, faults = []\<rparr>)
   = \<lparr>db = s\<lparr>batch := (batch s)(BatchUpdateTypeUserQuota :=
       deferred calls (batch s BatchUpdateTypeUserQuota))\<rparr>,
     faults = []\<rparr>"
proof (induction calls arbitrary: s)
  case (Cons call calls)
  obtain i q where call: "call = (i, q)" by fastforce
  show ?case
    using Cons.IH
    by (cases "0 \<le> q")
       (simp_all add: call IncreaseUserQuota_def addNewRecord_def memory_def fail_def snd_runAll
         del: runAll.simps cong: if_cong)
qed simp

lemma recorded_deferred:
  "recorded (deferred calls m) uid = recorded m uid + increments calls uid"
  by (induction calls m rule: deferred.induct) (auto simp: recorded_addRecord)



end
