(* ===== verification/Tokens.thy ===== *)
theory Tokens
  imports Quota
begin

text \<open>
  API tokens, \<open>server/model/token.go\<close>: lookup and validation of a presented key, the
  maintenance of token rows, the list-valued columns, the search pattern and the masked key.
  \<open>cached\<close> is what Redis answers for a key hash (\<open>None\<close> when it reports an error) and
  \<open>hash\<close> the hash of a plaintext key (\<open>common.HashZTAPIKey\<close>, theory \<open>Keys\<close>).
\<close>

section \<open>String functions of the standard library\<close>

text \<open>\<open>strings.ReplaceAll\<close>, \<open>Split\<close> and \<open>Count\<close> with a separator of one byte.\<close>

definition ReplaceAll :: "string \<Rightarrow> char \<Rightarrow> string \<Rightarrow> string" where
  "ReplaceAll s old new = concat (map (\<lambda>c. if c = old then new else [c]) s)"

fun Split :: "string \<Rightarrow> char \<Rightarrow> string list" where
  "Split [] sep = [[]]"
| "Split (c # s) sep =
     (if c = sep then [] # Split s sep
      else case Split s sep of [] \<Rightarrow> [[c]] | w # ws \<Rightarrow> (c # w) # ws)"

definition Count :: "string \<Rightarrow> char \<Rightarrow> nat" where
  "Count s c = length (filter (\<lambda>x. x = c) s)"

fun Contains :: "string \<Rightarrow> string \<Rightarrow> bool" where
  "Contains [] p = (p = [])"
| "Contains (c # s) p = (HasPrefix (c # s) p \<or> Contains s p)"

section \<open>List-valued columns and masking\<close>

definition MaskTokenKey :: "string \<Rightarrow> string" where
  "MaskTokenKey key =
     (if key = [] then []
      else if length key \<le> 4 then replicate (length key) (CHR ''*'')
      else if length key \<le> 8 then take 2 key @ ''****'' @ drop (length key - 2) key
      else take 4 key @ ''**********'' @ drop (length key - 4) key)"

definition GetMaskedKey :: "Token \<Rightarrow> string" where
  "GetMaskedKey token = (if t_KeyPrefix token = [] then [] else t_KeyPrefix token @ ''...'')"

definition GetIpLimits :: "Token \<Rightarrow> string list" where
  "GetIpLimits token =
     (case t_AllowIps token of
        None \<Rightarrow> []
      | Some allowIps \<Rightarrow>
          let cleanIps = ReplaceAll allowIps (CHR '' '') [] in
          if cleanIps = [] then []
          else filter (\<lambda>ip. ip \<noteq> [])
            (map (\<lambda>ip. ReplaceAll (TrimSpace ip) (CHR '','') []) (Split cleanIps (CHR 0x0A))))"

definition GetModelLimits :: "Token \<Rightarrow> string list" where
  "GetModelLimits token =
     (if t_ModelLimits token = [] then [] else Split (t_ModelLimits token) (CHR '',''))"

definition GetModelLimitsMap :: "Token \<Rightarrow> string \<Rightarrow> bool option" where
  "GetModelLimitsMap token = foldl (\<lambda>m limit. m(limit \<mapsto> True)) Map.empty (GetModelLimits token)"

section \<open>The search pattern\<close>

definition sanitizeLikePattern :: "string \<Rightarrow> err + string" where
  "sanitizeLikePattern input0 =
     (let input1 = ReplaceAll input0 (CHR ''!'') ''!!'';
          input = ReplaceAll input1 (CHR ''_'') ''!_'' in
      if Contains input ''%%'' then Inl ErrLikeConsecutivePercent
      else let count = Count input (CHR ''%'') in
      if count > 2 then Inl ErrLikeTooManyPercent
      else if count > 0 then
        (let stripped = ReplaceAll input (CHR ''%'') [] in
         if length stripped < 2 then Inl ErrLikeKeywordTooShort else Inr input)
      else Inr input)"

text \<open>
  What the database does with the pattern, \<open>LIKE p ESCAPE '!'\<close>: \<open>!\<close> makes the next byte
  literal, \<open>_\<close> stands for one byte and \<open>%\<close> for any string. \<open>glob\<close> is the matching the
  search promises: \<open>%\<close> is the only wildcard.
\<close>

fun like :: "string \<Rightarrow> string \<Rightarrow> bool" where
  "like [] s = (s = [])"
| "like (p # ps) s =
     (if p = CHR ''!'' then
        (case ps of [] \<Rightarrow> False | q # qs \<Rightarrow> (case s of [] \<Rightarrow> False | c # cs \<Rightarrow> c = q \<and> like qs cs))
      else if p = CHR ''%'' then
        (like ps s \<or> (case s of [] \<Rightarrow> False | c # cs \<Rightarrow> like (p # ps) cs))
      else (case s of [] \<Rightarrow> False | c # cs \<Rightarrow> (p = CHR ''_'' \<or> p = c) \<and> like ps cs))"

fun glob :: "string \<Rightarrow> string \<Rightarrow> bool" where
  "glob [] s = (s = [])"
| "glob (p # ps) s =
     (if p = CHR ''%'' then
        (glob ps s \<or> (case s of [] \<Rightarrow> False | c # cs \<Rightarrow> glob (p # ps) cs))
      else (case s of [] \<Rightarrow> False | c # cs \<Rightarrow> p = c \<and> glob ps cs))"

definition escapeLike :: "string \<Rightarrow> string" where
  "escapeLike input = ReplaceAll (ReplaceAll input (CHR ''!'') ''!!'') (CHR ''_'') ''!_''"

lemma ReplaceAll_Cons [simp]:
  "ReplaceAll [] old new = []"
  "ReplaceAll (c # s) old new = (if c = old then new else [c]) @ ReplaceAll s old new"
  by (simp_all add: ReplaceAll_def)

lemma escapeLike_Cons [simp]:
  "escapeLike [] = []"
  "escapeLike (c # s) =
     (if c = CHR ''!'' then ''!!'' else if c = CHR ''_'' then ''!_'' else [c]) @ escapeLike s"
  by (simp_all add: escapeLike_def)

lemma like_escapeLike: "like (escapeLike p) s = glob p s"
  by (induction p s rule: glob.induct) (auto split: list.splits)

text \<open>
  C15. The search pattern cannot smuggle in wildcards: whatever the user types, an accepted
  pattern matches exactly the strings that match the input with \<open>%\<close> as the only wildcard, every
  other byte (also the escape character and \<open>_\<close>) standing for itself; a refused one names
  why.
\<close>

theorem like_pattern_is_glob:
  "case sanitizeLikePattern input of
     Inr pattern \<Rightarrow> (\<forall>s. like pattern s = glob input s) \<and> Count pattern (CHR ''%'') \<le> 2
   | Inl err \<Rightarrow> err \<in> {ErrLikeConsecutivePercent, ErrLikeTooManyPercent, ErrLikeKeywordTooShort}"
  by (auto simp: sanitizeLikePattern_def Let_def like_escapeLike escapeLike_def [symmetric])

section \<open>Rows\<close>

definition GetTokenByIds :: "int \<Rightarrow> int \<Rightarrow> (store, Token) act" where
  "GetTokenByIds tid userId =
     (if tid = 0 \<or> userId = 0 then fail ErrInvalidId
      else firstRow tokens (\<lambda>k. (t_Id k = tid \<and> t_UserId k = userId) \<and> \<not> t_DeletedAt k))"

definition GetTokenById :: "int \<Rightarrow> (store, Token) act" where
  "GetTokenById tid =
     (if tid = 0 then fail ErrInvalidId
      else firstRow tokens (\<lambda>k. t_Id k = tid \<and> \<not> t_DeletedAt k))"

definition GetTokenByHash ::
  "bool \<Rightarrow> (string \<Rightarrow> Token option) \<Rightarrow> string \<Rightarrow> bool \<Rightarrow> (store, Token) act" where
  "GetTokenByHash redis cached keyHash fromDB =
     (case (if \<not> fromDB \<and> redis then cached keyHash else None) of
        Some token \<Rightarrow> ret (token\<lparr>t_KeyHash := keyHash\<rparr>)
      | None \<Rightarrow> firstRow tokens (\<lambda>k. t_KeyHash k = keyHash \<and> \<not> t_DeletedAt k))"

text \<open>\<open>SelectUpdate\<close> writes two columns, \<open>Update\<close> the editable ones.\<close>

definition SelectUpdate :: "Token \<Rightarrow> (store, unit) act" where
  "SelectUpdate token =
     bindE (transaction (updateToken (\<lambda>k. t_Id k = t_Id token)
       (\<lambda>k. k\<lparr>t_AccessedTime := t_AccessedTime token, t_Status := t_Status token\<rparr>))) (\<lambda>_. ret ())"

definition UpdateToken :: "Token \<Rightarrow> (store, unit) act" where
  "UpdateToken token =
     bindE (transaction (updateToken (\<lambda>k. t_Id k = t_Id token)
       (\<lambda>k. k\<lparr>t_Name := t_Name token, t_Status := t_Status token, t_ExpiredTime := t_ExpiredTime token,
               t_RemainQuota := t_RemainQuota token, t_UnlimitedQuota := t_UnlimitedQuota token,
               t_ModelLimitsEnabled := t_ModelLimitsEnabled token, t_ModelLimits := t_ModelLimits token,
               t_AllowIps := t_AllowIps token, t_Group := t_Group token,
               t_CrossGroupRetry := t_CrossGroupRetry token\<rparr>))) (\<lambda>_. ret ())"

definition DeleteToken :: "Token \<Rightarrow> (store, unit) act" where
  "DeleteToken token =
     bindE (transaction (updateToken (\<lambda>k. t_Id k = t_Id token) (\<lambda>k. k\<lparr>t_DeletedAt := True\<rparr>))) (\<lambda>_. ret ())"

definition DisableModelLimits :: "int \<Rightarrow> (store, unit) act" where
  "DisableModelLimits tokenId =
     bindE (GetTokenById tokenId) (\<lambda>token.
       UpdateToken (token\<lparr>t_ModelLimitsEnabled := False, t_ModelLimits := []\<rparr>))"

definition DeleteTokenById :: "int \<Rightarrow> int \<Rightarrow> (store, unit) act" where
  "DeleteTokenById tid userId =
     (if tid = 0 \<or> userId = 0 then fail ErrInvalidId
      else bindE (firstRow tokens (\<lambda>k. (t_Id k = tid \<and> t_UserId k = userId) \<and> \<not> t_DeletedAt k)) (\<lambda>token.
        DeleteToken token))"

section \<open>Validating a presented key\<close>

text \<open>The token is returned also with an error; the update of its status may fail and is only logged.\<close>

definition ValidateUserToken ::
  "bool \<Rightarrow> (string \<Rightarrow> Token option) \<Rightarrow> (string \<Rightarrow> string) \<Rightarrow> int \<Rightarrow> string \<Rightarrow>
   (store, Token option \<times> err option) act" where
  "ValidateUserToken redis cached hash now key =
     (if key = [] then ret (None, Some ErrTokenNotProvided)
      else bindE (attempt (GetTokenByHash redis cached (hash key) False)) (\<lambda>result.
        case result of
          Inr token \<Rightarrow>
            if t_Status token = TokenStatusExhausted \<or> t_Status token = TokenStatusExpired \<or>
               t_Status token \<noteq> TokenStatusEnabled
            then ret (Some token, Some ErrTokenInvalid)
            else if t_ExpiredTime token \<noteq> - 1 \<and> t_ExpiredTime token < now then
              (if \<not> redis then
                 let token' = token\<lparr>t_Status := TokenStatusExpired\<rparr> in
                 bindE (attempt (SelectUpdate token')) (\<lambda>_. ret (Some token', Some ErrTokenInvalid))
               else ret (Some token, Some ErrTokenInvalid))
            else if \<not> t_UnlimitedQuota token \<and> t_RemainQuota token \<le> 0 then
              (if \<not> redis then
                 let token' = token\<lparr>t_Status := TokenStatusExhausted\<rparr> in
                 bindE (attempt (SelectUpdate token')) (\<lambda>_. ret (Some token', Some ErrTokenInvalid))
               else ret (Some token, Some ErrTokenInvalid))
            else ret (Some token, None)
        | Inl err \<Rightarrow>
            if err = ErrRecordNotFound then ret (None, Some ErrTokenInvalid)
            else ret (None, Some ErrDatabase)))"

definition tokenUsable :: "int \<Rightarrow> Token \<Rightarrow> bool" where
  "tokenUsable now k \<longleftrightarrow>
     t_Status k = TokenStatusEnabled \<and>
     (t_ExpiredTime k = - 1 \<or> now \<le> t_ExpiredTime k) \<and>
     (t_UnlimitedQuota k \<or> 0 < t_RemainQuota k)"

definition staleStatus :: "int \<Rightarrow> Token \<Rightarrow> int" where
  "staleStatus now k =
     (if t_Status k \<noteq> TokenStatusEnabled then t_Status k
      else if t_ExpiredTime k \<noteq> - 1 \<and> t_ExpiredTime k < now then TokenStatusExpired
      else if \<not> t_UnlimitedQuota k \<and> t_RemainQuota k \<le> 0 then TokenStatusExhausted
      else TokenStatusEnabled)"


section \<open>Token quota is conserved\<close>

text \<open>The calls that move quota between a token's two columns.\<close>

datatype tokenCall =
    TIncrease int int
  | TDecrease int int
  | TExhaust int string

fun runTokenCall :: "bool \<Rightarrow> int \<Rightarrow> tokenCall \<Rightarrow> (store, unit) act" where
  "runTokenCall redis now (TIncrease tid quota) = IncreaseTokenQuota now tid quota"
| "runTokenCall redis now (TDecrease tid quota) = DecreaseTokenQuota now tid quota"
| "runTokenCall redis now (TExhaust tid keyHash) = ExhaustTokenQuota redis now tid keyHash"

definition sameTokenTotal :: "Token \<Rightarrow> Token \<Rightarrow> bool" where
  "sameTokenTotal k k' \<longleftrightarrow>
     t_Id k' = t_Id k \<and> t_RemainQuota k' + t_UsedQuota k' = t_RemainQuota k + t_UsedQuota k \<and>
     (t_RemainQuota k \<ge> 0 \<longrightarrow> t_RemainQuota k' \<ge> 0)"

definition tokensConserved :: "Token list \<Rightarrow> store \<Rightarrow> bool" where
  "tokensConserved ks t \<longleftrightarrow>
     distinct (map t_Id (tokens t)) \<and> list_all2 sameTokenTotal ks (tokens t)"

lemma sameTokenTotal_refl [simp]: "sameTokenTotal k k"
  by (simp add: sameTokenTotal_def)

lemma tokensConserved_update:
  assumes "tokensConserved ks s"
    "\<And>k. k \<in> set (tokens s) \<Longrightarrow> P k \<Longrightarrow> sameTokenTotal k (f k)"
  shows "tokensConserved ks (s\<lparr>tokens := updateWhere P f (tokens s)\<rparr>)"
proof -
  have "list_all2 sameTokenTotal (tokens s) (updateWhere P f (tokens s))"
    by (rule list_all2_updateWhere) (simp_all add: assms(2))
  moreover have "map t_Id (updateWhere P f (tokens s)) = map t_Id (tokens s)"
    by (rule map_updateWhere) (use assms(2) in \<open>auto simp: sameTokenTotal_def\<close>)
  ultimately show ?thesis
    using assms(1)
    by (auto simp: tokensConserved_def intro: list_all2_trans [rotated] simp: sameTokenTotal_def)
qed

lemma tokensConserved_db:
  "tokensConserved ks s \<Longrightarrow> k \<in> set (tokens s) \<Longrightarrow> k' \<in> set (tokens s) \<Longrightarrow> t_Id k = t_Id k' \<Longrightarrow> k = k'"
  by (auto simp: tokensConserved_def intro: distinct_key_unique)

lemma exhaust_conserves:
  assumes "tokensConserved ks s" "token \<in> set (tokens s)"
  shows "tokensConserved ks (s\<lparr>tokens := updateWhere
      (\<lambda>k. t_Id k = t_Id token \<and> t_KeyHash k = t_KeyHash token \<and> \<not> t_DeletedAt k)
      (\<lambda>k. k\<lparr>t_RemainQuota := 0, t_UsedQuota := t_UsedQuota k + t_RemainQuota token,
              t_Status := TokenStatusExhausted, t_AccessedTime := now\<rparr>) (tokens s)\<rparr>)"
  using assms(1) by (rule tokensConserved_update)
    (use tokensConserved_db [OF assms(1) _ assms(2)] in \<open>auto simp: sameTokenTotal_def\<close>)

lemma keeps_runTokenCall: "keeps (tokensConserved ks) (runTokenCall redis now call)"
proof (cases call)
  case (TIncrease tid quota)
  show ?thesis
    unfolding TIncrease runTokenCall.simps IncreaseTokenQuota_def increaseTokenQuota_def
    by (rule keepsI) (auto intro!: wp_intro tokensConserved_update
        simp: refundToken_def sameTokenTotal_def)
next
  case (TDecrease tid quota)
  show ?thesis
    unfolding TDecrease runTokenCall.simps DecreaseTokenQuota_def decreaseTokenQuota_def
    by (rule keepsI) (auto intro!: wp_intro tokensConserved_update
        simp: chargeToken_def sameTokenTotal_def)
next
  case (TExhaust tid keyHash)
  show ?thesis
    unfolding TExhaust runTokenCall.simps ExhaustTokenQuota_def
    by (rule keepsI) (auto intro!: wp_intro exhaust_conserves)
qed

text \<open>
  C4. Token quota only moves between the two columns: through any sequence of increases,
  decreases and exhaustions, with any failures, every token keeps the sum of its remaining and
  used quota, and a remaining quota that was not negative never becomes so.
\<close>

theorem token_quota_conserved:
  assumes "distinct (map t_Id (tokens (db c)))"
  shows "list_all2 (\<lambda>k k'. t_Id k' = t_Id k \<and>
      t_RemainQuota k' + t_UsedQuota k' = t_RemainQuota k + t_UsedQuota k \<and>
      (t_RemainQuota k < 0 \<or> 0 \<le> t_RemainQuota k'))
    (tokens (db c))
    (tokens (db (snd (runAll (map (\<lambda>(now, call). runTokenCall redis now call) calls) c))))"
proof -
  have "tokensConserved (tokens (db c))
      (db (snd (runAll (map (\<lambda>(now, call). runTokenCall redis now call) calls) c)))"
    by (rule runAll_map_keeps [where I = "tokensConserved (tokens (db c))"])
       (intro keeps_case_prod keeps_runTokenCall, simp add: tokensConserved_def assms list_all2_refl)
  then show ?thesis
    by (auto simp: tokensConserved_def sameTokenTotal_def elim!: list_all2_mono)
qed

definition demoToken :: Token where
  "demoToken =
     \<lparr>t_Id = 3, t_UserId = 7, t_KeyHash = ''h'', t_KeyPrefix = ''sk-zt-abc'', t_KeyCiphertext = [],
      t_Status = 1, t_Name = ''k'', t_CreatedTime = 0, t_AccessedTime = 0, t_ExpiredTime = - 1,
      t_RemainQuota = 300, t_UnlimitedQuota = False, t_ModelLimitsEnabled = False, t_ModelLimits = [],
      t_AllowIps = None, t_UsedQuota = 20, t_Group = [], t_CrossGroupRetry = False, t_DeletedAt = False\<rparr>"

theorem token_quota_conserved_witness:
  "let s = demoStore\<lparr>tokens := [demoToken]\<rparr>;
       s' = db (snd (runAll (map (\<lambda>(now, call). runTokenCall False now call)
              [(1, TDecrease 3 100), (2, TDecrease 3 500), (3, TExhaust 3 ''h'')]) \<lparr>db = s, faults = []\<rparr>)) in
   list_all2 (\<lambda>k k'. t_Id k' = t_Id k \<and>
      t_RemainQuota k' + t_UsedQuota k' = t_RemainQuota k + t_UsedQuota k \<and>
      (t_RemainQuota k < 0 \<or> 0 \<le> t_RemainQuota k')) (tokens s) (tokens s')"
  unfolding Let_def
  using token_quota_conserved [of "\<lparr>db = demoStore\<lparr>tokens := [demoToken]\<rparr>, faults = []\<rparr>" False
      "[(1, TDecrease 3 100), (2, TDecrease 3 500), (3, TExhaust 3 ''h'')]"]
  by simp

end
