(* ===== verification/Calendar.thy ===== *)
theory Calendar
  imports Prelude
begin

text \<open>
  The part of Go's \<open>time\<close> package the subscriptions use: the proleptic Gregorian calendar,
  \<open>time.Date\<close>, \<open>AddDate\<close> (days beyond the end of a month run on into the next), the
  weekday, and durations in wrapping 64-bit nanoseconds. A time is its Unix second; the local
  zone is a fixed offset in seconds east of Greenwich.
\<close>

section \<open>Days and civil dates\<close>

text \<open>
  A year is counted from March, so that the leap day is its last. \<open>yearStart\<close> counts the days
  before a year of the 400-year era, \<open>monthStart\<close> those before a month of the year.
\<close>

definition yearStart :: "int \<Rightarrow> int" where
  "yearStart y = 365 * y + y div 4 - y div 100"

definition monthStart :: "int \<Rightarrow> int" where
  "monthStart m = (153 * m + 2) div 5"

text \<open>The day number (1970-01-01 is 0) of a date; the month may be any integer, the day too.\<close>

definition daysOfDate :: "int \<Rightarrow> int \<Rightarrow> int \<Rightarrow> int" where
  "daysOfDate year month day =
     (let m = month - 3; y = year + m div 12
      in y div 400 * 146097 + yearStart (y mod 400) + monthStart (m mod 12) + (day - 1) - 719468)"

text \<open>The date of a day number: centuries, four-year cycles and years of the era, then the month.\<close>

definition dateOfDays :: "int \<Rightarrow> int \<times> int \<times> int" where
  "dateOfDays n =
     (let z = n + 719468; era = z div 146097; doe = z mod 146097;
          c = min 3 (doe div 36524); r = doe - c * 36524;
          q = r div 1461; s = r mod 1461;
          yy = min 3 (s div 365); doy = s - yy * 365;
          y = era * 400 + c * 100 + q * 4 + yy;
          m = (5 * doy + 2) div 153;
          d = doy - monthStart m + 1
      in if m < 10 then (y, m + 3, d) else (y + 1, m - 9, d))"

lemma div_bounds: "0 < (k :: int) \<Longrightarrow> k * (n div k) \<le> n \<and> n < k * (n div k) + k"
  using mult_div_mod_eq [of k n] pos_mod_sign [of k n] pos_mod_bound [of k n] by linarith

lemma div_unique: "(k :: int) * q \<le> n \<Longrightarrow> n < k * q + k \<Longrightarrow> n div k = q"
  by (rule int_div_pos_eq [of n k q "n - k * q"]) simp_all

lemma yearStart_Suc: "yearStart y + 365 \<le> yearStart (y + 1)"
proof -
  define k where "k = y div 100"
  define r where "r = y mod 100"
  have y: "y = 100 * k + r" "0 \<le> r" "r < 100" by (simp_all add: k_def r_def)
  have "y div 4 = 25 * k + r div 4" "(y + 1) div 4 = 25 * k + (r + 1) div 4"
    using div_bounds [of 4 r] div_bounds [of 4 "r + 1"] unfolding y(1)
    by (intro div_unique; simp)+
  moreover have "y div 100 = k" using y by simp
  moreover have "(y + 1) div 100 = k + (if r = 99 then 1 else 0)"
  proof -
    have "(y + 1) div 100 = (r + 1 + k * 100) div 100" unfolding y(1) by (simp add: algebra_simps)
    also have "\<dots> = k + (r + 1) div 100" by (subst div_mult_self1) simp_all
    also have "(r + 1) div 100 = (if r = 99 then 1 else 0)" using y(2,3) by auto
    finally show ?thesis .
  qed
  moreover have "r div 4 \<le> (r + 1) div 4" "r = 99 \<Longrightarrow> r div 4 + 1 \<le> (r + 1) div 4"
    by (auto intro: zdiv_mono1)
  ultimately show ?thesis unfolding yearStart_def by (auto split: if_splits)
qed

lemma month_of_doy:
  assumes "0 \<le> doy" "doy \<le> 365" "m = (5 * doy + 2) div 153"
  shows "0 \<le> m" "m \<le> 11" "monthStart m \<le> doy" "m < 11 \<Longrightarrow> doy < monthStart (m + 1)"
    "doy - monthStart m \<le> 30"
proof -
  have m: "153 * m \<le> 5 * doy + 2" "5 * doy + 2 < 153 * m + 153"
    using div_bounds [of 153 "5 * doy + 2"] unfolding assms(3) by auto
  have s: "5 * monthStart k \<le> 153 * k + 2" "153 * k + 2 < 5 * monthStart k + 5" for k
    using div_bounds [of 5 "153 * k + 2"] unfolding monthStart_def by auto
  show "0 \<le> m" "m \<le> 11" using m assms(1,2) by linarith+
  show "monthStart m \<le> doy" using m(1) s(1) [of m] by linarith
  have "153 * (m + 1) = 153 * m + 153" by simp
  with m(2) s(2) [of "m + 1"] show upper: "doy < monthStart (m + 1)" by linarith
  show "doy - monthStart m \<le> 30" using m(2) s(2) [of m] by linarith
qed

text \<open>The split of a day of the era, and that the year it finds starts no later and ends after it.\<close>

lemma era_split:
  fixes doe :: int
  assumes doe: "0 \<le> doe" "doe < 146097"
    and c: "c = min 3 (doe div 36524)" and r: "r = doe - c * 36524"
    and q: "q = r div 1461" and s: "s = r mod 1461"
    and yy: "yy = min 3 (s div 365)" and doy: "doy = s - yy * 365"
  shows "0 \<le> c * 100 + q * 4 + yy" "c * 100 + q * 4 + yy \<le> 399" "0 \<le> doy" "doy \<le> 365"
    "yearStart (c * 100 + q * 4 + yy) + doy = doe"
    "doe < 146097 \<and> (c * 100 + q * 4 + yy = 399 \<or> doe < yearStart (c * 100 + q * 4 + yy + 1))"
proof -
  have c4: "0 \<le> c" "c \<le> 3" and r0: "0 \<le> r" and r1: "r \<le> 36524" and r2: "c < 3 \<Longrightarrow> r < 36524"
    using doe div_bounds [of 36524 doe] unfolding c r by (auto simp: min_def split: if_splits)
  have q24: "0 \<le> q" "q \<le> 24" and s0: "0 \<le> s" "s \<le> 1460" and rq: "r = q * 1461 + s"
    using r0 r1 div_bounds [of 1461 r] div_mult_mod_eq [of r 1461] pos_mod_sign [of 1461 r]
      pos_mod_bound [of 1461 r] unfolding q s by linarith+
  have s2: "q = 24 \<Longrightarrow> c < 3 \<Longrightarrow> s < 1460"
    using r2 rq by linarith
  have y3: "0 \<le> yy" "yy \<le> 3" and d: "0 \<le> doy" "doy \<le> 365" and d2: "yy < 3 \<Longrightarrow> doy < 365"
    and d3: "s < 1460 \<Longrightarrow> doy < 365"
    using s0 div_bounds [of 365 s] unfolding yy doy by (auto simp: min_def split: if_splits)
  let ?y = "c * 100 + q * 4 + yy"
  have y4: "?y div 4 = c * 25 + q" using y3 by (intro div_unique) simp_all
  have "0 \<le> q * 4 + yy" "q * 4 + yy < 100" using q24 y3 by linarith+
  then have y100: "?y div 100 = c" by (intro div_unique) simp_all
  have start: "yearStart ?y = c * 36524 + q * 1461 + yy * 365"
    unfolding yearStart_def y4 y100 by simp
  show "0 \<le> ?y" "?y \<le> 399" using c4 q24 y3 by linarith+
  show "0 \<le> doy" "doy \<le> 365" by fact+
  show eq: "yearStart ?y + doy = doe" using start rq r doy by linarith
  show "doe < 146097 \<and> (?y = 399 \<or> doe < yearStart (?y + 1))"
  proof (cases "doy < 365")
    case True
    have "yearStart (?y + 1) \<ge> yearStart ?y + 365"
      by (rule yearStart_Suc)
    with True eq doe show ?thesis by linarith
  next
    case False
    with d2 d3 y3 s0 have yy3: "yy = 3" and "\<not> s < 1460" by linarith+
    with s2 q24 c4 have "q < 24 \<or> c = 3" by linarith
    moreover have "doy = 365" using False d by linarith
    moreover have "yearStart (?y + 1) = yearStart ?y + 366" if "q < 24"
    proof -
      have "(?y + 1) div 4 = c * 25 + q + 1" using yy3 by (intro div_unique) simp_all
      moreover have "(?y + 1) div 100 = c"
        using yy3 that q24 by (intro div_unique) simp_all
      ultimately show ?thesis unfolding yearStart_def y4 y100 by simp
    qed
    moreover have "?y = 399" if "c = 3" "\<not> q < 24" using that q24 yy3 by linarith
    ultimately show ?thesis using eq doe by linarith
  qed
qed

definition dateOf_ok :: "int \<Rightarrow> int \<times> int \<times> int \<Rightarrow> bool" where
  "dateOf_ok n ymd \<longleftrightarrow> (case ymd of (y, m, d) \<Rightarrow>
     1 \<le> m \<and> m \<le> 12 \<and> 1 \<le> d \<and> d \<le> 31 \<and> daysOfDate y m d = n \<and> n < daysOfDate y (m + 1) 1)"

lemma dateOfDays_ok: "dateOf_ok n (dateOfDays n)"
proof -
  define z where "z = n + 719468"
  define era where "era = z div 146097"
  define doe where "doe = z mod 146097"
  define c where "c = min 3 (doe div 36524)"
  define r where "r = doe - c * 36524"
  define q where "q = r div 1461"
  define s where "s = r mod 1461"
  define yy where "yy = min 3 (s div 365)"
  define doy where "doy = s - yy * 365"
  define yoe where "yoe = c * 100 + q * 4 + yy"
  define m where "m = (5 * doy + 2) div 153"
  have doe: "0 \<le> doe" "doe < 146097" and z: "z = era * 146097 + doe"
    by (simp_all add: doe_def era_def)
  note e = era_split [OF doe c_def r_def q_def s_def yy_def doy_def, folded yoe_def]
  note mo = month_of_doy [OF e(3,4) m_def]
  have era: "(era * 400 + yoe) div 400 = era" "(era * 400 + yoe) mod 400 = yoe"
    using e(1,2) by simp_all
  have date: "dateOfDays n = (if m < 10 then (era * 400 + yoe, m + 3, doy - monthStart m + 1)
      else (era * 400 + yoe + 1, m - 9, doy - monthStart m + 1))"
    unfolding dateOfDays_def Let_def m_def yoe_def doy_def yy_def s_def q_def r_def c_def doe_def
      era_def z_def by (simp only: add.assoc)
  have year: "era * 400 + yoe + 1 + (m - 12) div 12 = era * 400 + yoe" "(m - 12) mod 12 = m" if "10 \<le> m"
    using that mo(2) by presburger+
  have ym: "yoe mod 400 = yoe" using e(1,2) by simp
  have same: "m div 12 = 0" "m mod 12 = m" using mo(1,2) by simp_all
  have bounds: "1 \<le> doy - monthStart m + 1" "doy - monthStart m + 1 \<le> 31" using mo by simp_all
  have start: "era * 146097 + yearStart yoe + doy = n + 719468" using e(5) z z_def by linarith
  show ?thesis
  proof (cases "m < 10")
    case True
    have next_m: "daysOfDate (era * 400 + yoe) (4 + m) 1 = era * 146097 + yearStart yoe + monthStart (m + 1) - 719468"
      using True mo(1) ym by (simp add: daysOfDate_def Let_def era add.commute)
    have "daysOfDate (era * 400 + yoe) (m + 3) (doy - monthStart m + 1) = n"
      using True mo(1) start ym by (simp add: daysOfDate_def Let_def era same)
    moreover have "n < daysOfDate (era * 400 + yoe) (m + 3 + 1) 1"
      using next_m mo(4) True start by (simp add: add.commute)
    ultimately show ?thesis
      using True mo(1) bounds by (simp add: dateOf_ok_def date)
  next
    case False
    then have m: "m = 10 \<or> m = 11" using mo(2) by linarith
    have day: "daysOfDate (era * 400 + yoe + 1) (m - 9) (doy - monthStart m + 1) = n"
      using m start era by (auto simp: daysOfDate_def Let_def)
    have later: "n < daysOfDate (era * 400 + yoe + 1) (m - 9 + 1) 1"
    proof (cases "m = 10")
      case True
      then show ?thesis using mo(4) start era by (simp add: daysOfDate_def Let_def)
    next
      case False
      with m have "m = 11" by simp
      have "n + 719468 < (era * 400 + yoe + 1) div 400 * 146097 + yearStart ((era * 400 + yoe + 1) mod 400)"
      proof (cases "yoe = 399")
        case True
        then have "(era * 400 + yoe + 1) div 400 = era + 1" "(era * 400 + yoe + 1) mod 400 = 0" by simp_all
        then show ?thesis using z z_def doe by (simp add: yearStart_def)
      next
        case False
        with e(1,2) have w: "0 \<le> yoe + 1" "yoe + 1 < 400" by linarith+
        have "era * 400 + yoe + 1 = (yoe + 1) + era * 400" by simp
        then have "(era * 400 + yoe + 1) div 400 = era" "(era * 400 + yoe + 1) mod 400 = yoe + 1"
          using w by (simp_all only: div_mult_self1 mod_mult_self1) simp_all
        then show ?thesis using False e(6) z z_def by simp
      qed
      then show ?thesis using \<open>m = 11\<close> by (simp add: daysOfDate_def Let_def monthStart_def)
    qed
    from False m bounds day later show ?thesis by (auto simp: dateOf_ok_def date)
  qed
qed


section \<open>Times and durations\<close>

definition localDay :: "int \<Rightarrow> int \<Rightarrow> int" where
  "localDay zone t = (t + zone) div 86400"

definition timeOfDay :: "int \<Rightarrow> int \<Rightarrow> int" where
  "timeOfDay zone t = (t + zone) mod 86400"

text \<open>\<open>time.Date(year, month, day, 0, 0, 0, 0, loc).Unix()\<close>.\<close>

definition midnight :: "int \<Rightarrow> int \<Rightarrow> int \<Rightarrow> int \<Rightarrow> int" where
  "midnight zone year month day = daysOfDate year month day * 86400 - zone"

text \<open>\<open>t.AddDate(years, months, days)\<close>: the clock time stays, the date is normalised.\<close>

definition AddDate :: "int \<Rightarrow> int \<Rightarrow> int \<Rightarrow> int \<Rightarrow> int \<Rightarrow> int" where
  "AddDate zone t years months days =
     (case dateOfDays (localDay zone t) of (y, m, d) \<Rightarrow>
        daysOfDate (y + years) (m + months) (d + days) * 86400 + timeOfDay zone t - zone)"

text \<open>Sunday is 0; day 0 was a Thursday.\<close>

definition Weekday :: "int \<Rightarrow> int \<Rightarrow> int" where
  "Weekday zone t = (localDay zone t + 4) mod 7"

definition wrap64 :: "int \<Rightarrow> int" where
  "wrap64 x = (x + 2 ^ 63) mod 2 ^ 64 - 2 ^ 63"

text \<open>A \<open>time.Duration\<close> of \<open>n\<close> units of \<open>unit\<close> nanoseconds wraps at 64 bits.\<close>

definition Duration :: "int \<Rightarrow> int \<Rightarrow> int" where
  "Duration n unit = wrap64 (n * unit)"

definition Second :: int where "Second = 1000000000"
definition Hour :: int where "Hour = 3600 * Second"

text \<open>\<open>t.Add(d).Unix()\<close> for a time on the second: the nanoseconds are cut off downwards.\<close>

definition AddDuration :: "int \<Rightarrow> int \<Rightarrow> int" where
  "AddDuration t d = t + d div Second"

lemma wrap64_id: "- (2 ^ 63) \<le> x \<Longrightarrow> x < 2 ^ 63 \<Longrightarrow> wrap64 x = x"
  by (simp add: wrap64_def)

lemma AddDuration_seconds:
  "0 < n \<Longrightarrow> n \<le> 9223372036 \<Longrightarrow> AddDuration t (Duration n Second) = t + n"
  by (simp add: AddDuration_def Duration_def Second_def wrap64_id)

lemma localDay_bounds: "localDay zone t * 86400 \<le> t + zone" "t + zone < (localDay zone t + 1) * 86400"
proof -
  have "t + zone = localDay zone t * 86400 + (t + zone) mod 86400"
    by (simp add: localDay_def)
  moreover have "0 \<le> (t + zone) mod 86400" "(t + zone) mod 86400 < 86400" by simp_all
  moreover have "(localDay zone t + 1) * 86400 = localDay zone t * 86400 + 86400" by simp
  ultimately show "localDay zone t * 86400 \<le> t + zone" "t + zone < (localDay zone t + 1) * 86400"
    by linarith+
qed

lemma daysOfDate_day: "daysOfDate y m (d + k) = daysOfDate y m d + k"
  by (simp add: daysOfDate_def Let_def)

text \<open>The midnights the subscriptions align to lie after the time they start from.\<close>

lemma midnight_later:
  assumes "dateOfDays (localDay zone t) = (y, m, d)"
  shows "midnight zone y m (d + k) = (localDay zone t + k) * 86400 - zone"
    "t < midnight zone y (m + 1) 1"
proof -
  have ok: "daysOfDate y m d = localDay zone t" "localDay zone t < daysOfDate y (m + 1) 1"
    using dateOfDays_ok [of "localDay zone t"] assms by (simp_all add: dateOf_ok_def)
  then show "midnight zone y m (d + k) = (localDay zone t + k) * 86400 - zone"
    by (simp add: midnight_def daysOfDate_day)
  from ok(2) have "(localDay zone t + 1) * 86400 \<le> daysOfDate y (m + 1) 1 * 86400" by simp
  with localDay_bounds(2) [of t zone] show "t < midnight zone y (m + 1) 1"
    unfolding midnight_def by linarith
qed

end
