(* ===== verification/Subscription.thy ===== *)
theory Subscription
  imports Tokens Calendar
begin

text \<open>
  Subscriptions, \<open>server/model/subscription.go\<close>: plan durations and quota resets, orders and
  purchases, the group upgrade that comes with a plan, and the consumption of a subscription's
  quota by requests.

  Arguments of the operations: \<open>zone\<close>, the offset of the server's local time; \<open>now\<close>,
  \<open>common.GetTimestamp()\<close>; \<open>dbnow\<close>, \<open>GetDBTimestamp()\<close>; \<open>planCache\<close>, what the plan
  cache holds; \<open>dec\<close>, \<open>decimal.NewFromFloat\<close> as the rational it denotes. Cache writes and the
  user log change no table and are left out.

  \<open>PostConsumeUserSubscriptionDelta\<close> runs its own transaction on its own connection also when
  it is called inside another one: what it commits stays when the outer one rolls back.
\<close>

abbreviation SubscriptionDurationYear :: string where "SubscriptionDurationYear \<equiv> ''year''"
abbreviation SubscriptionDurationMonth :: string where "SubscriptionDurationMonth \<equiv> ''month''"
abbreviation SubscriptionDurationDay :: string where "SubscriptionDurationDay \<equiv> ''day''"
abbreviation SubscriptionDurationHour :: string where "SubscriptionDurationHour \<equiv> ''hour''"
abbreviation SubscriptionDurationCustom :: string where "SubscriptionDurationCustom \<equiv> ''custom''"
abbreviation SubscriptionResetNever :: string where "SubscriptionResetNever \<equiv> ''never''"
abbreviation SubscriptionResetDaily :: string where "SubscriptionResetDaily \<equiv> ''daily''"
abbreviation SubscriptionResetWeekly :: string where "SubscriptionResetWeekly \<equiv> ''weekly''"
abbreviation SubscriptionResetMonthly :: string where "SubscriptionResetMonthly \<equiv> ''monthly''"
abbreviation SubscriptionResetCustom :: string where "SubscriptionResetCustom \<equiv> ''custom''"

section \<open>Plan durations and reset times\<close>

definition calcPlanEndTime :: "int \<Rightarrow> int \<Rightarrow> SubscriptionPlan \<Rightarrow> err + int" where
  "calcPlanEndTime zone start plan =
     (if sp_DurationValue plan \<le> 0 \<and> sp_DurationUnit plan \<noteq> SubscriptionDurationCustom
      then Inl (ErrMsg ''duration_value must be > 0'')
      else if sp_DurationUnit plan = SubscriptionDurationYear
      then Inr (AddDate zone start (sp_DurationValue plan) 0 0)
      else if sp_DurationUnit plan = SubscriptionDurationMonth
      then Inr (AddDate zone start 0 (sp_DurationValue plan) 0)
      else if sp_DurationUnit plan = SubscriptionDurationDay
      then Inr (AddDuration start (wrap64 (wrap64 (sp_DurationValue plan * 24) * Hour)))
      else if sp_DurationUnit plan = SubscriptionDurationHour
      then Inr (AddDuration start (Duration (sp_DurationValue plan) Hour))
      else if sp_DurationUnit plan = SubscriptionDurationCustom then
        (if sp_CustomSeconds plan \<le> 0 then Inl (ErrMsg ''custom_seconds must be > 0'')
         else Inr (AddDuration start (Duration (sp_CustomSeconds plan) Second)))
      else Inl (ErrMsg (''invalid duration_unit: '' @ sp_DurationUnit plan)))"

definition NormalizeResetPeriod :: "string \<Rightarrow> string" where
  "NormalizeResetPeriod period =
     (if TrimSpace period \<in> {SubscriptionResetDaily, SubscriptionResetWeekly, SubscriptionResetMonthly,
                             SubscriptionResetCustom}
      then TrimSpace period else SubscriptionResetNever)"

definition nextResetOf :: "int \<Rightarrow> int \<Rightarrow> SubscriptionPlan \<Rightarrow> int option" where
  "nextResetOf zone base plan =
     (let period = NormalizeResetPeriod (sp_QuotaResetPeriod plan);
          (y, m, d) = dateOfDays (localDay zone base) in
      if period = SubscriptionResetDaily then Some (midnight zone y m (d + 1))
      else if period = SubscriptionResetWeekly then
        (let weekday = (if Weekday zone base = 0 then 7 else Weekday zone base);
             daysUntil = 8 - weekday
         in Some (midnight zone y m (d + daysUntil)))
      else if period = SubscriptionResetMonthly then Some (midnight zone y (m + 1) 1)
      else if period = SubscriptionResetCustom then
        (if sp_QuotaResetCustomSeconds plan \<le> 0 then None
         else Some (AddDuration base (Duration (sp_QuotaResetCustomSeconds plan) Second)))
      else None)"

definition calcNextResetTime :: "int \<Rightarrow> int \<Rightarrow> SubscriptionPlan \<Rightarrow> int \<Rightarrow> int" where
  "calcNextResetTime zone base plan endUnix =
     (case nextResetOf zone base plan of
        None \<Rightarrow> 0
      | Some next \<Rightarrow> if endUnix > 0 \<and> next > endUnix then 0 else next)"

text \<open>
  The loop of \<open>maybeResetUserSubscriptionWithPlanTx\<close> that catches up with missed resets. It
  may not end, which is the value \<open>None\<close>.
\<close>

partial_function (option) resetLoop ::
  "int \<Rightarrow> SubscriptionPlan \<Rightarrow> int \<Rightarrow> int \<Rightarrow> int \<Rightarrow> int \<Rightarrow> bool \<Rightarrow> (int \<times> int \<times> bool) option" where
  "resetLoop zone plan endTime now base next advanced =
     (if next > 0 \<and> next \<le> now
      then resetLoop zone plan endTime now next (calcNextResetTime zone next plan endTime) True
      else Some (base, next, advanced))"

section \<open>Statements\<close>

text \<open>\<open>Save\<close> with the \<open>BeforeUpdate\<close> hook.\<close>

definition saveSubscription :: "int \<Rightarrow> UserSubscription \<Rightarrow> (store, unit) act" where
  "saveSubscription now sub =
     bindE (updateRows subscriptions subscriptions_update (\<lambda>x. us_Id x = us_Id sub)
       (\<lambda>_. sub\<lparr>us_UpdatedAt := now\<rparr>)) (\<lambda>_. ret ())"

definition NormalizeDefaults :: "SubscriptionPlan \<Rightarrow> SubscriptionPlan" where
  "NormalizeDefaults p =
     (if sp_AllowBalancePay p = None then p\<lparr>sp_AllowBalancePay := Some True\<rparr> else p)"

definition getSubscriptionPlanById ::
  "(int \<Rightarrow> SubscriptionPlan option) \<Rightarrow> int \<Rightarrow> (store, SubscriptionPlan) act" where
  "getSubscriptionPlanById planCache pid =
     (if pid \<le> 0 then fail (ErrMsg ''invalid plan id'')
      else case planCache pid of
        Some cached \<Rightarrow> ret (NormalizeDefaults cached)
      | None \<Rightarrow> bindE (firstRow plans (\<lambda>p. sp_Id p = pid)) (\<lambda>plan. ret (NormalizeDefaults plan)))"

definition CountUserSubscriptionsByPlan :: "int \<Rightarrow> int \<Rightarrow> (store, int) act" where
  "CountUserSubscriptionsByPlan userId planId =
     (if userId \<le> 0 \<or> planId \<le> 0 then fail (ErrMsg ''invalid userId or planId'')
      else query (\<lambda>s. Inr (int (countWhere (\<lambda>x. us_UserId x = userId \<and> us_PlanId x = planId)
             (subscriptions s)))))"

text \<open>\<open>Find(&group)\<close> leaves the empty string when there is no such user.\<close>

definition getUserGroupByIdTx :: "int \<Rightarrow> (store, string) act" where
  "getUserGroupByIdTx userId =
     (if userId \<le> 0 then fail (ErrMsg ''invalid userId'')
      else query (\<lambda>s. Inr (case findRow (\<lambda>u. u_Id u = userId \<and> \<not> u_DeletedAt u) (users s) of
             None \<Rightarrow> [] | Some u \<Rightarrow> u_Group u)))"

definition setUserGroup :: "int \<Rightarrow> string \<Rightarrow> (store, unit) act" where
  "setUserGroup userId grp =
     bindE (updateUser userId (\<lambda>u. u\<lparr>u_Group := grp\<rparr>)) (\<lambda>_. ret ())"

definition activeAt :: "int \<Rightarrow> int \<Rightarrow> UserSubscription \<Rightarrow> bool" where
  "activeAt now userId x \<longleftrightarrow> us_UserId x = userId \<and> us_Status x = ''active'' \<and> us_EndTime x > now"

definition downgradeUserGroupForSubscriptionTx ::
  "UserSubscription \<Rightarrow> int \<Rightarrow> (store, string) act" where
  "downgradeUserGroupForSubscriptionTx sub now =
     (let upgradeGroup = TrimSpace (us_UpgradeGroup sub) in
      if upgradeGroup = [] then ret []
      else bindE (getUserGroupByIdTx (us_UserId sub)) (\<lambda>currentGroup.
        if currentGroup \<noteq> upgradeGroup then ret []
        else bindE (attempt (query (\<lambda>s. Inr (\<exists>x \<in> set (subscriptions s).
               activeAt now (us_UserId sub) x \<and> us_Id x \<noteq> us_Id sub \<and> us_UpgradeGroup x \<noteq> [])))) (\<lambda>other.
          if other = Inr True then ret []
          else let prevGroup = TrimSpace (us_PrevUserGroup sub) in
          if prevGroup = [] \<or> prevGroup = currentGroup then ret []
          else bindE (setUserGroup (us_UserId sub) prevGroup) (\<lambda>_. ret prevGroup))))"

text \<open>
  \<open>CreateUserSubscriptionFromPlanTx\<close>; the time of the reset base is the database's clock.
\<close>

definition createSubscription :: "UserSubscription \<Rightarrow> (store, UserSubscription) act" where
  "createSubscription sub = stmt (\<lambda>s.
     let sub' = sub\<lparr>us_Id := freshId us_Id (subscriptions s)\<rparr>
     in Inr (sub', s\<lparr>subscriptions := subscriptions s @ [sub']\<rparr>))"

definition CreateUserSubscriptionFromPlanTx ::
  "int \<Rightarrow> int \<Rightarrow> int \<Rightarrow> int \<Rightarrow> SubscriptionPlan \<Rightarrow> string \<Rightarrow> (store, UserSubscription) act" where
  "CreateUserSubscriptionFromPlanTx zone dbnow now userId plan source =
     (if sp_Id plan = 0 then fail (ErrMsg ''invalid plan'')
      else if userId \<le> 0 then fail (ErrMsg ''invalid user id'')
      else bindE
        (if sp_MaxPurchasePerUser plan > 0 then
           bindE (query (\<lambda>s. Inr (int (countWhere (\<lambda>x. us_UserId x = userId \<and> us_PlanId x = sp_Id plan)
               (subscriptions s))))) (\<lambda>n.
             if n \<ge> sp_MaxPurchasePerUser plan then fail ErrPurchaseLimit else ret ())
         else ret ()) (\<lambda>_.
      case calcPlanEndTime zone dbnow plan of
        Inl err \<Rightarrow> fail err
      | Inr endUnix \<Rightarrow>
          let nextReset = calcNextResetTime zone dbnow plan endUnix;
              lastReset = (if nextReset > 0 then dbnow else 0);
              upgradeGroup = TrimSpace (sp_UpgradeGroup plan) in
          bindE
            (if upgradeGroup \<noteq> [] then
               bindE (getUserGroupByIdTx userId) (\<lambda>currentGroup.
                 if currentGroup \<noteq> upgradeGroup
                 then bindE (setUserGroup userId upgradeGroup) (\<lambda>_. ret currentGroup)
                 else ret [])
             else ret []) (\<lambda>prevGroup.
          createSubscription
            \<lparr>us_Id = 0, us_UserId = userId, us_PlanId = sp_Id plan, us_AmountTotal = sp_TotalAmount plan,
             us_AmountUsed = 0, us_StartTime = dbnow, us_EndTime = endUnix, us_Status = ''active'',
             us_Source = source, us_LastResetTime = lastReset, us_NextResetTime = nextReset,
             us_UpgradeGroup = upgradeGroup, us_PrevUserGroup = prevGroup,
             us_CreatedAt = now, us_UpdatedAt = now\<rparr>)))"

section \<open>Orders\<close>

definition saveOrder :: "SubscriptionOrder \<Rightarrow> (store, unit) act" where
  "saveOrder order =
     bindE (updateRows subOrders subOrders_update (\<lambda>x. so_Id x = so_Id order) (\<lambda>_. order)) (\<lambda>_. ret ())"

definition createOrder :: "SubscriptionOrder \<Rightarrow> (store, unit) act" where
  "createOrder order = stmt (\<lambda>s.
     if so_TradeNo order \<in> so_TradeNo ` set (subOrders s) then Inl ErrDuplicatedKey
     else Inr ((), s\<lparr>subOrders := subOrders s @ [order\<lparr>so_Id := freshId so_Id (subOrders s)\<rparr>]\<rparr>))"

definition upsertSubscriptionTopUpTx :: "int \<Rightarrow> SubscriptionOrder \<Rightarrow> (store, unit) act" where
  "upsertSubscriptionTopUpTx now order =
     bindE (attempt (firstRow topups (\<lambda>t. tu_TradeNo t = so_TradeNo order))) (\<lambda>found.
       case found of
         Inl err \<Rightarrow>
           if err = ErrRecordNotFound then
             bindE (createTopUp
               \<lparr>tu_Id = 0, tu_UserId = so_UserId order, tu_Amount = 0, tu_Money = so_Money order,
                tu_TradeNo = so_TradeNo order, tu_PaymentMethod = so_PaymentMethod order,
                tu_PaymentProvider = [], tu_CreateTime = so_CreateTime order, tu_CompleteTime = now,
                tu_Status = TopUpStatusSuccess\<rparr>) (\<lambda>_. ret ())
           else fail err
       | Inr topup0 \<Rightarrow>
           let topup1 = topup0\<lparr>tu_Money := so_Money order\<rparr> in
           if tu_PaymentMethod topup1 \<noteq> [] \<and> tu_PaymentMethod topup1 \<noteq> so_PaymentMethod order
           then fail ErrPaymentMethodMismatch
           else
             let topup2 = (if tu_PaymentMethod topup1 = []
                           then topup1\<lparr>tu_PaymentMethod := so_PaymentMethod order\<rparr> else topup1);
                 topup3 = (if tu_CreateTime topup2 = 0
                           then topup2\<lparr>tu_CreateTime := so_CreateTime order\<rparr> else topup2)
             in saveTopUp (topup3\<lparr>tu_CompleteTime := now, tu_Status := TopUpStatusSuccess\<rparr>))"

definition orderByTradeNo :: "string \<Rightarrow> (store, SubscriptionOrder) act" where
  "orderByTradeNo tradeNo =
     bindE (attempt (firstRow subOrders (\<lambda>o'. so_TradeNo o' = tradeNo))) (\<lambda>found.
       case found of Inl _ \<Rightarrow> fail ErrSubscriptionOrderNotFound | Inr order \<Rightarrow> ret order)"

definition completeOrderTx ::
  "int \<Rightarrow> int \<Rightarrow> int \<Rightarrow> (int \<Rightarrow> SubscriptionPlan option) \<Rightarrow> string \<Rightarrow> string \<Rightarrow> string \<Rightarrow> string \<Rightarrow>
   (store, unit) act" where
  "completeOrderTx zone dbnow now planCache tradeNo providerPayload expectedPaymentProvider actualPaymentMethod =
     bindE (orderByTradeNo tradeNo) (\<lambda>order.
       if expectedPaymentProvider \<noteq> [] \<and> so_PaymentProvider order \<noteq> expectedPaymentProvider
       then fail ErrPaymentMethodMismatch
       else if so_Status order = TopUpStatusSuccess then ret ()
       else if so_Status order \<noteq> TopUpStatusPending then fail ErrSubscriptionOrderStatusInvalid
       else bindE (getSubscriptionPlanById planCache (so_PlanId order)) (\<lambda>plan.
         bindE (CreateUserSubscriptionFromPlanTx zone dbnow now (so_UserId order) plan ''order'') (\<lambda>_.
         bindE (upsertSubscriptionTopUpTx now order) (\<lambda>_.
         saveOrder (order\<lparr>so_Status := TopUpStatusSuccess, so_CompleteTime := now,
           so_ProviderPayload := (if providerPayload \<noteq> [] then providerPayload else so_ProviderPayload order),
           so_PaymentMethod := (if actualPaymentMethod \<noteq> [] then actualPaymentMethod
                                else so_PaymentMethod order)\<rparr>)))))"

definition CompleteSubscriptionOrder ::
  "int \<Rightarrow> int \<Rightarrow> int \<Rightarrow> (int \<Rightarrow> SubscriptionPlan option) \<Rightarrow> string \<Rightarrow> string \<Rightarrow> string \<Rightarrow> string \<Rightarrow>
   (store, unit) act" where
  "CompleteSubscriptionOrder zone dbnow now planCache tradeNo providerPayload expectedPaymentProvider actualPaymentMethod =
     (if tradeNo = [] then fail (ErrMsg ''tradeNo is empty'')
      else transaction (completeOrderTx zone dbnow now planCache tradeNo providerPayload
             expectedPaymentProvider actualPaymentMethod))"

definition ExpireSubscriptionOrder :: "int \<Rightarrow> string \<Rightarrow> string \<Rightarrow> (store, unit) act" where
  "ExpireSubscriptionOrder now tradeNo expectedPaymentProvider =
     (if tradeNo = [] then fail (ErrMsg ''tradeNo is empty'')
      else transaction (
        bindE (orderByTradeNo tradeNo) (\<lambda>order.
          if expectedPaymentProvider \<noteq> [] \<and> so_PaymentProvider order \<noteq> expectedPaymentProvider
          then fail ErrPaymentMethodMismatch
          else if so_Status order \<noteq> TopUpStatusPending then ret ()
          else saveOrder (order\<lparr>so_Status := TopUpStatusExpired, so_CompleteTime := now\<rparr>))))"

text \<open>The text tells the administrator the new group; only whether there is one is kept.\<close>

definition AdminBindSubscription ::
  "int \<Rightarrow> int \<Rightarrow> int \<Rightarrow> (int \<Rightarrow> SubscriptionPlan option) \<Rightarrow> int \<Rightarrow> int \<Rightarrow> (store, string option) act" where
  "AdminBindSubscription zone dbnow now planCache userId planId =
     (if userId \<le> 0 \<or> planId \<le> 0 then fail (ErrMsg ''invalid userId or planId'')
      else bindE (getSubscriptionPlanById planCache planId) (\<lambda>plan.
        bindE (transaction (CreateUserSubscriptionFromPlanTx zone dbnow now userId plan ''admin'')) (\<lambda>_.
        ret (if TrimSpace (sp_UpgradeGroup plan) \<noteq> [] then Some (sp_UpgradeGroup plan) else None))))"

definition calcSubscriptionBalanceQuota :: "(float64 \<Rightarrow> rat) \<Rightarrow> float64 \<Rightarrow> float64 \<Rightarrow> err + int" where
  "calcSubscriptionBalanceQuota dec QuotaPerUnit priceAmount =
     (if dec priceAmount \<le> 0 then Inr 0
      else if dec QuotaPerUnit \<le> 0 then Inl ErrQuotaUnit
      else Inr \<lceil>dec priceAmount * dec QuotaPerUnit\<rceil>)"

text \<open>\<open>tradeNo\<close> is the generated trade number, built from the user, a random string and the clock.\<close>

definition purchaseTx ::
  "(float64 \<Rightarrow> rat) \<Rightarrow> float64 \<Rightarrow> int \<Rightarrow> int \<Rightarrow> int \<Rightarrow> (int \<Rightarrow> SubscriptionPlan option) \<Rightarrow> string \<Rightarrow>
   int \<Rightarrow> int \<Rightarrow> (store, unit) act" where
  "purchaseTx dec QuotaPerUnit zone dbnow now planCache tradeNo userId planId =
     bindE (getSubscriptionPlanById planCache planId) (\<lambda>plan.
       if \<not> sp_Enabled plan then fail ErrPlanDisabled
       else if dec (sp_PriceAmount plan) < 0 then fail ErrPlanPriceNegative
       else if sp_AllowBalancePay plan = Some False then fail ErrBalancePayNotAllowed
       else case calcSubscriptionBalanceQuota dec QuotaPerUnit (sp_PriceAmount plan) of
         Inl err \<Rightarrow> fail err
       | Inr requiredQuota \<Rightarrow>
           bindE (firstUser userId) (\<lambda>user.
             if requiredQuota > 0 \<and> u_Quota user < requiredQuota then fail ErrBalanceInsufficient
             else bindE
               (if requiredQuota > 0
                then bindE (updateUser userId (addUserQuota (- requiredQuota))) (\<lambda>_. ret ())
                else ret ()) (\<lambda>_.
             bindE (CreateUserSubscriptionFromPlanTx zone dbnow now userId plan ''balance'') (\<lambda>_.
             createOrder
               \<lparr>so_Id = 0, so_UserId = userId, so_PlanId = sp_Id plan, so_Money = sp_PriceAmount plan,
                so_TradeNo = tradeNo, so_PaymentMethod = ''balance'', so_PaymentProvider = ''balance'',
                so_Status = TopUpStatusSuccess, so_CreateTime = now, so_CompleteTime = now,
                so_ProviderPayload = ''charged_quota='' @ showInt requiredQuota\<rparr>))))"

definition PurchaseSubscriptionWithBalance ::
  "(float64 \<Rightarrow> rat) \<Rightarrow> float64 \<Rightarrow> int \<Rightarrow> int \<Rightarrow> int \<Rightarrow> (int \<Rightarrow> SubscriptionPlan option) \<Rightarrow> string \<Rightarrow>
   int \<Rightarrow> int \<Rightarrow> (store, unit) act" where
  "PurchaseSubscriptionWithBalance dec QuotaPerUnit zone dbnow now planCache tradeNo userId planId =
     (if userId \<le> 0 \<or> planId \<le> 0 then fail (ErrMsg ''invalid userId or planId'')
      else transaction (purchaseTx dec QuotaPerUnit zone dbnow now planCache tradeNo userId planId))"

section \<open>Queries, cancellation and expiry\<close>

definition newestEndFirst :: "UserSubscription list \<Rightarrow> UserSubscription list" where
  "newestEndFirst xs = sort_key (\<lambda>x. - us_EndTime x) (sort_key (\<lambda>x. - us_Id x) xs)"

definition GetAllActiveUserSubscriptions :: "int \<Rightarrow> int \<Rightarrow> (store, UserSubscription list) act" where
  "GetAllActiveUserSubscriptions now userId =
     (if userId \<le> 0 then fail (ErrMsg ''invalid userId'')
      else query (\<lambda>s. Inr (newestEndFirst (filter (activeAt now userId) (subscriptions s)))))"

definition GetAllUserSubscriptions :: "int \<Rightarrow> (store, UserSubscription list) act" where
  "GetAllUserSubscriptions userId =
     (if userId \<le> 0 then fail (ErrMsg ''invalid userId'')
      else query (\<lambda>s. Inr (newestEndFirst (filter (\<lambda>x. us_UserId x = userId) (subscriptions s)))))"

definition HasActiveUserSubscription :: "int \<Rightarrow> int \<Rightarrow> (store, bool) act" where
  "HasActiveUserSubscription now userId =
     (if userId \<le> 0 then fail (ErrMsg ''invalid userId'')
      else query (\<lambda>s. Inr (countWhere (activeAt now userId) (subscriptions s) > 0)))"

definition AdminInvalidateUserSubscription :: "int \<Rightarrow> int \<Rightarrow> (store, string) act" where
  "AdminInvalidateUserSubscription now sid =
     (if sid \<le> 0 then fail (ErrMsg ''invalid userSubscriptionId'')
      else transaction (
        bindE (firstRow subscriptions (\<lambda>x. us_Id x = sid)) (\<lambda>sub.
        bindE (updateRows subscriptions subscriptions_update (\<lambda>x. us_Id x = us_Id sub)
          (\<lambda>x. x\<lparr>us_Status := ''cancelled'', us_EndTime := now, us_UpdatedAt := now\<rparr>)) (\<lambda>_.
        downgradeUserGroupForSubscriptionTx sub now))))"

definition AdminDeleteUserSubscription :: "int \<Rightarrow> int \<Rightarrow> (store, string) act" where
  "AdminDeleteUserSubscription now sid =
     (if sid \<le> 0 then fail (ErrMsg ''invalid userSubscriptionId'')
      else transaction (
        bindE (firstRow subscriptions (\<lambda>x. us_Id x = sid)) (\<lambda>sub.
        bindE (downgradeUserGroupForSubscriptionTx sub now) (\<lambda>target.
        bindE (exec (\<lambda>s. s\<lparr>subscriptions := filter (\<lambda>x. us_Id x \<noteq> sid) (subscriptions s)\<rparr>)) (\<lambda>_.
        ret target)))))"

text \<open>
  \<open>ExpireDueSubscriptions\<close>: one transaction per user. The counter is a captured variable, so
  rows a rolled-back transaction matched stay counted (unless the UPDATE itself failed, the
  transaction's first statement); it is returned together with the error.
\<close>

definition dueAt :: "int \<Rightarrow> UserSubscription \<Rightarrow> bool" where
  "dueAt now x \<longleftrightarrow> us_Status x = ''active'' \<and> us_EndTime x > 0 \<and> us_EndTime x \<le> now"

definition downgradeAfterExpiry :: "int \<Rightarrow> int \<Rightarrow> (store, unit) act" where
  "downgradeAfterExpiry dbnow userId =
     bindE (attempt (query (\<lambda>s. Inr (\<exists>x \<in> set (subscriptions s).
         activeAt dbnow userId x \<and> us_UpgradeGroup x \<noteq> [])))) (\<lambda>active.
       if active = Inr True then ret ()
       else bindE (attempt (query (\<lambda>s. Inr (newestEndFirst (filter (\<lambda>x. us_UserId x = userId \<and>
           us_Status x = ''expired'' \<and> us_UpgradeGroup x \<noteq> []) (subscriptions s)))))) (\<lambda>expired.
         case expired of
           Inl _ \<Rightarrow> ret ()
         | Inr [] \<Rightarrow> ret ()
         | Inr (lastExpired # _) \<Rightarrow>
             let upgradeGroup = TrimSpace (us_UpgradeGroup lastExpired);
                 prevGroup = TrimSpace (us_PrevUserGroup lastExpired) in
             if upgradeGroup = [] \<or> prevGroup = [] then ret ()
             else bindE (getUserGroupByIdTx userId) (\<lambda>currentGroup.
               if currentGroup \<noteq> upgradeGroup \<or> currentGroup = prevGroup then ret ()
               else setUserGroup userId prevGroup)))"

definition expireUserTx :: "int \<Rightarrow> int \<Rightarrow> int \<Rightarrow> (store, nat) act" where
  "expireUserTx dbnow now userId =
     bindE (updateRows subscriptions subscriptions_update (\<lambda>x. us_UserId x = userId \<and> dueAt dbnow x)
       (\<lambda>x. x\<lparr>us_Status := ''expired'', us_UpdatedAt := now\<rparr>)) (\<lambda>rows.
     bindE (downgradeAfterExpiry dbnow userId) (\<lambda>_. ret rows))"

fun expireUsers :: "int \<Rightarrow> int \<Rightarrow> int list \<Rightarrow> int \<Rightarrow> (store, int \<times> err option) act" where
  "expireUsers dbnow now [] expired = ret (expired, None)"
| "expireUsers dbnow now (userId # ids) expired = (\<lambda>c.
     let matched = int (countWhere (\<lambda>x. us_UserId x = userId \<and> dueAt dbnow x) (subscriptions (db c))) in
     case nextOutcome c of
       (Good, _) \<Rightarrow>
         (case transaction (expireUserTx dbnow now userId) c of
            (Inl err, c1) \<Rightarrow> (Inr (expired + matched, Some err), c1)
          | (Inr _, c1) \<Rightarrow> expireUsers dbnow now ids (expired + matched) c1)
     | _ \<Rightarrow>
         (case transaction (expireUserTx dbnow now userId) c of
            (_, c1) \<Rightarrow> (Inr (expired, Some ErrDriver), c1)))"

definition ExpireDueSubscriptions :: "int \<Rightarrow> int \<Rightarrow> int \<Rightarrow> (store, int \<times> err option) act" where
  "ExpireDueSubscriptions dbnow now limit0 =
     (let limit = (if limit0 \<le> 0 then 200 else limit0) in
      bindE (query (\<lambda>s. Inr (take (nat limit) (sort_key us_EndTime (sort_key us_Id
        (filter (dueAt dbnow) (subscriptions s))))))) (\<lambda>subs.
      expireUsers dbnow now (remdups (filter (\<lambda>i. i > 0) (map us_UserId subs))) 0))"

section \<open>Consuming a subscription\<close>

definition maybeResetUserSubscriptionWithPlanTx ::
  "int \<Rightarrow> int \<Rightarrow> int \<Rightarrow> UserSubscription \<Rightarrow> SubscriptionPlan \<Rightarrow> (store, UserSubscription) act" where
  "maybeResetUserSubscriptionWithPlanTx zone dbnow now sub plan =
     (if us_NextResetTime sub > 0 \<and> us_NextResetTime sub > dbnow then ret sub
      else if NormalizeResetPeriod (sp_QuotaResetPeriod plan) = SubscriptionResetNever then ret sub
      else let base0 = (if us_LastResetTime sub \<le> 0 then us_StartTime sub else us_LastResetTime sub) in
      case resetLoop zone plan (us_EndTime sub) dbnow base0
             (calcNextResetTime zone base0 plan (us_EndTime sub)) False of
        None \<Rightarrow> fail NotReturning
      | Some (base, next, advanced) \<Rightarrow>
          if \<not> advanced then
            (if us_NextResetTime sub = 0 \<and> next > 0 then
               let sub' = sub\<lparr>us_NextResetTime := next, us_LastResetTime := base\<rparr> in
               bindE (saveSubscription now sub') (\<lambda>_. ret (sub'\<lparr>us_UpdatedAt := now\<rparr>))
             else ret sub)
          else
            let sub' = sub\<lparr>us_AmountUsed := 0, us_LastResetTime := base, us_NextResetTime := next\<rparr> in
            bindE (saveSubscription now sub') (\<lambda>_. ret (sub'\<lparr>us_UpdatedAt := now\<rparr>)))"

record SubscriptionPreConsumeResult =
  pr_UserSubscriptionId :: int
  pr_PreConsumed :: int
  pr_AmountTotal :: int
  pr_AmountUsedBefore :: int
  pr_AmountUsedAfter :: int

definition createPreConsume :: "SubscriptionPreConsumeRecord \<Rightarrow> (store, unit) act" where
  "createPreConsume r = stmt (\<lambda>s.
     if sr_RequestId r \<in> sr_RequestId ` set (preConsumes s) then Inl ErrDuplicatedKey
     else Inr ((), s\<lparr>preConsumes := preConsumes s @ [r\<lparr>sr_Id := freshId sr_Id (preConsumes s)\<rparr>]\<rparr>))"

definition replayedPreConsume ::
  "UserSubscription \<Rightarrow> SubscriptionPreConsumeRecord \<Rightarrow> SubscriptionPreConsumeResult" where
  "replayedPreConsume sub r =
     \<lparr>pr_UserSubscriptionId = us_Id sub, pr_PreConsumed = sr_PreConsumed r,
      pr_AmountTotal = us_AmountTotal sub, pr_AmountUsedBefore = us_AmountUsed sub,
      pr_AmountUsedAfter = us_AmountUsed sub\<rparr>"

abbreviation errAlreadyRefunded :: err where
  "errAlreadyRefunded \<equiv> ErrMsg ''subscription pre-consume already refunded''"

text \<open>Taking the amount from the subscription chosen.\<close>

definition consumeFrom ::
  "int \<Rightarrow> string \<Rightarrow> int \<Rightarrow> int \<Rightarrow> UserSubscription \<Rightarrow> (store, SubscriptionPreConsumeResult) act" where
  "consumeFrom now requestId userId amount sub =
     bindE (attempt (createPreConsume
       \<lparr>sr_Id = 0, sr_RequestId = requestId, sr_UserId = userId, sr_UserSubscriptionId = us_Id sub,
        sr_PreConsumed = amount, sr_Status = ''consumed'', sr_CreatedAt = now, sr_UpdatedAt = now\<rparr>)) (\<lambda>created.
       case created of
         Inl err \<Rightarrow>
           bindE (attempt (firstRow preConsumes (\<lambda>r. sr_RequestId r = requestId))) (\<lambda>dup.
             case dup of
               Inl _ \<Rightarrow> fail err
             | Inr r \<Rightarrow> if sr_Status r = ''refunded'' then fail errAlreadyRefunded
                        else ret (replayedPreConsume sub r))
       | Inr _ \<Rightarrow>
           bindE (saveSubscription now (sub\<lparr>us_AmountUsed := us_AmountUsed sub + amount\<rparr>)) (\<lambda>_.
           ret \<lparr>pr_UserSubscriptionId = us_Id sub, pr_PreConsumed = amount,
                pr_AmountTotal = us_AmountTotal sub, pr_AmountUsedBefore = us_AmountUsed sub,
                pr_AmountUsedAfter = us_AmountUsed sub + amount\<rparr>))"

fun preConsumeFrom ::
  "int \<Rightarrow> int \<Rightarrow> int \<Rightarrow> (int \<Rightarrow> SubscriptionPlan option) \<Rightarrow> string \<Rightarrow> int \<Rightarrow> int \<Rightarrow> UserSubscription list \<Rightarrow>
   (store, SubscriptionPreConsumeResult) act" where
  "preConsumeFrom zone dbnow now planCache requestId userId amount [] =
     fail (ErrMsg (''subscription quota insufficient, need='' @ showInt amount))"
| "preConsumeFrom zone dbnow now planCache requestId userId amount (candidate # subs) =
     bindE (getSubscriptionPlanById planCache (us_PlanId candidate)) (\<lambda>plan.
     bindE (maybeResetUserSubscriptionWithPlanTx zone dbnow now candidate plan) (\<lambda>sub.
       if us_AmountTotal sub > 0 \<and> us_AmountTotal sub - us_AmountUsed sub < amount
       then preConsumeFrom zone dbnow now planCache requestId userId amount subs
       else consumeFrom now requestId userId amount sub))"

definition preConsumeTx ::
  "int \<Rightarrow> int \<Rightarrow> int \<Rightarrow> (int \<Rightarrow> SubscriptionPlan option) \<Rightarrow> string \<Rightarrow> int \<Rightarrow> int \<Rightarrow>
   (store, SubscriptionPreConsumeResult) act" where
  "preConsumeTx zone dbnow now planCache requestId userId amount =
     bindE (query (\<lambda>s. Inr (findRow (\<lambda>r. sr_RequestId r = requestId) (preConsumes s)))) (\<lambda>existing.
       case existing of
         Some r \<Rightarrow>
           if sr_Status r = ''refunded'' then fail errAlreadyRefunded
           else bindE (firstRow subscriptions (\<lambda>x. us_Id x = sr_UserSubscriptionId r)) (\<lambda>sub.
             ret (replayedPreConsume sub r))
       | None \<Rightarrow>
           bindE (attempt (query (\<lambda>s. Inr (sort_key us_EndTime (sort_key us_Id
             (filter (activeAt dbnow userId) (subscriptions s))))))) (\<lambda>found.
             case found of
               Inl _ \<Rightarrow> fail (ErrMsg ''no active subscription'')
             | Inr subs \<Rightarrow>
                 if subs = [] then fail (ErrMsg ''no active subscription'')
                 else preConsumeFrom zone dbnow now planCache requestId userId amount subs))"

definition PreConsumeUserSubscription ::
  "int \<Rightarrow> int \<Rightarrow> int \<Rightarrow> (int \<Rightarrow> SubscriptionPlan option) \<Rightarrow> string \<Rightarrow> int \<Rightarrow> int \<Rightarrow>
   (store, SubscriptionPreConsumeResult) act" where
  "PreConsumeUserSubscription zone dbnow now planCache requestId userId amount =
     (if userId \<le> 0 then fail (ErrMsg ''invalid userId'')
      else if TrimSpace requestId = [] then fail (ErrMsg ''requestId is empty'')
      else if amount \<le> 0 then fail (ErrMsg ''amount must be > 0'')
      else transaction (preConsumeTx zone dbnow now planCache requestId userId amount))"

definition postConsumeTx :: "int \<Rightarrow> int \<Rightarrow> int \<Rightarrow> (store, unit) act" where
  "postConsumeTx now sid delta =
     bindE (firstRow subscriptions (\<lambda>x. us_Id x = sid)) (\<lambda>sub.
       let newUsed = (if us_AmountUsed sub + delta < 0 then 0 else us_AmountUsed sub + delta) in
       if us_AmountTotal sub > 0 \<and> newUsed > us_AmountTotal sub
       then fail (ErrMsg (''subscription used exceeds total, used='' @ showInt newUsed
              @ '' total='' @ showInt (us_AmountTotal sub)))
       else saveSubscription now (sub\<lparr>us_AmountUsed := newUsed\<rparr>))"

definition PostConsumeUserSubscriptionDelta :: "int \<Rightarrow> int \<Rightarrow> int \<Rightarrow> (store, unit) act" where
  "PostConsumeUserSubscriptionDelta now sid delta =
     (if sid \<le> 0 then fail (ErrMsg ''invalid userSubscriptionId'')
      else if delta = 0 then ret ()
      else transaction (postConsumeTx now sid delta))"

definition savePreConsume :: "int \<Rightarrow> SubscriptionPreConsumeRecord \<Rightarrow> (store, unit) act" where
  "savePreConsume now r =
     bindE (updateRows preConsumes preConsumes_update (\<lambda>x. sr_Id x = sr_Id r)
       (\<lambda>_. r\<lparr>sr_UpdatedAt := now\<rparr>)) (\<lambda>_. ret ())"

text \<open>
  \<open>RefundSubscriptionPreConsume\<close>: the outer transaction writes nothing before the inner call
  commits on its own connection, so its rollback only takes back the change of status; the
  outer transaction is written from that point on.
\<close>

definition RefundSubscriptionPreConsume :: "int \<Rightarrow> string \<Rightarrow> (store, unit) act" where
  "RefundSubscriptionPreConsume now requestId =
     (if TrimSpace requestId = [] then fail (ErrMsg ''requestId is empty'')
      else bindE (firstRow preConsumes (\<lambda>r. sr_RequestId r = requestId)) (\<lambda>record.
        if sr_Status record = ''refunded'' then transaction (ret ())
        else if sr_PreConsumed record \<le> 0
        then transaction (savePreConsume now (record\<lparr>sr_Status := ''refunded''\<rparr>))
        else bindE (PostConsumeUserSubscriptionDelta now (sr_UserSubscriptionId record)
               (- sr_PreConsumed record)) (\<lambda>_.
          transaction (savePreConsume now (record\<lparr>sr_Status := ''refunded''\<rparr>)))))"

text \<open>\<open>ResetDueSubscriptions\<close>: the counter is a captured variable, incremented before the commit.\<close>

definition resetOneTx ::
  "int \<Rightarrow> int \<Rightarrow> int \<Rightarrow> SubscriptionPlan \<Rightarrow> int \<Rightarrow> (store, bool) act" where
  "resetOneTx zone dbnow now plan sid =
     bindE (attempt (firstRow subscriptions (\<lambda>x. us_Id x = sid \<and> us_NextResetTime x > 0 \<and>
         us_NextResetTime x \<le> dbnow))) (\<lambda>found.
       case found of
         Inl _ \<Rightarrow> ret False
       | Inr locked \<Rightarrow>
           bindE (maybeResetUserSubscriptionWithPlanTx zone dbnow now locked plan) (\<lambda>_. ret True))"

text \<open>A commit that reports an error comes after the increment, a failing body before it.\<close>

definition countedReset :: "(store, bool) act \<Rightarrow> store conn \<Rightarrow> int" where
  "countedReset body c = (case body c of (Inr True, _) \<Rightarrow> 1 | _ \<Rightarrow> 0)"

fun resetSubscriptions ::
  "int \<Rightarrow> int \<Rightarrow> int \<Rightarrow> (int \<Rightarrow> SubscriptionPlan option) \<Rightarrow> UserSubscription list \<Rightarrow> int \<Rightarrow>
   (store, int \<times> err option) act" where
  "resetSubscriptions zone dbnow now planCache [] resetCount = ret (resetCount, None)"
| "resetSubscriptions zone dbnow now planCache (sub # subs) resetCount =
     bindE (attempt (getSubscriptionPlanById planCache (us_PlanId sub))) (\<lambda>plan.
       case plan of
         Inl _ \<Rightarrow> resetSubscriptions zone dbnow now planCache subs resetCount
       | Inr p \<Rightarrow> (\<lambda>c.
           let body = resetOneTx zone dbnow now p (us_Id sub); n = countedReset body c in
           case transaction body c of
             (Inl err, c1) \<Rightarrow> (Inr (resetCount + n, Some err), c1)
           | (Inr _, c1) \<Rightarrow> resetSubscriptions zone dbnow now planCache subs (resetCount + n) c1))"

definition ResetDueSubscriptions ::
  "int \<Rightarrow> int \<Rightarrow> int \<Rightarrow> (int \<Rightarrow> SubscriptionPlan option) \<Rightarrow> int \<Rightarrow> (store, int \<times> err option) act" where
  "ResetDueSubscriptions zone dbnow now planCache limit0 =
     (let limit = (if limit0 \<le> 0 then 200 else limit0) in
      bindE (query (\<lambda>s. Inr (take (nat limit) (sort_key us_NextResetTime
        (filter (\<lambda>x. us_NextResetTime x > 0 \<and> us_NextResetTime x \<le> dbnow \<and> us_Status x = ''active'')
          (subscriptions s)))))) (\<lambda>subs.
      resetSubscriptions zone dbnow now planCache subs 0))"

definition CleanupSubscriptionPreConsumeRecords :: "int \<Rightarrow> int \<Rightarrow> (store, int) act" where
  "CleanupSubscriptionPreConsumeRecords dbnow olderThanSeconds0 =
     (let olderThanSeconds = (if olderThanSeconds0 \<le> 0 then 7 * 24 * 3600 else olderThanSeconds0);
          cutoff = dbnow - olderThanSeconds in
      transaction (stmt (\<lambda>s.
        Inr (int (countWhere (\<lambda>r. sr_UpdatedAt r < cutoff) (preConsumes s)),
             s\<lparr>preConsumes := filter (\<lambda>r. \<not> sr_UpdatedAt r < cutoff) (preConsumes s)\<rparr>))))"

text \<open>The plan's id and title; \<open>infoCache\<close> is what the info cache holds.\<close>

definition GetSubscriptionPlanInfoByUserSubscriptionId ::
  "(int \<Rightarrow> (int \<times> string) option) \<Rightarrow> (int \<Rightarrow> SubscriptionPlan option) \<Rightarrow> int \<Rightarrow> (store, int \<times> string) act" where
  "GetSubscriptionPlanInfoByUserSubscriptionId infoCache planCache sid =
     (if sid \<le> 0 then fail (ErrMsg ''invalid userSubscriptionId'')
      else case infoCache sid of
        Some cached \<Rightarrow> ret cached
      | None \<Rightarrow>
          bindE (firstRow subscriptions (\<lambda>x. us_Id x = sid)) (\<lambda>sub.
          bindE (getSubscriptionPlanById planCache (us_PlanId sub)) (\<lambda>plan.
          ret (us_PlanId sub, sp_Title plan))))"

section \<open>Reset times make progress\<close>

lemma NormalizeResetPeriod_cases:
  "NormalizeResetPeriod p \<in> {SubscriptionResetDaily, SubscriptionResetWeekly, SubscriptionResetMonthly,
     SubscriptionResetCustom, SubscriptionResetNever}"
  by (auto simp: NormalizeResetPeriod_def)

text \<open>A custom period whose nanoseconds fit a duration.\<close>

definition resetPeriodFits :: "SubscriptionPlan \<Rightarrow> bool" where
  "resetPeriodFits plan \<longleftrightarrow>
     NormalizeResetPeriod (sp_QuotaResetPeriod plan) = SubscriptionResetCustom \<longrightarrow>
     sp_QuotaResetCustomSeconds plan \<le> 9223372036"

lemma Weekday_range: "0 \<le> Weekday zone t" "Weekday zone t \<le> 6"
  by (simp_all add: Weekday_def)

lemma nextResetOf_later:
  assumes "resetPeriodFits plan" "nextResetOf zone base plan = Some next"
  shows "base < next"
proof -
  obtain y m d where ymd: "dateOfDays (localDay zone base) = (y, m, d)" by (cases "dateOfDays (localDay zone base)")
  note later = midnight_later [OF ymd]
  have days: "base < midnight zone y m (d + k)" if "1 \<le> k" for k
  proof -
    have "(localDay zone base + 1) * 86400 \<le> (localDay zone base + k) * 86400" using that by simp
    with localDay_bounds(2) [of base zone] show ?thesis unfolding later(1) by linarith
  qed
  show ?thesis
    using assms days [of 1] days [of "8 - (if Weekday zone base = 0 then 7 else Weekday zone base)"]
      later(2) Weekday_range [of zone base] AddDuration_seconds [of "sp_QuotaResetCustomSeconds plan" base]
    by (auto simp: nextResetOf_def Let_def ymd resetPeriodFits_def split: if_splits)
qed

lemma localDay_midnight: "localDay zone (k * 86400 - zone) = k"
  by (simp add: localDay_def)

lemma next_monday:
  "(ld + (8 - (if (ld + 4) mod 7 = 0 then 7 else (ld + 4) mod 7)) + 4) mod 7 = (1 :: int)"
  by presburger


definition demoPlan :: SubscriptionPlan where
  "demoPlan =
     \<lparr>sp_Id = 4, sp_Title = ''Pro'', sp_Subtitle = [], sp_PriceAmount = 0, sp_Currency = ''USD'',
      sp_DurationUnit = ''month'', sp_DurationValue = 1, sp_CustomSeconds = 0, sp_Enabled = True,
      sp_SortOrder = 0, sp_AllowBalancePay = None, sp_StripePriceId = [], sp_CreemProductId = [],
      sp_WaffoPancakeProductId = [], sp_MaxPurchasePerUser = 0, sp_UpgradeGroup = [],
      sp_TotalAmount = 1000, sp_QuotaResetPeriod = ''weekly'', sp_QuotaResetCustomSeconds = 0,
      sp_CreatedAt = 0, sp_UpdatedAt = 0\<rparr>"


section \<open>The catch-up loop\<close>

lemma calcNextResetTime_later:
  "resetPeriodFits plan \<Longrightarrow> calcNextResetTime zone base plan endTime = 0 \<or>
     base < calcNextResetTime zone base plan endTime"
  by (auto simp: calcNextResetTime_def dest: nextResetOf_later split: option.splits)

lemma resetLoop_returns:
  assumes "resetPeriodFits plan"
  shows "next = 0 \<or> base < next \<Longrightarrow>
     \<exists>b n a. resetLoop zone plan endTime now base next advanced = Some (b, n, a) \<and>
       (n \<le> 0 \<or> now < n) \<and> (n = 0 \<or> b < n) \<and> (advanced \<longrightarrow> a) \<and>
       (a \<longrightarrow> b \<le> now \<or> advanced \<and> b = base) \<and> (\<not> a \<longrightarrow> b = base \<and> n = next)"
proof (induction "nat (now - next + 1)" arbitrary: base "next" advanced rule: less_induct)
  case less
  show ?case
  proof (cases "next > 0 \<and> next \<le> now")
    case False
    then show ?thesis
      using less.prems by (subst resetLoop.simps) auto
  next
    case True
    let ?n = "calcNextResetTime zone next plan endTime"
    have n: "?n = 0 \<or> next < ?n" by (rule calcNextResetTime_later [OF assms])
    show ?thesis
    proof (cases "?n = 0")
      case z: True
      have "resetLoop zone plan endTime now base next advanced = resetLoop zone plan endTime now next 0 True"
        using True z by (subst resetLoop.simps) simp
      also have "\<dots> = Some (next, 0, True)" by (subst resetLoop.simps) simp
      finally show ?thesis using True by auto
    next
      case False
      with n have "next < ?n" by simp
      then have "nat (now - ?n + 1) < nat (now - next + 1)" using True by simp
      from less.hyps [OF this n, of True] obtain b k a where
        loop: "resetLoop zone plan endTime now next ?n True = Some (b, k, a)" and
        r: "k \<le> 0 \<or> now < k" "k = 0 \<or> b < k" "True \<longrightarrow> a"
          "a \<longrightarrow> b \<le> now \<or> True \<and> b = next" by blast
      have "resetLoop zone plan endTime now base next advanced = Some (b, k, a)"
        using True loop by (subst resetLoop.simps) simp
      with r True show ?thesis by auto
    qed
  qed
qed



text \<open>
  A custom period of 18446744074 seconds, which the plan's validation accepts, wraps to 0.29
  seconds: the next reset is cut down to the base itself.
\<close>

definition wrappingPlan :: SubscriptionPlan where
  "wrappingPlan = demoPlan\<lparr>sp_QuotaResetPeriod := ''custom'', sp_QuotaResetCustomSeconds := 18446744074\<rparr>"

lemma wrappingPlan_next: "nextResetOf zone base wrappingPlan = Some base"
proof -
  have "NormalizeResetPeriod ''custom'' = ''custom''" by code_simp
  then show ?thesis
    by (cases "dateOfDays (localDay zone base)")
       (simp add: nextResetOf_def wrappingPlan_def demoPlan_def Let_def AddDuration_def Duration_def
         wrap64_def Second_def)
qed

lemma resetLoop_wraps:
  assumes "resetLoop zone plan endTime now base next advanced = Some r"
  shows "\<not> (plan = wrappingPlan \<and> 0 < next \<and> next \<le> now \<and> (endTime \<le> 0 \<or> next \<le> endTime))"
proof (rule resetLoop.raw_induct [OF _ assms, where P = "\<lambda>zone plan endTime now base nx advanced r.
    \<not> (plan = wrappingPlan \<and> 0 < nx \<and> nx \<le> now \<and> (endTime \<le> 0 \<or> nx \<le> endTime))"], goal_cases)
  case (1 loop zone plan endTime now base nextReset advanced r)
  have self: "calcNextResetTime zone nextReset wrappingPlan endTime = nextReset"
    if "0 < nextReset" "endTime \<le> 0 \<or> nextReset \<le> endTime"
    using that by (auto simp: calcNextResetTime_def wrappingPlan_next)
  show ?case
  proof
    assume w: "plan = wrappingPlan \<and> 0 < nextReset \<and> nextReset \<le> now \<and>
        (endTime \<le> 0 \<or> nextReset \<le> endTime)"
    with 1(2) self have "loop zone wrappingPlan endTime now nextReset nextReset True = Some r" by simp
    from 1(1) [OF this] w show False by simp
  qed
qed

text \<open>
  C13. The catch-up loop does not end for that plan: for every time of the last reset, the loop
  of the pre-consume transaction runs for ever (its value is \<open>None\<close>).
\<close>

theorem reset_catch_up_diverges:
  assumes "0 < base" "base \<le> now" "endTime \<le> 0 \<or> base \<le> endTime"
  shows "resetLoop zone wrappingPlan endTime now base (calcNextResetTime zone base wrappingPlan endTime) False = None"
proof -
  have "calcNextResetTime zone base wrappingPlan endTime = base"
    using assms by (auto simp: calcNextResetTime_def wrappingPlan_next)
  with assms resetLoop_wraps [of zone wrappingPlan endTime now base base False]
  show ?thesis by (cases "resetLoop zone wrappingPlan endTime now base base False") auto
qed

theorem reset_catch_up_diverges_witness:
  "resetLoop 28800 wrappingPlan 0 1700000000 1690000000
     (calcNextResetTime 28800 1690000000 wrappingPlan 0) False = None"
  by (rule reset_catch_up_diverges) simp_all

section \<open>A subscription is never overdrawn\<close>

definition sub_ok :: "UserSubscription \<Rightarrow> bool" where
  "sub_ok x \<longleftrightarrow> 0 \<le> us_AmountUsed x \<and> (us_AmountTotal x > 0 \<longrightarrow> us_AmountUsed x \<le> us_AmountTotal x)"

definition subs_ok :: "store \<Rightarrow> bool" where
  "subs_ok s \<longleftrightarrow> (\<forall>x \<in> set (subscriptions s). sub_ok x)"

lemma subs_ok_cong: "subscriptions t = subscriptions s \<Longrightarrow> subs_ok t = subs_ok s"
  by (simp add: subs_ok_def)

lemma keeps_saveSubscription: "sub_ok sub \<Longrightarrow> keeps subs_ok (saveSubscription now sub)"
  unfolding saveSubscription_def
  by (rule keepsI) (auto intro!: wp_intro simp: subs_ok_def ball_updateWhere sub_ok_def)

lemma yields_firstSub: "yields subs_ok sub_ok (firstRow subscriptions P)"
  by (rule yieldsI) (auto simp: subs_ok_def)

lemma keeps_subs_getPlan [keeps_intro]: "keeps I (getSubscriptionPlanById planCache pid)"
  unfolding getSubscriptionPlanById_def by (intro keeps_intro)

lemma yields_maybeReset:
  assumes "sub_ok sub"
  shows "yields subs_ok sub_ok (maybeResetUserSubscriptionWithPlanTx zone dbnow now sub plan)"
proof -
  have save: "yields subs_ok sub_ok (bindE (saveSubscription now x) (\<lambda>_. ret (x\<lparr>us_UpdatedAt := now\<rparr>)))"
    if "sub_ok x" for x
    using keeps_saveSubscription [OF that] that
    by (intro yields_bind_yields [where R = "\<lambda>_. True"])
       (auto simp: yields_def keeps_def sub_ok_def split: sum.splits elim!: wp_mono)
  show ?thesis
    unfolding maybeResetUserSubscriptionWithPlanTx_def Let_def
    using assms
    by (auto intro!: save simp: yields_simps sub_ok_def split: option.splits)
qed

lemma keeps_stmt_frame:
  "(\<And>s a t. f s = Inr (a, t) \<Longrightarrow> I s \<Longrightarrow> I t) \<Longrightarrow> keeps I (stmt f)"
  by (rule keepsI) (auto split: sum.splits)

lemma keeps_consumeFrom:
  assumes "sub_ok sub" "0 < amount" "\<not> (us_AmountTotal sub > 0 \<and> us_AmountTotal sub - us_AmountUsed sub < amount)"
  shows "keeps subs_ok (consumeFrom now requestId userId amount sub)"
proof -
  have "keeps subs_ok (createPreConsume r)" for r
    unfolding createPreConsume_def by (rule keeps_stmt_frame) (auto simp: subs_ok_def split: if_splits)
  moreover have "sub_ok (sub\<lparr>us_AmountUsed := us_AmountUsed sub + amount\<rparr>)"
    using assms by (auto simp: sub_ok_def)
  ultimately show ?thesis
    unfolding consumeFrom_def by (intro keeps_intro keeps_saveSubscription)
qed

lemma keeps_preConsumeFrom:
  "0 < amount \<Longrightarrow> list_all sub_ok subs \<Longrightarrow>
   keeps subs_ok (preConsumeFrom zone dbnow now planCache requestId userId amount subs)"
proof (induction subs)
  case (Cons x xs)
  then show ?case
    by (auto intro!: keeps_bindE keeps_subs_getPlan keeps_bind_yields [OF yields_maybeReset]
        keeps_if keeps_consumeFrom)
qed (simp add: keeps_fail)

lemma keeps_PreConsume: "keeps subs_ok (PreConsumeUserSubscription zone dbnow now planCache requestId userId amount)"
proof -
  have subs: "yields subs_ok (\<lambda>r. case r of Inl _ \<Rightarrow> True | Inr subs \<Rightarrow> list_all sub_ok subs)
      (attempt (query (\<lambda>s. Inr (sort_key us_EndTime (sort_key us_Id (filter (activeAt dbnow userId) (subscriptions s)))))))"
    by (rule yieldsI) (auto simp: subs_ok_def list_all_iff)
  have "keeps subs_ok (preConsumeTx zone dbnow now planCache requestId userId amount)" if "0 < amount"
    unfolding preConsumeTx_def
    by (intro keeps_intro keeps_bind_yields [OF subs]) 
       (auto intro!: keeps_preConsumeFrom that keeps_fail split: sum.splits)
  then show ?thesis
    unfolding PreConsumeUserSubscription_def by (intro keeps_intro) auto
qed

lemma keeps_PostConsume: "keeps subs_ok (PostConsumeUserSubscriptionDelta now sid delta)"
proof -
  have "keeps subs_ok (postConsumeTx now sid delta)"
    unfolding postConsumeTx_def Let_def
    by (rule keeps_bind_yields [OF yields_firstSub])
       (auto intro!: keeps_fail keeps_saveSubscription simp: sub_ok_def)
  then show ?thesis
    unfolding PostConsumeUserSubscriptionDelta_def by (intro keeps_intro)
qed

lemma keeps_savePreConsume: "keeps subs_ok (savePreConsume now r)"
  unfolding savePreConsume_def
  by (rule keepsI) (auto intro!: wp_intro simp: subs_ok_def)

lemma keeps_RefundPreConsume: "keeps subs_ok (RefundSubscriptionPreConsume now requestId)"
  unfolding RefundSubscriptionPreConsume_def
  by (intro keeps_intro keeps_PostConsume keeps_savePreConsume)

lemma keeps_resetOneTx: "keeps subs_ok (resetOneTx zone dbnow now plan sid)"
proof -
  have found: "yields subs_ok (\<lambda>r. case r of Inl _ \<Rightarrow> True | Inr sub \<Rightarrow> sub_ok sub)
      (attempt (firstRow subscriptions P))" for P
    by (rule yieldsI) (auto simp: subs_ok_def)
  have step: "keeps subs_ok (bindE (maybeResetUserSubscriptionWithPlanTx zone dbnow now sub plan) (\<lambda>_. ret True))"
    if "sub_ok sub" for sub
    by (rule keeps_bind_yields [OF yields_maybeReset [OF that]]) (rule keeps_ret)
  show ?thesis
    unfolding resetOneTx_def
    by (rule keeps_bind_yields [OF found]) (auto intro!: keeps_ret step split: sum.splits)
qed

lemma keeps_resetSubscriptions:
  "keeps subs_ok (resetSubscriptions zone dbnow now planCache subs n)"
proof (induction subs arbitrary: n)
  case (Cons sub subs)
  have body: "keeps subs_ok (transaction (resetOneTx zone dbnow now p (us_Id sub)))" for p
    by (intro keeps_intro keeps_resetOneTx)
  have "keeps subs_ok (\<lambda>c. let body = resetOneTx zone dbnow now p (us_Id sub); k = countedReset body c in
           case transaction body c of
             (Inl err, c1) \<Rightarrow> (Inr (n + k, Some err), c1)
           | (Inr _, c1) \<Rightarrow> resetSubscriptions zone dbnow now planCache subs (n + k) c1)" for p
  proof (rule keepsI, rule wpI)
    fix s c r c'
    assume "subs_ok s" and c: "db c = s"
      and run: "(let body = resetOneTx zone dbnow now p (us_Id sub); k = countedReset body c in
           case transaction body c of
             (Inl err, c1) \<Rightarrow> (Inr (n + k, Some err), c1)
           | (Inr _, c1) \<Rightarrow> resetSubscriptions zone dbnow now planCache subs (n + k) c1) = (r, c')"
    obtain r1 c1 where tx: "transaction (resetOneTx zone dbnow now p (us_Id sub)) c = (r1, c1)" by fastforce
    then have "subs_ok (db c1)" using keepsD [OF body _ tx] \<open>subs_ok s\<close> c by simp
    with run tx show "subs_ok (db c')"
      by (auto simp: Let_def dest: keepsD [OF Cons.IH] split: sum.splits)
  qed
  then show ?case
    unfolding resetSubscriptions.simps by (intro keeps_intro Cons.IH)
qed (simp add: keeps_ret)

lemma keeps_ResetDue: "keeps subs_ok (ResetDueSubscriptions zone dbnow now planCache limit)"
  unfolding ResetDueSubscriptions_def by (intro keeps_intro keeps_resetSubscriptions)

lemma keeps_downgrade: "keeps subs_ok (downgradeAfterExpiry dbnow userId)"
proof -
  have "keeps subs_ok (setUserGroup uid g)" for uid g
    unfolding setUserGroup_def by (rule keepsI) (auto intro!: wp_intro simp: subs_ok_def)
  moreover have "keeps subs_ok (getUserGroupByIdTx uid)" for uid
    unfolding getUserGroupByIdTx_def by (intro keeps_intro)
  ultimately show ?thesis
    unfolding downgradeAfterExpiry_def Let_def
    by (auto intro!: keeps_intro split: sum.splits list.splits)
qed

lemma keeps_expireUserTx: "keeps subs_ok (expireUserTx dbnow now userId)"
  unfolding expireUserTx_def
  by (intro keeps_intro keeps_downgrade)
     (rule keepsI, auto simp: subs_ok_def ball_updateWhere sub_ok_def)

lemma keeps_expireUsers: "keeps subs_ok (expireUsers dbnow now ids n)"
proof (induction ids arbitrary: n)
  case (Cons userId ids)
  have body: "keeps subs_ok (transaction (expireUserTx dbnow now userId))"
    by (intro keeps_intro keeps_expireUserTx)
  show ?case
  proof (rule keepsI, rule wpI)
    fix s c r c'
    assume "subs_ok s" and c: "db c = s" and run: "expireUsers dbnow now (userId # ids) n c = (r, c')"
    obtain r1 c1 where tx: "transaction (expireUserTx dbnow now userId) c = (r1, c1)" by fastforce
    then have "subs_ok (db c1)" using keepsD [OF body _ tx] \<open>subs_ok s\<close> c by simp
    with run tx show "subs_ok (db c')"
      by (auto simp: Let_def dest: keepsD [OF Cons.IH] split: sum.splits outcome.splits prod.splits)
  qed
qed (simp add: keeps_ret)

lemma keeps_ExpireDue: "keeps subs_ok (ExpireDueSubscriptions dbnow now limit)"
  unfolding ExpireDueSubscriptions_def Let_def by (intro keeps_intro keeps_expireUsers)

lemma keeps_createFromPlan:
  "keeps subs_ok (CreateUserSubscriptionFromPlanTx zone dbnow now userId plan source)"
proof -
  have "keeps subs_ok (setUserGroup uid g)" for uid g
    unfolding setUserGroup_def by (rule keepsI) (auto intro!: wp_intro simp: subs_ok_def)
  moreover have "keeps subs_ok (getUserGroupByIdTx uid)" for uid
    unfolding getUserGroupByIdTx_def by (intro keeps_intro)
  moreover have "us_AmountUsed sub = 0 \<Longrightarrow> keeps subs_ok (createSubscription sub)" for sub
    unfolding createSubscription_def
    by (rule keepsI) (auto simp: Let_def subs_ok_def sub_ok_def)
  ultimately show ?thesis
    unfolding CreateUserSubscriptionFromPlanTx_def Let_def
    by (auto intro!: keeps_intro split: sum.splits)
qed

lemma keeps_subs_frame [intro]:
  "keeps subs_ok (saveOrder so)" "keeps subs_ok (createOrder so)" "keeps subs_ok (saveTopUp t)"
  "keeps subs_ok (createTopUp t)" "keeps subs_ok (updateUser uid f)"
  by (rule keepsI; auto intro!: wp_intro simp: subs_ok_def saveOrder_def createOrder_def saveTopUp_def
      createTopUp_def Let_def)+

lemma keeps_CompleteOrder:
  "keeps subs_ok (CompleteSubscriptionOrder zone dbnow now planCache tradeNo payload provider payMethod)"
proof -
  have "keeps subs_ok (upsertSubscriptionTopUpTx now so)" for so
    unfolding upsertSubscriptionTopUpTx_def Let_def
    by (auto intro!: keeps_intro split: sum.splits)
  moreover have "keeps subs_ok (orderByTradeNo tn)" for tn
    unfolding orderByTradeNo_def by (intro keeps_intro)
  ultimately show ?thesis
    unfolding CompleteSubscriptionOrder_def completeOrderTx_def
    by (auto intro!: keeps_intro keeps_createFromPlan)
qed

lemma keeps_Purchase:
  "keeps subs_ok (PurchaseSubscriptionWithBalance dec unit zone dbnow now planCache tradeNo userId planId)"
  unfolding PurchaseSubscriptionWithBalance_def purchaseTx_def
  by (auto intro!: keeps_intro keeps_createFromPlan split: sum.splits)

lemma keeps_AdminBind: "keeps subs_ok (AdminBindSubscription zone dbnow now planCache userId planId)"
  unfolding AdminBindSubscription_def by (intro keeps_intro keeps_createFromPlan)

text \<open>The calls that create subscriptions or change what they have used.\<close>

datatype subCall =
    SPreConsume string int int
  | SRefund string
  | SPost int int
  | SResetDue int
  | SExpireDue int
  | SComplete string string string string
  | SPurchase string int int
  | SBind int int

record subEnv =
  se_dec :: "float64 \<Rightarrow> rat"
  se_unit :: float64
  se_zone :: int
  se_planCache :: "int \<Rightarrow> SubscriptionPlan option"

definition discard :: "('s, 'a) act \<Rightarrow> ('s, unit) act" where
  "discard m = bindE m (\<lambda>_. ret ())"

fun runSubCall :: "subEnv \<Rightarrow> int \<Rightarrow> int \<Rightarrow> subCall \<Rightarrow> (store, unit) act" where
  "runSubCall e dbnow now (SPreConsume requestId userId amount) =
     discard (PreConsumeUserSubscription (se_zone e) dbnow now (se_planCache e) requestId userId amount)"
| "runSubCall e dbnow now (SRefund requestId) = RefundSubscriptionPreConsume now requestId"
| "runSubCall e dbnow now (SPost sid delta) = PostConsumeUserSubscriptionDelta now sid delta"
| "runSubCall e dbnow now (SResetDue limit) =
     discard (ResetDueSubscriptions (se_zone e) dbnow now (se_planCache e) limit)"
| "runSubCall e dbnow now (SExpireDue limit) = discard (ExpireDueSubscriptions dbnow now limit)"
| "runSubCall e dbnow now (SComplete tradeNo payload provider payMethod) =
     CompleteSubscriptionOrder (se_zone e) dbnow now (se_planCache e) tradeNo payload provider payMethod"
| "runSubCall e dbnow now (SPurchase tradeNo userId planId) =
     PurchaseSubscriptionWithBalance (se_dec e) (se_unit e) (se_zone e) dbnow now (se_planCache e)
       tradeNo userId planId"
| "runSubCall e dbnow now (SBind userId planId) =
     discard (AdminBindSubscription (se_zone e) dbnow now (se_planCache e) userId planId)"

lemma keeps_runSubCall: "keeps subs_ok (runSubCall e dbnow now call)"
  by (cases call)
     (auto simp: discard_def intro!: keeps_bindE keeps_ret keeps_PreConsume keeps_RefundPreConsume
       keeps_PostConsume keeps_ResetDue keeps_ExpireDue keeps_CompleteOrder keeps_Purchase keeps_AdminBind)

text \<open>
  C3. No subscription is ever overdrawn: from a database where every subscription's used amount
  is between zero and its total (if it has one), any sequence of purchases, pre-consumptions,
  settlements, refunds, resets and expiries, with any failures, keeps it so.
\<close>

theorem subscriptions_never_overdrawn:
  assumes "subs_ok (db c)"
  shows "subs_ok (db (snd (runAll (map (\<lambda>(dbnow, now, call). runSubCall e dbnow now call) calls) c)))"
  using assms by (intro runAll_map_keeps [where I = subs_ok] keeps_case_prod keeps_runSubCall)

definition demoSub :: UserSubscription where
  "demoSub =
     \<lparr>us_Id = 9, us_UserId = 7, us_PlanId = 4, us_AmountTotal = 1000, us_AmountUsed = 300,
      us_StartTime = 1690000000, us_EndTime = 1800000000, us_Status = ''active'', us_Source = ''order'',
      us_LastResetTime = 1690000000, us_NextResetTime = 1790000000, us_UpgradeGroup = [],
      us_PrevUserGroup = [], us_CreatedAt = 0, us_UpdatedAt = 0\<rparr>"

definition demoEnv :: subEnv where
  "demoEnv = \<lparr>se_dec = (\<lambda>_. 0), se_unit = 0, se_zone = 28800, se_planCache = (\<lambda>_. Some demoPlan)\<rparr>"

theorem subscriptions_never_overdrawn_witness:
  "subs_ok (db (snd (runAll
        (map (\<lambda>(dbnow, now, call). runSubCall demoEnv dbnow now call)
          [(1700000000, 1700000000, SPreConsume ''r1'' 7 100), (1700000001, 1700000001, SPost 9 5000),
           (1700000002, 1700000002, SRefund ''r1'')])
        \<lparr>db = demoStore\<lparr>subscriptions := [demoSub]\<rparr>, faults = [Good, Good, Lost]\<rparr>)))"
  by (rule subscriptions_never_overdrawn) (simp add: subs_ok_def sub_ok_def demoSub_def)

section \<open>A request consumes once\<close>

lemma wp_preConsumeTx_recorded:
  assumes "r \<in> set (preConsumes s)" "sr_RequestId r = requestId"
  shows "wp (preConsumeTx zone dbnow now planCache requestId userId amount) (\<lambda>_ t. t = s) s"
proof -
  obtain r0 where "findRow (\<lambda>r. sr_RequestId r = requestId) (preConsumes s) = Some r0"
    using assms findRow_None [of "\<lambda>r. sr_RequestId r = requestId" "preConsumes s"]
    by (cases "findRow (\<lambda>r. sr_RequestId r = requestId) (preConsumes s)") auto
  then show ?thesis
    unfolding preConsumeTx_def by (auto intro!: wp_intro)
qed

text \<open>
  C10. A request consumes a subscription once: when its pre-consumption is recorded, repeating it
  (also with another amount or after a refund) changes nothing, whatever fails.
\<close>

theorem preconsume_idempotent:
  assumes "sr_RequestId r = requestId" "r \<in> set (preConsumes (db c))"
  shows "db (snd (runAll (map (\<lambda>(dbnow, now, userId, amount).
      PreConsumeUserSubscription zone dbnow now planCache requestId userId amount) calls) c)) = db c"
proof (rule runAll_map_keeps [where I = "\<lambda>t. t = db c"])
  fix x :: "int \<times> int \<times> int \<times> int"
  have "keeps (\<lambda>t. t = db c) (PreConsumeUserSubscription zone dbnow now planCache requestId userId amount)"
    for dbnow now userId amount
    unfolding PreConsumeUserSubscription_def
    by (intro keeps_intro) (auto intro!: keepsI wp_preConsumeTx_recorded [OF assms(2,1)])
  then show "keeps (\<lambda>t. t = db c) (case x of (dbnow, now, userId, amount) \<Rightarrow>
      PreConsumeUserSubscription zone dbnow now planCache requestId userId amount)"
    by (intro keeps_case_prod)
qed simp

definition demoPreConsume :: SubscriptionPreConsumeRecord where
  "demoPreConsume =
     \<lparr>sr_Id = 1, sr_RequestId = ''r1'', sr_UserId = 7, sr_UserSubscriptionId = 9, sr_PreConsumed = 100,
      sr_Status = ''consumed'', sr_CreatedAt = 0, sr_UpdatedAt = 0\<rparr>"

theorem preconsume_idempotent_witness:
  "db (snd (runAll (map (\<lambda>(dbnow, now, userId, amount).
      PreConsumeUserSubscription 28800 dbnow now (\<lambda>_. Some demoPlan) ''r1'' userId amount)
        [(1700000000, 1700000000, 7, 100), (1700000001, 1700000001, 7, 200)])
      \<lparr>db = demoStore\<lparr>subscriptions := [demoSub], preConsumes := [demoPreConsume]\<rparr>, faults = []\<rparr>))
   = demoStore\<lparr>subscriptions := [demoSub], preConsumes := [demoPreConsume]\<rparr>"
  by (subst preconsume_idempotent [of demoPreConsume]) (simp_all add: demoPreConsume_def)

end
