(* ===== verification/Keys.thy ===== *)
theory Keys
  imports Tokens
begin

unbundle bit_operations_syntax

text \<open>
  API key material, \<open>server/common/key.go\<close>: generation of a key from 32 random bytes, the
  check of its form, and its hash. Of the standard library: SHA-256, hexadecimal and raw URL-safe
  base64 (strict decoding), all executable.
\<close>

section \<open>SHA-256\<close>

definition sha256K :: "32 word list" where
  "sha256K =
     [1116352408, 1899447441, 3049323471, 3921009573, 961987163, 1508970993, 2453635748, 2870763221,
      3624381080, 310598401, 607225278, 1426881987, 1925078388, 2162078206, 2614888103, 3248222580,
      3835390401, 4022224774, 264347078, 604807628, 770255983, 1249150122, 1555081692, 1996064986,
      2554220882, 2821834349, 2952996808, 3210313671, 3336571891, 3584528711, 113926993, 338241895,
      666307205, 773529912, 1294757372, 1396182291, 1695183700, 1986661051, 2177026350, 2456956037,
      2730485921, 2820302411, 3259730800, 3345764771, 3516065817, 3600352804, 4094571909, 275423344,
      430227734, 506948616, 659060556, 883997877, 958139571, 1322822218, 1537002063, 1747873779,
      1955562222, 2024104815, 2227730452, 2361852424, 2428436474, 2756734187, 3204031479, 3329325298]"

type_synonym shaState = "32 word list"

definition sha256Init :: shaState where
  "sha256Init =
     [1779033703, 3144134277, 1013904242, 2773480762, 1359893119, 2600822924, 528734635, 1541459225]"

definition bigEndian :: "nat \<Rightarrow> nat \<Rightarrow> string" where
  "bigEndian k n = map (\<lambda>i. char_of (n div 256 ^ i)) (rev [0..<k])"

definition sha256Pad :: "string \<Rightarrow> string" where
  "sha256Pad m =
     m @ [CHR 0x80] @ replicate ((119 - length m mod 64) mod 64) (CHR 0x00) @ bigEndian 8 (8 * length m)"

definition wordOf :: "string \<Rightarrow> 32 word" where
  "wordOf bs = foldl (\<lambda>w c. 256 * w + of_nat (of_char c)) 0 bs"

fun chunks :: "nat \<Rightarrow> nat \<Rightarrow> 'a list \<Rightarrow> 'a list list" where
  "chunks 0 n xs = []"
| "chunks (Suc k) n xs = take n xs # chunks k n (drop n xs)"

fun shaExtend :: "nat \<Rightarrow> 32 word list \<Rightarrow> 32 word list" where
  "shaExtend 0 w = w"
| "shaExtend (Suc k) w =
     (let n = length w; x = w ! (n - 15); y = w ! (n - 2);
          s0 = word_rotr 7 x XOR word_rotr 18 x XOR drop_bit 3 x;
          s1 = word_rotr 17 y XOR word_rotr 19 y XOR drop_bit 10 y
      in shaExtend k (w @ [w ! (n - 16) + s0 + w ! (n - 7) + s1]))"

fun shaRound :: "shaState \<Rightarrow> 32 word \<times> 32 word \<Rightarrow> shaState" where
  "shaRound [a, b, c, d, e, f, g, h] (k, w) =
     (let s1 = word_rotr 6 e XOR word_rotr 11 e XOR word_rotr 25 e;
          ch = (e AND f) XOR (NOT e AND g);
          t1 = h + s1 + ch + k + w;
          s0 = word_rotr 2 a XOR word_rotr 13 a XOR word_rotr 22 a;
          maj = (a AND b) XOR (a AND c) XOR (b AND c);
          t2 = s0 + maj
      in [t1 + t2, a, b, c, d + t1, e, f, g])"
| "shaRound st kw = st"

definition shaBlock :: "shaState \<Rightarrow> string \<Rightarrow> shaState" where
  "shaBlock st bytes =
     (let w = shaExtend 48 (map wordOf (chunks 16 4 bytes))
      in map2 (+) st (foldl shaRound st (zip sha256K w)))"

definition sha256 :: "string \<Rightarrow> string" where
  "sha256 m =
     (let p = sha256Pad m
      in concat (map (\<lambda>w. bigEndian 4 (unat w))
           (foldl shaBlock sha256Init (chunks (length p div 64) 64 p))))"

section \<open>Hexadecimal\<close>

definition hexDigit :: "nat \<Rightarrow> char" where
  "hexDigit d = char_of (if d < 10 then 48 + d else 87 + d)"

definition hexEncode :: "string \<Rightarrow> string" where
  "hexEncode s = concat (map (\<lambda>c. [hexDigit (of_char c div 16), hexDigit (of_char c mod 16)]) s)"

definition HashZTAPIKey :: "string \<Rightarrow> string" where
  "HashZTAPIKey plaintext = hexEncode (sha256 plaintext)"

section \<open>Raw URL-safe base64\<close>

definition b64Alphabet :: string where
  "b64Alphabet = ''ABCDEFGHIJKLMNOPQRSTUVWXYZabcdefghijklmnopqrstuvwxyz0123456789-_''"

definition b64Char :: "nat \<Rightarrow> char" where
  "b64Char d = b64Alphabet ! d"

text \<open>\<open>EncodeToString\<close>: three bytes to four digits; one or two left-over bytes to two or three.\<close>

fun b64Encode :: "nat list \<Rightarrow> string" where
  "b64Encode (a # b # c # r) =
     [b64Char (a div 4), b64Char (a mod 4 * 16 + b div 16),
      b64Char (b mod 16 * 4 + c div 64), b64Char (c mod 64)] @ b64Encode r"
| "b64Encode [a, b] =
     [b64Char (a div 4), b64Char (a mod 4 * 16 + b div 16), b64Char (b mod 16 * 4)]"
| "b64Encode [a] = [b64Char (a div 4), b64Char (a mod 4 * 16)]"
| "b64Encode [] = []"

fun b64Index :: "char \<Rightarrow> string \<Rightarrow> nat option" where
  "b64Index c [] = None"
| "b64Index c (x # xs) = (if x = c then Some 0 else map_option Suc (b64Index c xs))"

definition b64Value :: "char \<Rightarrow> nat option" where
  "b64Value c = b64Index c b64Alphabet"

text \<open>
  \<open>Strict().DecodeString\<close>: carriage returns and line feeds are skipped, every other character
  has to be a digit, and the unused bits of a last group have to be zero.
\<close>

fun b64Groups :: "nat list \<Rightarrow> nat list option" where
  "b64Groups (a # b # c # d # r) =
     map_option (\<lambda>t. [a * 4 + b div 16, b mod 16 * 16 + c div 4, c mod 4 * 64 + d] @ t) (b64Groups r)"
| "b64Groups [a, b, c] =
     (if c mod 4 = 0 then Some [a * 4 + b div 16, b mod 16 * 16 + c div 4] else None)"
| "b64Groups [a, b] = (if b mod 16 = 0 then Some [a * 4 + b div 16] else None)"
| "b64Groups [a] = None"
| "b64Groups [] = Some []"

definition b64Decode :: "string \<Rightarrow> nat list option" where
  "b64Decode s =
     (let ds = map b64Value (filter (\<lambda>c. c \<noteq> CHR 0x0D \<and> c \<noteq> CHR 0x0A) s)
      in if None \<in> set ds then None else b64Groups (map the ds))"

definition b64EncodedLen :: "nat \<Rightarrow> nat" where
  "b64EncodedLen n = (n * 8 + 5) div 6"

section \<open>Keys\<close>

definition ztAPIKeyPrefix :: string where "ztAPIKeyPrefix = ''sk-zt-''"
definition ztAPIKeyRawSize :: nat where "ztAPIKeyRawSize = 32"

definition IsValidZTAPIKey :: "string \<Rightarrow> bool" where
  "IsValidZTAPIKey plaintext =
     (if \<not> HasPrefix plaintext ztAPIKeyPrefix then False
      else let encoded = drop (length ztAPIKeyPrefix) plaintext in
      if length encoded \<noteq> b64EncodedLen ztAPIKeyRawSize then False
      else (case b64Decode encoded of
              None \<Rightarrow> False
            | Some raw \<Rightarrow> length raw = ztAPIKeyRawSize))"

text \<open>\<open>random\<close> is what \<open>rand.Read\<close> filled the buffer with, \<open>None\<close> when it fails.\<close>

definition GenerateZTAPIKey :: "nat list option \<Rightarrow> (string \<times> string \<times> string) option" where
  "GenerateZTAPIKey random =
     (case random of
        None \<Rightarrow> None
      | Some raw \<Rightarrow>
          let plaintext = ztAPIKeyPrefix @ b64Encode raw
          in Some (plaintext, HashZTAPIKey plaintext, take 12 plaintext))"

lemma b64Value_Char: "d < 64 \<Longrightarrow> b64Value (b64Char d) = Some d"
proof -
  have "\<forall>d < 64. b64Value (b64Char d) = Some d"
    by (code_simp)
  then show "d < 64 \<Longrightarrow> b64Value (b64Char d) = Some d" by blast
qed

lemma b64Char_no_break: "d < 64 \<Longrightarrow> b64Char d \<noteq> CHR 0x0D \<and> b64Char d \<noteq> CHR 0x0A"
proof -
  have "\<forall>d < 64. b64Char d \<noteq> CHR 0x0D \<and> b64Char d \<noteq> CHR 0x0A"
    by (code_simp)
  then show "d < 64 \<Longrightarrow> ?thesis" by blast
qed

text \<open>Decoding inverts encoding, digit by digit.\<close>

fun b64Digits :: "nat list \<Rightarrow> nat list" where
  "b64Digits (a # b # c # r) =
     [a div 4, a mod 4 * 16 + b div 16, b mod 16 * 4 + c div 64, c mod 64] @ b64Digits r"
| "b64Digits [a, b] = [a div 4, a mod 4 * 16 + b div 16, b mod 16 * 4]"
| "b64Digits [a] = [a div 4, a mod 4 * 16]"
| "b64Digits [] = []"

lemma b64Encode_digits: "b64Encode bs = map b64Char (b64Digits bs)"
  by (induction bs rule: b64Digits.induct) auto

lemma b64Digits_bound: "\<forall>b \<in> set bs. b < 256 \<Longrightarrow> d \<in> set (b64Digits bs) \<Longrightarrow> d < 64"
  by (induction bs rule: b64Digits.induct) (auto simp: less_mult_imp_div_less)

lemma b64_group_bytes:
  fixes a b c :: nat
  assumes "a < 256" "b < 256" "c < 256"
  shows "a div 4 * 4 + (a mod 4 * 16 + b div 16) div 16 = a"
    "(a mod 4 * 16 + b div 16) mod 16 * 16 + (b mod 16 * 4 + c div 64) div 4 = b"
    "(b mod 16 * 4 + c div 64) mod 4 * 64 + c mod 64 = c"
    "b mod 16 * 4 div 4 = b mod 16" "a div 4 * 4 + a mod 4 * 16 div 16 = a"
proof -
  have x: "b div 16 < 16" "c div 64 < 4" using assms by (simp_all add: less_mult_imp_div_less)
  have "(a mod 4 * 16 + b div 16) div 16 = a mod 4" "(a mod 4 * 16 + b div 16) mod 16 = b div 16"
    using x by simp_all
  moreover have "(b mod 16 * 4 + c div 64) div 4 = b mod 16" "(b mod 16 * 4 + c div 64) mod 4 = c div 64"
    using x by simp_all
  ultimately show "a div 4 * 4 + (a mod 4 * 16 + b div 16) div 16 = a"
    "(a mod 4 * 16 + b div 16) mod 16 * 16 + (b mod 16 * 4 + c div 64) div 4 = b"
    "(b mod 16 * 4 + c div 64) mod 4 * 64 + c mod 64 = c"
    "b mod 16 * 4 div 4 = b mod 16" "a div 4 * 4 + a mod 4 * 16 div 16 = a"
    by simp_all
qed

lemma b64Groups_Digits: "\<forall>b \<in> set bs. b < 256 \<Longrightarrow> b64Groups (b64Digits bs) = Some bs"
proof (induction bs rule: b64Digits.induct)
  case (1 a b c r)
  then show ?case using b64_group_bytes [of a b c] by simp
next
  case (2 a b)
  then show ?case using b64_group_bytes [of a b 0] by simp
next
  case (3 a)
  then show ?case using b64_group_bytes [of a 0 0] by simp
qed simp

lemma b64Decode_Encode:
  assumes "\<forall>b \<in> set bs. b < 256"
  shows "b64Decode (b64Encode bs) = Some bs"
proof -
  have d: "\<forall>d \<in> set (b64Digits bs). d < 64" using b64Digits_bound [OF assms] by blast
  have "filter (\<lambda>c. c \<noteq> CHR 0x0D \<and> c \<noteq> CHR 0x0A) (b64Encode bs) = b64Encode bs"
    using d b64Char_no_break by (auto simp: b64Encode_digits filter_id_conv)
  moreover have "map b64Value (b64Encode bs) = map Some (b64Digits bs)"
    using d b64Value_Char by (auto simp: b64Encode_digits)
  ultimately show ?thesis
    by (simp add: b64Decode_def b64Groups_Digits [OF assms] comp_def)
qed

lemma length_b64Encode: "length (b64Encode bs) = b64EncodedLen (length bs)"
  by (induction bs rule: b64Encode.induct) (auto simp: b64EncodedLen_def)

text \<open>
  C17. Every key the program generates passes its own check: from any 32 random bytes the key has
  the prefix and the 43 digits \<open>IsValidZTAPIKey\<close> asks for and decodes, strictly, to exactly
  those bytes, so different randomness gives different keys.
\<close>

theorem generated_key_valid:
  assumes "length raw = ztAPIKeyRawSize" "\<forall>b \<in> set raw. b < 256"
  shows "case GenerateZTAPIKey (Some raw) of
     None \<Rightarrow> False
   | Some (plaintext, h, prefix) \<Rightarrow>
       IsValidZTAPIKey plaintext \<and> b64Decode (drop 6 plaintext) = Some raw \<and>
       h = HashZTAPIKey plaintext \<and> HasPrefix plaintext prefix \<and> length prefix = 12"
proof -
  have d: "b64Decode (b64Encode raw) = Some raw" and l: "length (b64Encode raw) = b64EncodedLen 32"
    using assms by (simp_all add: ztAPIKeyRawSize_def b64Decode_Encode length_b64Encode)
  have p: "HasPrefix (ztAPIKeyPrefix @ b64Encode raw) ztAPIKeyPrefix"
    by (simp add: HasPrefix_append)
  have "HasPrefix (ztAPIKeyPrefix @ b64Encode raw) (take 12 (ztAPIKeyPrefix @ b64Encode raw))"
    unfolding HasPrefix_append by (metis append_take_drop_id)
  with assms d l p show ?thesis
    by (simp add: GenerateZTAPIKey_def IsValidZTAPIKey_def ztAPIKeyPrefix_def Let_def
        ztAPIKeyRawSize_def b64EncodedLen_def)
qed

theorem generated_key_valid_witness:
  "case GenerateZTAPIKey (Some (replicate 32 200)) of
     None \<Rightarrow> False
   | Some (plaintext, h, prefix) \<Rightarrow>
       IsValidZTAPIKey plaintext \<and> b64Decode (drop 6 plaintext) = Some (replicate 32 200) \<and>
       h = HashZTAPIKey plaintext \<and> HasPrefix plaintext prefix \<and> length prefix = 12"
  by (rule generated_key_valid) (simp_all add: ztAPIKeyRawSize_def)

end
