(* ===== verification/Session.thy ===== *)
theory Session
  imports Refund Subscription Keys
begin

text \<open>
  The billing of one relay request (package \<open>server/service\<close>): the two funding sources of
  \<open>funding_source.go\<close>, the session of \<open>billing_session.go\<close> that reserves, settles or
  refunds a request's quota, and the older calls of \<open>pre_consume_quota.go\<close>,
  \<open>billing.go\<close> and \<open>quota.go\<close> without a session.

  A method that changes its receiver returns the changed receiver together with the error it
  reports, since the changes made before an error stay. The environment holds the clock, the
  caches' contents and the UUIDs the calls draw.
\<close>

record billEnv =
  be_now :: int
  be_dbnow :: int
  be_zone :: int
  be_redis :: bool
  be_batch :: bool
  be_planCache :: "int \<Rightarrow> SubscriptionPlan option"
  be_infoCache :: "int \<Rightarrow> (int \<times> string) option"
  be_quotaCache :: "int \<Rightarrow> int option"
  be_operationUUID :: string
  be_requestUUID :: string

section \<open>State\<close>

record WalletFunding =
  wf_operationID :: string
  wf_requestId :: string
  wf_userId :: int
  wf_consumed :: int

record SubscriptionFunding =
  sf_requestId :: string
  sf_userId :: int
  sf_amount :: int
  sf_subscriptionId :: int
  sf_preConsumed :: int
  sf_AmountTotal :: int
  sf_AmountUsedAfter :: int
  sf_PlanId :: int
  sf_PlanTitle :: string

datatype FundingSource = WalletSource WalletFunding | SubscriptionSource SubscriptionFunding

text \<open>The fields of \<open>relaycommon.RelayInfo\<close> that billing reads and writes.\<close>

record RelayInfo =
  ri_UserId :: int
  ri_TokenId :: int
  ri_TokenKeyHash :: string
  ri_TokenUnlimited :: bool
  ri_RequestId :: string
  ri_UserQuota :: int
  ri_BillingPreference :: string
  ri_FinalPreConsumedQuota :: int
  ri_BillingSource :: string
  ri_SubscriptionId :: int
  ri_SubscriptionPreConsumed :: int
  ri_SubscriptionPostDelta :: int
  ri_SubscriptionAmountTotal :: int
  ri_SubscriptionAmountUsedAfterPreConsume :: int
  ri_SubscriptionPlanId :: int
  ri_SubscriptionPlanTitle :: string

record BillingSession =
  bs_relayInfo :: RelayInfo
  bs_funding :: FundingSource
  bs_operationID :: string
  bs_reserveSequence :: nat
  bs_preConsumedQuota :: int
  bs_tokenConsumed :: int
  bs_extraReserved :: int
  bs_fundingSettled :: bool
  bs_settled :: bool
  bs_tokenRefunded :: bool
  bs_fundingRefunded :: bool
  bs_extraRefunded :: bool
  bs_refunded :: bool

datatype errorCode =
    ErrorCodeInsufficientUserQuota | ErrorCodePreConsumeTokenQuotaFailed
  | ErrorCodeUpdateDataError | ErrorCodeQueryDataError

type_synonym apiError = "errorCode \<times> err"

abbreviation BillingSourceWallet :: string where "BillingSourceWallet \<equiv> ''wallet''"
abbreviation BillingSourceSubscription :: string where "BillingSourceSubscription \<equiv> ''subscription''"

definition fundingSource :: "FundingSource \<Rightarrow> string" where
  "fundingSource f =
     (case f of WalletSource _ \<Rightarrow> BillingSourceWallet | SubscriptionSource _ \<Rightarrow> BillingSourceSubscription)"

text \<open>A call whose error is handed to the caller with the receiver as it was.\<close>

definition reporting :: "('s, 'a) act \<Rightarrow> 'x \<Rightarrow> ('a \<Rightarrow> 'x) \<Rightarrow> ('s, 'x \<times> err option) act" where
  "reporting m x f =
     bindE (attempt m) (\<lambda>r. case r of Inl e \<Rightarrow> ret (x, Some e) | Inr a \<Rightarrow> ret (f a, None))"

section \<open>Helpers\<close>

definition billingRefundIdempotencyKey :: "string \<Rightarrow> string \<Rightarrow> string" where
  "billingRefundIdempotencyKey operationID kind =
     ''billing-refund:'' @ hexEncode (take 16 (sha256 (TrimSpace operationID))) @ '':'' @ kind"

definition queueAndProcessBillingRefund :: "billEnv \<Rightarrow> BillingRefundPending \<Rightarrow> (store, unit) act" where
  "queueAndProcessBillingRefund env candidate =
     bindE (EnsureBillingRefundPending (be_now env) candidate) (\<lambda>pending.
     ProcessBillingRefundPending (be_redis env) (be_now env) (br_ID pending))"

text \<open>The two refund requests the package makes, with Go's zero values elsewhere.\<close>

definition walletRefund :: "int \<Rightarrow> int \<Rightarrow> string \<Rightarrow> string \<Rightarrow> BillingRefundPending" where
  "walletRefund userId amount key requestId =
     \<lparr>br_ID = 0, br_UserID = userId, br_TokenID = 0, br_TokenKeyHash = [], br_Amount = amount,
      br_Kind = BillingRefundKindWallet, br_Status = [], br_IdempotencyKey = key,
      br_RequestID = requestId, br_Attempts = 0, br_LastError = None, br_CreatedAt = 0,
      br_UpdatedAt = 0, br_CompletedAt = None\<rparr>"

definition tokenRefund :: "RelayInfo \<Rightarrow> int \<Rightarrow> string \<Rightarrow> BillingRefundPending" where
  "tokenRefund info amount key =
     \<lparr>br_ID = 0, br_UserID = ri_UserId info, br_TokenID = ri_TokenId info,
      br_TokenKeyHash = ri_TokenKeyHash info, br_Amount = amount, br_Kind = BillingRefundKindToken,
      br_Status = [], br_IdempotencyKey = key, br_RequestID = ri_RequestId info, br_Attempts = 0,
      br_LastError = None, br_CreatedAt = 0, br_UpdatedAt = 0, br_CompletedAt = None\<rparr>"

definition PreConsumeTokenQuota :: "billEnv \<Rightarrow> RelayInfo \<Rightarrow> int \<Rightarrow> (store, unit) act" where
  "PreConsumeTokenQuota env info quota =
     (if quota < 0 then fail ErrNegativeQuota
      else if ri_TokenUnlimited info then ret ()
      else DecreaseTokenQuota (be_now env) (ri_TokenId info) quota)"

section \<open>The wallet\<close>

text \<open>
  A debit that was applied but could not invalidate the cache is repeated once; the second
  call finds the entry by its key, and its error is only logged.
\<close>

definition applyWalletBalanceMutation ::
  "(store, BalanceLedger \<times> bool \<times> err option) act \<Rightarrow> (store, unit) act" where
  "applyWalletBalanceMutation mutation =
     bindE mutation (\<lambda>(entry, applied, syncErr).
       case syncErr of
         None \<Rightarrow> ret ()
       | Some e \<Rightarrow> if e \<noteq> ErrBalanceLedgerCacheSync then fail e
                   else bindE (attempt mutation) (\<lambda>_. ret ()))"

text \<open>\<open>billingRefundIdempotencyKey\<close> of a wallet draws an operation id when it has none.\<close>

definition withOperation :: "billEnv \<Rightarrow> WalletFunding \<Rightarrow> WalletFunding" where
  "withOperation env w =
     (if TrimSpace (wf_operationID w) = [] then w\<lparr>wf_operationID := be_operationUUID env\<rparr> else w)"

definition walletKey :: "WalletFunding \<Rightarrow> string \<Rightarrow> string" where
  "walletKey w kind = billingRefundIdempotencyKey (wf_operationID w) kind"

definition walletPreConsume ::
  "billEnv \<Rightarrow> int \<Rightarrow> WalletFunding \<Rightarrow> (store, WalletFunding \<times> err option) act" where
  "walletPreConsume env amount w0 =
     (if amount \<le> 0 then ret (w0, None)
      else let w = withOperation env w0 in
      reporting (applyWalletBalanceMutation (ReserveUserBalanceDebit (be_now env) (wf_userId w) amount
          (walletKey w ''wallet-preconsume'') (wf_requestId w)))
        w (\<lambda>_. w\<lparr>wf_consumed := amount\<rparr>))"

definition walletSettle ::
  "billEnv \<Rightarrow> int \<Rightarrow> WalletFunding \<Rightarrow> (store, WalletFunding \<times> err option) act" where
  "walletSettle env delta w0 =
     (if delta = 0 then ret (w0, None)
      else let w = withOperation env w0 in
      if delta > 0
      then reporting (applyWalletBalanceMutation (SettleUserBalanceDebit (be_now env) (wf_userId w) delta
             (walletKey w ''wallet-settle-debit'') (wf_requestId w))) w (\<lambda>_. w)
      else reporting (queueAndProcessBillingRefund env (walletRefund (wf_userId w) (- delta)
             (walletKey w ''wallet-settle-refund'') (wf_requestId w))) w (\<lambda>_. w))"

definition walletRefundAll ::
  "billEnv \<Rightarrow> WalletFunding \<Rightarrow> (store, WalletFunding \<times> err option) act" where
  "walletRefundAll env w0 =
     (if wf_consumed w0 \<le> 0 then ret (w0, None)
      else let w = withOperation env w0 in
      reporting (queueAndProcessBillingRefund env (walletRefund (wf_userId w) (wf_consumed w)
        (walletKey w ''wallet'') (wf_requestId w))) w (\<lambda>_. w))"

section \<open>The subscription\<close>

definition consumedFunding :: "SubscriptionPreConsumeResult \<Rightarrow> SubscriptionFunding \<Rightarrow> SubscriptionFunding" where
  "consumedFunding res f =
     f\<lparr>sf_subscriptionId := pr_UserSubscriptionId res, sf_preConsumed := pr_PreConsumed res,
       sf_AmountTotal := pr_AmountTotal res, sf_AmountUsedAfter := pr_AmountUsedAfter res\<rparr>"

definition withPlanInfo :: "err + int \<times> string \<Rightarrow> SubscriptionFunding \<Rightarrow> SubscriptionFunding" where
  "withPlanInfo info f =
     (case info of
        Inl _ \<Rightarrow> f
      | Inr (planId, title) \<Rightarrow> f\<lparr>sf_PlanId := planId, sf_PlanTitle := title\<rparr>)"

definition subscriptionPreConsume ::
  "billEnv \<Rightarrow> SubscriptionFunding \<Rightarrow> (store, SubscriptionFunding \<times> err option) act" where
  "subscriptionPreConsume env f =
     bindE (attempt (PreConsumeUserSubscription (be_zone env) (be_dbnow env) (be_now env)
        (be_planCache env) (sf_requestId f) (sf_userId f) (sf_amount f))) (\<lambda>r.
       case r of
         Inl e \<Rightarrow> ret (f, Some e)
       | Inr res \<Rightarrow>
           bindE (attempt (GetSubscriptionPlanInfoByUserSubscriptionId (be_infoCache env)
             (be_planCache env) (pr_UserSubscriptionId res))) (\<lambda>info.
           ret (withPlanInfo info (consumedFunding res f), None)))"

definition subscriptionSettle :: "billEnv \<Rightarrow> int \<Rightarrow> SubscriptionFunding \<Rightarrow> (store, unit) act" where
  "subscriptionSettle env delta f =
     (if delta = 0 then ret ()
      else PostConsumeUserSubscriptionDelta (be_now env) (sf_subscriptionId f) delta)"

text \<open>\<open>refundWithRetry\<close>: up to three calls; the error of the last one is returned.\<close>

primrec retrying :: "nat \<Rightarrow> ('s, unit) act \<Rightarrow> ('s, unit) act" where
  "retrying 0 fn = fn"
| "retrying (Suc n) fn =
     bindE (attempt fn) (\<lambda>r. case r of Inr _ \<Rightarrow> ret () | Inl _ \<Rightarrow> retrying n fn)"

definition refundWithRetry :: "('s, unit) act \<Rightarrow> ('s, unit) act" where
  "refundWithRetry fn = retrying 2 fn"

definition subscriptionRefund :: "billEnv \<Rightarrow> SubscriptionFunding \<Rightarrow> (store, unit) act" where
  "subscriptionRefund env f =
     (if sf_preConsumed f \<le> 0 then ret ()
      else refundWithRetry (RefundSubscriptionPreConsume (be_now env) (sf_requestId f)))"

section \<open>The interface \<open>FundingSource\<close>\<close>

definition fundingPreConsume ::
  "billEnv \<Rightarrow> int \<Rightarrow> FundingSource \<Rightarrow> (store, FundingSource \<times> err option) act" where
  "fundingPreConsume env amount f =
     (case f of
        WalletSource w \<Rightarrow> bindE (walletPreConsume env amount w) (\<lambda>(w', e). ret (WalletSource w', e))
      | SubscriptionSource x \<Rightarrow>
          bindE (subscriptionPreConsume env x) (\<lambda>(x', e). ret (SubscriptionSource x', e)))"

definition fundingSettle ::
  "billEnv \<Rightarrow> int \<Rightarrow> FundingSource \<Rightarrow> (store, FundingSource \<times> err option) act" where
  "fundingSettle env delta f =
     (case f of
        WalletSource w \<Rightarrow> bindE (walletSettle env delta w) (\<lambda>(w', e). ret (WalletSource w', e))
      | SubscriptionSource x \<Rightarrow> reporting (subscriptionSettle env delta x) f (\<lambda>_. f))"

definition fundingRefund ::
  "billEnv \<Rightarrow> FundingSource \<Rightarrow> (store, FundingSource \<times> err option) act" where
  "fundingRefund env f =
     (case f of
        WalletSource w \<Rightarrow> bindE (walletRefundAll env w) (\<lambda>(w', e). ret (WalletSource w', e))
      | SubscriptionSource x \<Rightarrow> reporting (subscriptionRefund env x) f (\<lambda>_. f))"

section \<open>The session\<close>

text \<open>\<open>ensureRequestID\<close>: the relay's id, else the funding source's, else a new one, for both.\<close>

definition fundingRequestId :: "FundingSource \<Rightarrow> string" where
  "fundingRequestId f =
     (case f of WalletSource w \<Rightarrow> wf_requestId w | SubscriptionSource x \<Rightarrow> sf_requestId x)"

definition setFundingRequestId :: "string \<Rightarrow> FundingSource \<Rightarrow> FundingSource" where
  "setFundingRequestId rid f =
     (case f of
        WalletSource w \<Rightarrow> WalletSource (w\<lparr>wf_requestId := rid\<rparr>)
      | SubscriptionSource x \<Rightarrow> SubscriptionSource (x\<lparr>sf_requestId := rid\<rparr>))"

definition ensureRequestID :: "billEnv \<Rightarrow> BillingSession \<Rightarrow> BillingSession" where
  "ensureRequestID env s =
     (let own = TrimSpace (ri_RequestId (bs_relayInfo s));
          funded = (if own = [] then TrimSpace (fundingRequestId (bs_funding s)) else own);
          rid = (if funded = [] then be_requestUUID env else funded)
      in s\<lparr>bs_relayInfo := (bs_relayInfo s)\<lparr>ri_RequestId := rid\<rparr>,
           bs_funding := setFundingRequestId rid (bs_funding s)\<rparr>)"

definition sessionWithOperation :: "billEnv \<Rightarrow> BillingSession \<Rightarrow> BillingSession" where
  "sessionWithOperation env s =
     (if TrimSpace (bs_operationID s) = [] then s\<lparr>bs_operationID := be_operationUUID env\<rparr> else s)"

definition sessionKey :: "BillingSession \<Rightarrow> string \<Rightarrow> string" where
  "sessionKey s kind = billingRefundIdempotencyKey (bs_operationID s) kind"

text \<open>The second step of \<open>Settle\<close>; its error is returned but the session is settled.\<close>

definition settleToken :: "billEnv \<Rightarrow> int \<Rightarrow> RelayInfo \<Rightarrow> (store, unit) act" where
  "settleToken env tokenDelta info =
     (if ri_TokenUnlimited info \<or> tokenDelta = 0 then ret ()
      else if tokenDelta > 0 then
        bindE (attempt (DecreaseTokenQuota (be_now env) (ri_TokenId info) tokenDelta)) (\<lambda>r.
          case r of
            Inr _ \<Rightarrow> ret ()
          | Inl e \<Rightarrow> if e = ErrInsufficientTokenQuota
                     then ExhaustTokenQuota (be_redis env) (be_now env) (ri_TokenId info) (ri_TokenKeyHash info)
                     else fail e)
      else IncreaseTokenQuota (be_now env) (ri_TokenId info) (- tokenDelta))"

definition sessionSettle ::
  "billEnv \<Rightarrow> int \<Rightarrow> BillingSession \<Rightarrow> (store, BillingSession \<times> err option) act" where
  "sessionSettle env actualQuota s0 =
     (if bs_settled s0 then ret (s0, None)
      else
        let s = ensureRequestID env s0;
            fundingDelta = actualQuota - bs_preConsumedQuota s;
            tokenDelta = actualQuota - bs_tokenConsumed s;
            token = (\<lambda>s. reporting (settleToken env tokenDelta (bs_relayInfo s))
                           (s\<lparr>bs_settled := True\<rparr>) (\<lambda>_. s\<lparr>bs_settled := True\<rparr>))
        in if bs_fundingSettled s then token s
           else bindE (fundingSettle env fundingDelta (bs_funding s)) (\<lambda>(f, e).
             case e of
               Some err \<Rightarrow> ret (s\<lparr>bs_funding := f\<rparr>, Some err)
             | None \<Rightarrow>
                 token (s\<lparr>bs_funding := f, bs_fundingSettled := True,
                          bs_relayInfo := (if fundingSource f = BillingSourceSubscription
                            then (bs_relayInfo s)\<lparr>ri_SubscriptionPostDelta :=
                                   ri_SubscriptionPostDelta (bs_relayInfo s) + fundingDelta\<rparr>
                            else bs_relayInfo s)\<rparr>)))"

definition needsRefundLocked :: "BillingSession \<Rightarrow> bool" where
  "needsRefundLocked s \<longleftrightarrow>
     (if bs_settled s \<or> bs_refunded s \<or> bs_fundingSettled s then False
      else bs_preConsumedQuota s > 0 \<or> bs_tokenConsumed s > 0)"

text \<open>The three steps of \<open>Refund\<close>; each is skipped once it has succeeded.\<close>

definition refundTokenStep ::
  "billEnv \<Rightarrow> BillingSession \<Rightarrow> (store, BillingSession \<times> err option) act" where
  "refundTokenStep env s0 =
     (if bs_tokenRefunded s0 then ret (s0, None)
      else if bs_tokenConsumed s0 > 0 \<and> \<not> ri_TokenUnlimited (bs_relayInfo s0) then
        let s = sessionWithOperation env s0 in
        reporting (queueAndProcessBillingRefund env
            (tokenRefund (bs_relayInfo s) (bs_tokenConsumed s) (sessionKey s ''token'')))
          s (\<lambda>_. s\<lparr>bs_tokenRefunded := True\<rparr>)
      else ret (s0\<lparr>bs_tokenRefunded := True\<rparr>, None))"

definition refundFundingStep ::
  "billEnv \<Rightarrow> BillingSession \<Rightarrow> (store, BillingSession \<times> err option) act" where
  "refundFundingStep env s =
     (if bs_fundingRefunded s then ret (s, None)
      else bindE (fundingRefund env (bs_funding s)) (\<lambda>(f, e).
        case e of
          Some err \<Rightarrow> ret (s\<lparr>bs_funding := f\<rparr>, Some err)
        | None \<Rightarrow> ret (s\<lparr>bs_funding := f, bs_fundingRefunded := True\<rparr>, None)))"

definition refundExtraStep ::
  "billEnv \<Rightarrow> BillingSession \<Rightarrow> (store, BillingSession \<times> err option) act" where
  "refundExtraStep env s =
     (if bs_extraRefunded s then ret (s, None)
      else if bs_extraReserved s > 0 \<and> fundingSource (bs_funding s) = BillingSourceSubscription \<and>
              ri_SubscriptionId (bs_relayInfo s) > 0 then
        reporting (PostConsumeUserSubscriptionDelta (be_now env) (ri_SubscriptionId (bs_relayInfo s))
            (- bs_extraReserved s))
          s (\<lambda>_. s\<lparr>bs_extraRefunded := True\<rparr>)
      else ret (s\<lparr>bs_extraRefunded := True\<rparr>, None))"

text \<open>One step after another until one reports an error.\<close>

definition andThen ::
  "('s, 'x \<times> 'e option) act \<Rightarrow> ('x \<Rightarrow> ('s, 'x \<times> 'e option) act) \<Rightarrow> ('s, 'x \<times> 'e option) act" where
  "andThen m k = bindE m (\<lambda>(x, e). case e of None \<Rightarrow> k x | Some err \<Rightarrow> ret (x, Some err))"

definition sessionRefund ::
  "billEnv \<Rightarrow> BillingSession \<Rightarrow> (store, BillingSession \<times> err option) act" where
  "sessionRefund env s =
     (if bs_settled s \<or> bs_refunded s \<or> \<not> needsRefundLocked s then ret (s, None)
      else andThen (refundTokenStep env (ensureRequestID env s)) (\<lambda>s1.
           andThen (refundFundingStep env s1) (\<lambda>s2.
           andThen (refundExtraStep env s2) (\<lambda>s3.
           ret (s3\<lparr>bs_refunded := True\<rparr>, None)))))"

definition syncRelayInfo :: "BillingSession \<Rightarrow> BillingSession" where
  "syncRelayInfo s =
     (let info = (bs_relayInfo s)\<lparr>ri_FinalPreConsumedQuota := bs_preConsumedQuota s,
                                  ri_BillingSource := fundingSource (bs_funding s)\<rparr>
      in s\<lparr>bs_relayInfo :=
           (case bs_funding s of
              SubscriptionSource sub \<Rightarrow>
                info\<lparr>ri_SubscriptionId := sf_subscriptionId sub,
                     ri_SubscriptionPreConsumed := sf_preConsumed sub + bs_extraReserved s,
                     ri_SubscriptionPostDelta := 0,
                     ri_SubscriptionAmountTotal := sf_AmountTotal sub,
                     ri_SubscriptionAmountUsedAfterPreConsume := sf_AmountUsedAfter sub + bs_extraReserved s,
                     ri_SubscriptionPlanId := sf_PlanId sub,
                     ri_SubscriptionPlanTitle := sf_PlanTitle sub\<rparr>
            | WalletSource _ \<Rightarrow> info\<lparr>ri_SubscriptionId := 0, ri_SubscriptionPreConsumed := 0\<rparr>)\<rparr>)"

definition reserveFunding ::
  "billEnv \<Rightarrow> int \<Rightarrow> BillingSession \<Rightarrow> (store, BillingSession \<times> apiError option) act" where
  "reserveFunding env delta s0 =
     (case bs_funding s0 of
        WalletSource w \<Rightarrow>
          let s = sessionWithOperation env s0 in
          bindE (attempt (applyWalletBalanceMutation (ReserveUserBalanceDebit (be_now env) (wf_userId w)
              delta (sessionKey s (''wallet-reserve-debit-'' @ showNat (bs_reserveSequence s)))
              (wf_requestId w)))) (\<lambda>r.
            case r of
              Inl e \<Rightarrow> ret (s, Some (if e = ErrInsufficientUserQuota then ErrorCodeInsufficientUserQuota
                                     else ErrorCodeUpdateDataError, e))
            | Inr _ \<Rightarrow> ret (s\<lparr>bs_funding := WalletSource (w\<lparr>wf_consumed := wf_consumed w + delta\<rparr>)\<rparr>, None))
      | SubscriptionSource x \<Rightarrow>
          bindE (attempt (PostConsumeUserSubscriptionDelta (be_now env) (sf_subscriptionId x) delta)) (\<lambda>r.
            case r of
              Inl e \<Rightarrow> ret (s0, Some (ErrorCodeInsufficientUserQuota, e))
            | Inr _ \<Rightarrow> ret (s0, None)))"

text \<open>Its own error is only logged; the wallet's \<open>consumed\<close> is lowered only on success.\<close>

definition rollbackFundingReserve ::
  "billEnv \<Rightarrow> int \<Rightarrow> BillingSession \<Rightarrow> (store, BillingSession) act" where
  "rollbackFundingReserve env delta s0 =
     (case bs_funding s0 of
        WalletSource w \<Rightarrow>
          let s = sessionWithOperation env s0 in
          bindE (attempt (queueAndProcessBillingRefund env (walletRefund (wf_userId w) delta
              (sessionKey s (''wallet-reserve-'' @ showNat (bs_reserveSequence s))) (wf_requestId w)))) (\<lambda>r.
            case r of
              Inl _ \<Rightarrow> ret s
            | Inr _ \<Rightarrow> ret (s\<lparr>bs_funding := WalletSource (w\<lparr>wf_consumed := wf_consumed w - delta\<rparr>)\<rparr>))
      | SubscriptionSource x \<Rightarrow>
          bindE (attempt (PostConsumeUserSubscriptionDelta (be_now env) (sf_subscriptionId x) (- delta)))
            (\<lambda>_. ret s0))"

definition reserveToken ::
  "billEnv \<Rightarrow> int \<Rightarrow> BillingSession \<Rightarrow> (store, apiError option) act" where
  "reserveToken env delta s =
     (if delta \<le> 0 \<or> ri_TokenUnlimited (bs_relayInfo s) then ret None
      else bindE (attempt (PreConsumeTokenQuota env (bs_relayInfo s) delta)) (\<lambda>r.
        case r of
          Inl e \<Rightarrow> ret (Some (ErrorCodePreConsumeTokenQuotaFailed, e))
        | Inr _ \<Rightarrow> ret None))"

definition reserved :: "int \<Rightarrow> int \<Rightarrow> BillingSession \<Rightarrow> BillingSession" where
  "reserved fundingDelta tokenDelta s =
     syncRelayInfo (s\<lparr>bs_preConsumedQuota := bs_preConsumedQuota s + fundingDelta,
                      bs_tokenConsumed := bs_tokenConsumed s + tokenDelta,
                      bs_extraReserved := bs_extraReserved s + fundingDelta\<rparr>)"

definition sessionReserve ::
  "billEnv \<Rightarrow> int \<Rightarrow> BillingSession \<Rightarrow> (store, BillingSession \<times> apiError option) act" where
  "sessionReserve env targetQuota s0 =
     (if bs_settled s0 \<or> bs_refunded s0 \<or> targetQuota \<le> 0 then ret (s0, None)
      else
        let s = ensureRequestID env s0;
            fundingDelta = (if targetQuota > bs_preConsumedQuota s
                            then targetQuota - bs_preConsumedQuota s else 0);
            tokenDelta = (if \<not> ri_TokenUnlimited (bs_relayInfo s) \<and> targetQuota > bs_tokenConsumed s
                          then targetQuota - bs_tokenConsumed s else 0)
        in if fundingDelta = 0 \<and> tokenDelta = 0 then ret (s, None)
           else andThen
             (if fundingDelta > 0
              then andThen (reserveFunding env fundingDelta s) (\<lambda>s1.
                     ret (s1\<lparr>bs_reserveSequence := bs_reserveSequence s1 + 1\<rparr>, None))
              else ret (s, None)) (\<lambda>s1.
             if tokenDelta > 0
             then bindE (reserveToken env tokenDelta s1) (\<lambda>e.
               case e of
                 Some err \<Rightarrow>
                   if fundingDelta > 0
                   then bindE (rollbackFundingReserve env fundingDelta s1) (\<lambda>s2. ret (s2, Some err))
                   else ret (s1, Some err)
               | None \<Rightarrow> ret (reserved fundingDelta tokenDelta s1, None))
             else ret (reserved fundingDelta tokenDelta s1, None)))"

text \<open>
  \<open>preConsume\<close>: the token first, then the funding source; when the latter refuses, the token
  quota is refunded. \<open>shortSubscription\<close> is the code's match on the error's text.
\<close>

definition shortSubscription :: "err \<Rightarrow> bool" where
  "shortSubscription e =
     (case e of
        ErrMsg m \<Rightarrow> Contains m ''no active subscription'' \<or> Contains m ''subscription quota insufficient''
      | _ \<Rightarrow> False)"

definition preConsumeError :: "err \<Rightarrow> apiError" where
  "preConsumeError e =
     (if shortSubscription e \<or> e = ErrInsufficientUserQuota then (ErrorCodeInsufficientUserQuota, e)
      else (ErrorCodeUpdateDataError, e))"

definition rollbackToken :: "billEnv \<Rightarrow> BillingSession \<Rightarrow> (store, BillingSession) act" where
  "rollbackToken env s0 =
     (if bs_tokenConsumed s0 > 0 then
        let s = sessionWithOperation env s0 in
        bindE (attempt (queueAndProcessBillingRefund env
          (tokenRefund (bs_relayInfo s) (bs_tokenConsumed s) (sessionKey s ''token-preconsume'')))) (\<lambda>_.
        ret (s\<lparr>bs_tokenConsumed := 0\<rparr>))
      else ret s0)"

definition sessionPreConsume ::
  "billEnv \<Rightarrow> int \<Rightarrow> BillingSession \<Rightarrow> (store, BillingSession \<times> apiError option) act" where
  "sessionPreConsume env quota s0 =
     andThen
       (let s = ensureRequestID env s0 in
        if quota > 0 \<and> \<not> ri_TokenUnlimited (bs_relayInfo s) then
          bindE (attempt (PreConsumeTokenQuota env (bs_relayInfo s) quota)) (\<lambda>r.
            case r of
              Inl e \<Rightarrow> ret (s, Some (ErrorCodePreConsumeTokenQuotaFailed, e))
            | Inr _ \<Rightarrow> ret (s\<lparr>bs_tokenConsumed := quota\<rparr>, None))
        else ret (s, None))
       (\<lambda>s. bindE (fundingPreConsume env quota (bs_funding s)) (\<lambda>(f, e).
          let s1 = s\<lparr>bs_funding := f\<rparr> in
          case e of
            Some err \<Rightarrow> bindE (rollbackToken env s1) (\<lambda>s2. ret (s2, Some (preConsumeError err)))
          | None \<Rightarrow> ret (syncRelayInfo (s1\<lparr>bs_preConsumedQuota := quota\<rparr>), None)))"

section \<open>Opening a session\<close>

definition NormalizeBillingPreference :: "string \<Rightarrow> string" where
  "NormalizeBillingPreference pref =
     (if TrimSpace pref \<in> {''subscription_first'', ''wallet_first'', ''subscription_only'', ''wallet_only''}
      then TrimSpace pref else ''subscription_first'')"

text \<open>\<open>Find\<close> into a scalar leaves 0 when there is no row.\<close>

definition GetUserQuota :: "billEnv \<Rightarrow> int \<Rightarrow> (store, int) act" where
  "GetUserQuota env uid =
     (case be_quotaCache env uid of
        Some q \<Rightarrow> ret q
      | None \<Rightarrow> query (\<lambda>s. Inr (case findRow (\<lambda>u. u_Id u = uid \<and> \<not> u_DeletedAt u) (users s) of
                              None \<Rightarrow> 0 | Some u \<Rightarrow> u_Quota u)))"

definition newSession :: "billEnv \<Rightarrow> RelayInfo \<Rightarrow> FundingSource \<Rightarrow> BillingSession" where
  "newSession env info f =
     \<lparr>bs_relayInfo = info, bs_funding = f, bs_operationID = be_operationUUID env,
      bs_reserveSequence = 0, bs_preConsumedQuota = 0, bs_tokenConsumed = 0, bs_extraReserved = 0,
      bs_fundingSettled = False, bs_settled = False, bs_tokenRefunded = False,
      bs_fundingRefunded = False, bs_extraRefunded = False, bs_refunded = False\<rparr>"

text \<open>What opening returns: the relay's record as it was left, and the session or an error.\<close>

type_synonym opened = "RelayInfo \<times> (apiError + BillingSession)"

definition openedBy :: "BillingSession \<times> apiError option \<Rightarrow> opened" where
  "openedBy r = (case r of (s, None) \<Rightarrow> (bs_relayInfo s, Inr s) | (s, Some e) \<Rightarrow> (bs_relayInfo s, Inl e))"

definition tryWallet :: "billEnv \<Rightarrow> int \<Rightarrow> RelayInfo \<Rightarrow> (store, opened) act" where
  "tryWallet env preConsumedQuota info0 =
     bindE (attempt (GetUserQuota env (ri_UserId info0))) (\<lambda>r.
       case r of
         Inl e \<Rightarrow> ret (info0, Inl (ErrorCodeQueryDataError, e))
       | Inr userQuota \<Rightarrow>
           if userQuota \<le> 0
           then ret (info0, Inl (ErrorCodeInsufficientUserQuota, ErrUserQuotaExhausted))
           else if userQuota - preConsumedQuota < 0
           then ret (info0, Inl (ErrorCodeInsufficientUserQuota, ErrUserQuotaTooLow))
           else let info = info0\<lparr>ri_UserQuota := userQuota\<rparr> in
             bindE (sessionPreConsume env preConsumedQuota (newSession env info (WalletSource
               \<lparr>wf_operationID = be_operationUUID env, wf_requestId = ri_RequestId info,
                wf_userId = ri_UserId info, wf_consumed = 0\<rparr>))) (\<lambda>r. ret (openedBy r)))"

definition trySubscription :: "billEnv \<Rightarrow> int \<Rightarrow> RelayInfo \<Rightarrow> (store, opened) act" where
  "trySubscription env preConsumedQuota info =
     (let subConsume = (if preConsumedQuota \<le> 0 then 1 else preConsumedQuota) in
      bindE (sessionPreConsume env subConsume (newSession env info (SubscriptionSource
        \<lparr>sf_requestId = ri_RequestId info, sf_userId = ri_UserId info, sf_amount = subConsume,
         sf_subscriptionId = 0, sf_preConsumed = 0, sf_AmountTotal = 0, sf_AmountUsedAfter = 0,
         sf_PlanId = 0, sf_PlanTitle = []\<rparr>))) (\<lambda>r. ret (openedBy r)))"

text \<open>The fallback: another source when the first one has too little quota.\<close>

definition orElse ::
  "(RelayInfo \<Rightarrow> (store, opened) act) \<Rightarrow> (RelayInfo \<Rightarrow> (store, opened) act) \<Rightarrow> RelayInfo \<Rightarrow> (store, opened) act" where
  "orElse m n info =
     bindE (m info) (\<lambda>(info1, r).
       case r of
         Inr s \<Rightarrow> ret (info1, Inr s)
       | Inl (code, e) \<Rightarrow> if code = ErrorCodeInsufficientUserQuota then n info1
                          else ret (info1, Inl (code, e)))"

definition NewBillingSession :: "billEnv \<Rightarrow> int \<Rightarrow> RelayInfo \<Rightarrow> (store, opened) act" where
  "NewBillingSession env preConsumedQuota info =
     (let pref = NormalizeBillingPreference (ri_BillingPreference info);
          wallet = tryWallet env preConsumedQuota; subscription = trySubscription env preConsumedQuota in
      if pref = ''subscription_only'' then subscription info
      else if pref = ''wallet_only'' then wallet info
      else if pref = ''wallet_first'' then orElse wallet subscription info
      else bindE (attempt (HasActiveUserSubscription (be_now env) (ri_UserId info))) (\<lambda>hasSub.
        case hasSub of
          Inl e \<Rightarrow> ret (info, Inl (ErrorCodeQueryDataError, e))
        | Inr False \<Rightarrow> wallet info
        | Inr True \<Rightarrow> orElse subscription wallet info))"

section \<open>Billing without a session\<close>

text \<open>\<open>trustQuota\<close> is \<open>common.GetTrustQuota()\<close>, \<open>tokenQuota\<close> the quota the request's context holds.\<close>

definition PreConsumeQuota ::
  "billEnv \<Rightarrow> int \<Rightarrow> int \<Rightarrow> int \<Rightarrow> RelayInfo \<Rightarrow> (store, RelayInfo \<times> apiError option) act" where
  "PreConsumeQuota env trustQuota tokenQuota preConsumedQuota0 info0 =
     bindE (attempt (GetUserQuota env (ri_UserId info0))) (\<lambda>r.
       case r of
         Inl e \<Rightarrow> ret (info0, Some (ErrorCodeQueryDataError, e))
       | Inr userQuota \<Rightarrow>
           if userQuota \<le> 0
           then ret (info0, Some (ErrorCodeInsufficientUserQuota, ErrUserQuotaExhausted))
           else if userQuota - preConsumedQuota0 < 0
           then ret (info0, Some (ErrorCodeInsufficientUserQuota, ErrUserQuotaTooLow))
           else let info = info0\<lparr>ri_UserQuota := userQuota\<rparr>;
                    preConsumedQuota =
                      (if userQuota > trustQuota \<and> (ri_TokenUnlimited info \<or> tokenQuota > trustQuota)
                       then 0 else preConsumedQuota0) in
             if preConsumedQuota > 0 then
               bindE (attempt (PreConsumeTokenQuota env info preConsumedQuota)) (\<lambda>r1.
                 case r1 of
                   Inl e \<Rightarrow> ret (info, Some (ErrorCodePreConsumeTokenQuotaFailed, e))
                 | Inr _ \<Rightarrow>
                     bindE (attempt (DecreaseUserQuota (ri_UserId info) preConsumedQuota)) (\<lambda>r2.
                       case r2 of
                         Inl e \<Rightarrow> ret (info, Some (ErrorCodeUpdateDataError, e))
                       | Inr _ \<Rightarrow> ret (info\<lparr>ri_FinalPreConsumedQuota := preConsumedQuota\<rparr>, None)))
             else ret (info\<lparr>ri_FinalPreConsumedQuota := preConsumedQuota\<rparr>, None))"

definition postConsumeFunding :: "billEnv \<Rightarrow> RelayInfo \<Rightarrow> int \<Rightarrow> (store, RelayInfo \<times> err option) act" where
  "postConsumeFunding env info quota =
     (if ri_BillingSource info = BillingSourceSubscription then
        if ri_SubscriptionId info = 0 then ret (info, Some (ErrMsg ''subscription id is missing''))
        else if quota = 0 then ret (info, None)
        else reporting (PostConsumeUserSubscriptionDelta (be_now env) (ri_SubscriptionId info) quota)
               info (\<lambda>_. info\<lparr>ri_SubscriptionPostDelta := ri_SubscriptionPostDelta info + quota\<rparr>)
      else reporting (if quota > 0 then DecreaseUserQuota (ri_UserId info) quota
                      else IncreaseUserQuota (be_batch env) (ri_UserId info) (- quota) False)
             info (\<lambda>_. info))"

definition PostConsumeQuota :: "billEnv \<Rightarrow> RelayInfo \<Rightarrow> int \<Rightarrow> (store, RelayInfo \<times> err option) act" where
  "PostConsumeQuota env info0 quota =
     andThen (postConsumeFunding env info0 quota) (\<lambda>info.
       if ri_TokenUnlimited info then ret (info, None)
       else reporting (if quota > 0 then DecreaseTokenQuota (be_now env) (ri_TokenId info) quota
                       else IncreaseTokenQuota (be_now env) (ri_TokenId info) (- quota))
              info (\<lambda>_. info))"

definition snapshotPreConsumedQuotaReturn :: "RelayInfo \<Rightarrow> RelayInfo \<times> int" where
  "snapshotPreConsumedQuotaReturn info =
     (\<lparr>ri_UserId = ri_UserId info, ri_TokenId = ri_TokenId info, ri_TokenKeyHash = ri_TokenKeyHash info,
       ri_TokenUnlimited = ri_TokenUnlimited info, ri_RequestId = [], ri_UserQuota = 0,
       ri_BillingPreference = [], ri_FinalPreConsumedQuota = 0, ri_BillingSource = ri_BillingSource info,
       ri_SubscriptionId = ri_SubscriptionId info, ri_SubscriptionPreConsumed = 0,
       ri_SubscriptionPostDelta = 0, ri_SubscriptionAmountTotal = 0,
       ri_SubscriptionAmountUsedAfterPreConsume = 0, ri_SubscriptionPlanId = 0,
       ri_SubscriptionPlanTitle = []\<rparr>, ri_FinalPreConsumedQuota info)"

definition ReturnPreConsumedQuota :: "billEnv \<Rightarrow> RelayInfo \<Rightarrow> (store, unit) act" where
  "ReturnPreConsumedQuota env info =
     (case snapshotPreConsumedQuotaReturn info of
        (refundInfo, quota) \<Rightarrow>
          if quota = 0 then ret ()
          else bindE (attempt (PostConsumeQuota env refundInfo (- quota))) (\<lambda>_. ret ()))"

text \<open>\<open>SettleBilling\<close> with and without a session; the notifications it sends are left out.\<close>

definition SettleBilling ::
  "billEnv \<Rightarrow> int \<Rightarrow> BillingSession option \<Rightarrow> RelayInfo \<Rightarrow>
   (store, (BillingSession option \<times> RelayInfo) \<times> err option) act" where
  "SettleBilling env actualQuota session info =
     (case session of
        Some s \<Rightarrow> bindE (sessionSettle env actualQuota s) (\<lambda>(s', e). ret ((Some s', bs_relayInfo s'), e))
      | None \<Rightarrow>
          let quotaDelta = actualQuota - ri_FinalPreConsumedQuota info in
          if quotaDelta \<noteq> 0
          then bindE (PostConsumeQuota env info quotaDelta) (\<lambda>(info', e). ret ((None, info'), e))
          else ret ((None, info), None))"

end
