(* ===== verification/Cost.thy ===== *)
theory Cost
  imports Session
begin

text \<open>
  What a request costs. A funding source has an account (the user's balance or the used amount
  of a subscription); the locale \<open>funding_source\<close> states what its two charging calls promise
  about that account, whatever the driver and the caches do, and what a request then costs.
  Both sources are shown to keep the promise.
\<close>

section \<open>Keys\<close>

definition plainByte :: "char \<Rightarrow> bool" where
  "plainByte c \<longleftrightarrow> 33 \<le> (of_char c :: nat) \<and> (of_char c :: nat) \<le> 126"

lemma spaceRunes_not_plain:
  "list_all (\<lambda>r. r \<noteq> [] \<and> \<not> plainByte (hd r)) (spaceRunes @ map rev spaceRunes)"
  by code_simp

lemma plainByte_no_rune:
  assumes "plainByte c"
  shows "List.find (HasPrefix (c # s)) spaceRunes = None"
    "List.find (HasPrefix (c # s)) (map rev spaceRunes) = None"
proof -
  have "\<not> HasPrefix (c # s) r" if "r \<in> set (spaceRunes @ map rev spaceRunes)" for r
  proof -
    have "r \<noteq> [] \<and> \<not> plainByte (hd r)"
      using that spaceRunes_not_plain unfolding list_all_iff by blast
    with assms show ?thesis by (cases r) auto
  qed
  then show "List.find (HasPrefix (c # s)) spaceRunes = None"
    "List.find (HasPrefix (c # s)) (map rev spaceRunes) = None"
    unfolding find_None_iff by auto
qed

lemma TrimSpace_plain:
  assumes "s \<noteq> []" "plainByte (hd s)" "plainByte (last s)"
  shows "TrimSpace s = s"
proof -
  obtain c t where s: "s = c # t" using assms(1) by (cases s) auto
  obtain u d where u: "s = u @ [d]" using assms(1) by (cases s rule: rev_cases) auto
  have "dropRunes spaceRunes (length s) s = s"
    using assms(2) plainByte_no_rune(1) [of c t] by (simp add: s)
  moreover have "dropRunes (map rev spaceRunes) (length s) (rev s) = rev s"
    using assms(3) plainByte_no_rune(2) [of d "rev u"] by (simp add: u)
  ultimately show ?thesis by (simp add: TrimSpace_def)
qed

text \<open>The kinds of keys the package makes end in a letter or a digit.\<close>

lemma TrimSpace_refundKey:
  assumes "kind \<noteq> []" "plainByte (last kind)"
  shows "TrimSpace (billingRefundIdempotencyKey op kind) = billingRefundIdempotencyKey op kind"
  using assms by (intro TrimSpace_plain) (simp_all add: billingRefundIdempotencyKey_def plainByte_def)

lemma refundKey_inject [simp]:
  "billingRefundIdempotencyKey op k = billingRefundIdempotencyKey op k' \<longleftrightarrow> k = k'"
  by (simp add: billingRefundIdempotencyKey_def)

section \<open>The user's balance\<close>

text \<open>What the user has been charged: a balance that falls by one is a charge of one.\<close>

definition debited :: "int \<Rightarrow> store \<Rightarrow> int" where
  "debited uid s = (case balanceOf uid s of None \<Rightarrow> 0 | Some q \<Rightarrow> - q)"

lemma posted_debited:
  assumes "posted s e t"
  shows "debited (bl_UserID e) t = debited (bl_UserID e) s - bl_Delta e"
proof -
  from assms obtain u f where u: "findRow (\<lambda>u. u_Id u = bl_UserID e \<and> \<not> u_DeletedAt u) (users s) = Some u"
    "bl_BalanceBefore e = u_Quota u" "bl_BalanceAfter e = bl_BalanceBefore e + bl_Delta e"
    "\<forall>u. u_Id (f u) = u_Id u \<and> u_DeletedAt (f u) = u_DeletedAt u \<and> u_Quota (f u) = bl_BalanceAfter e"
    "users t = updateWhere (\<lambda>u. u_Id u = bl_UserID e \<and> \<not> u_DeletedAt u) f (users s)"
    by (elim postedE)
  then show ?thesis
    using findRow_Some [OF u(1)] by (simp add: debited_def balanceOf_def findRow_updateWhere)
qed

lemma debited_users: "users t = users s \<Longrightarrow> debited uid t = debited uid s"
  by (simp add: debited_def balanceOf_def)

section \<open>A debit\<close>

text \<open>
  A debit whose key is new: success means that it was charged, and an error that it was charged
  or not. The cache's failures do not matter.
\<close>

definition debit_post :: "int \<Rightarrow> int \<Rightarrow> string \<Rightarrow> store \<Rightarrow> err + unit \<Rightarrow> store \<Rightarrow> bool" where
  "debit_post uid amount key s r t \<longleftrightarrow>
     refunds t = refunds s \<and>
     (r = Inr () \<longrightarrow> debited uid t = debited uid s + amount) \<and>
     debited uid t \<in> {debited uid s, debited uid s + amount} \<and>
     bl_IdempotencyKey ` set (ledgers t) \<subseteq> insert key (bl_IdempotencyKey ` set (ledgers s))"

lemma adjusted_debit:
  assumes "adjusted s adj allowNegative e t"
  shows "debited (ba_UserID adj) t = debited (ba_UserID adj) s - ba_Delta adj"
    "refunds t = refunds s"
    "bl_IdempotencyKey ` set (ledgers t) \<subseteq> insert (ba_IdempotencyKey adj) (bl_IdempotencyKey ` set (ledgers s))"
proof -
  have e: "bl_UserID e = ba_UserID adj" "bl_Delta e = ba_Delta adj"
    using assms by (auto simp: adjusted_def split: option.splits)
  show "debited (ba_UserID adj) t = debited (ba_UserID adj) s - ba_Delta adj"
    using posted_debited [OF adjusted_posted [OF assms]] by (simp add: e)
  show "refunds t = refunds s"
    using assms by (auto simp: adjusted_def split: option.splits)
  show "bl_IdempotencyKey ` set (ledgers t) \<subseteq> insert (ba_IdempotencyKey adj) (bl_IdempotencyKey ` set (ledgers s))"
    using assms by (auto simp: adjusted_ledger [OF assms] adjusted_key [OF assms])
qed

text \<open>The law both debits have, and what follows for the call that repeats one on a cache error.\<close>

definition debits :: "int \<Rightarrow> int \<Rightarrow> string \<Rightarrow> (store, BalanceLedger \<times> bool \<times> err option) act \<Rightarrow> bool" where
  "debits uid amount key m \<longleftrightarrow>
     (\<exists>adj allowNegative. ba_UserID adj = uid \<and> ba_Delta adj = - amount \<and> ba_IdempotencyKey adj = key \<and>
        (\<forall>s. wp m (adjust_post s adj allowNegative) s))"

lemma debits_usage:
  "TrimSpace key = key \<Longrightarrow> debits uid amount key (ReserveUserBalanceDebit now uid amount key rid)"
  "TrimSpace key = key \<Longrightarrow> debits uid amount key (SettleUserBalanceDebit now uid amount key rid)"
  unfolding debits_def
   apply (rule exI [of _ "reserveRequest uid amount key rid"], rule exI [of _ False])
   apply (simp add: wp_ReserveUserBalanceDebit, simp add: reserveRequest_def)
  apply (rule exI [of _ "settleRequest uid amount key rid"], rule exI [of _ True])
  apply (simp add: wp_SettleUserBalanceDebit, simp add: settleRequest_def)
  done

lemma wp_applyWalletBalanceMutation:
  assumes m: "debits uid amount key m" and fresh: "key \<notin> bl_IdempotencyKey ` set (ledgers s)"
  shows "wp (applyWalletBalanceMutation m) (debit_post uid amount key s) s"
proof -
  obtain adj allow where adj: "ba_UserID adj = uid" "ba_Delta adj = - amount" "ba_IdempotencyKey adj = key"
    and wp: "\<And>s. wp m (adjust_post s adj allow) s"
    using m by (auto simp: debits_def)
  have charged: "debit_post uid amount key s r t" if "adjusted s adj allow e t" for r e t
    using adjusted_debit [OF that] adj by (simp add: debit_post_def)
  have kept: "debit_post uid amount key s (Inl err) s" for err
    by (auto simp: debit_post_def)
  have entry: "adjusted s adj allow e t" if "adjust_post s adj allow (Inr (e, applied, w)) t" for e applied w t
  proof -
    have "e \<in> set (ledgers t)" "bl_IdempotencyKey e = key" "t = s \<or> adjusted s adj allow e t"
      using that adj by (auto simp: adjust_post_def split: if_splits)
    with fresh show ?thesis by (metis image_eqI)
  qed
  have again: "wp (bindE (attempt m) (\<lambda>_. ret ())) (debit_post uid amount key s) t"
    if e: "adjusted s adj allow e t" for e t
  proof (rule wp_bind_attemptI [OF wp])
    fix r u assume post: "adjust_post t adj allow r u"
    have "u = t"
      using adjust_post_replay [OF post] adjusted_key_used [OF e] by simp
    with e show "wp (ret ()) (debit_post uid amount key s) u" by (simp add: charged)
  qed
  show ?thesis
    unfolding applyWalletBalanceMutation_def
  proof (rule wp_bindI [OF wp], goal_cases)
    case (1 err t)
    then show ?case by (auto simp: adjust_post_def kept charged)
  next
    case (2 a t)
    then show ?case
      by (cases a) (auto dest!: entry intro: charged again split: option.splits)
  qed
qed

section \<open>A refund\<close>

text \<open>What a refund request does when its key is new.\<close>

definition paid :: "int \<Rightarrow> store \<Rightarrow> store \<Rightarrow> bool" where
  "paid rid s t \<longleftrightarrow>
     refund_post rid s t \<and>
     (\<exists>p. findRow (\<lambda>r. br_ID r = rid) (refunds s) = Some p \<and>
          (br_Status p = BillingRefundStatusPending \<longrightarrow> credited rid s p t))"

lemma paid_bookkept: "paid rid s t \<Longrightarrow> bookkept t u \<Longrightarrow> paid rid s u"
  by (auto simp: paid_def intro: refund_post_bookkept credited_bookkept)

lemma wp_ProcessBillingRefund_paid:
  "wp (ProcessBillingRefundPending redis now rid)
     (\<lambda>r t. refund_post rid s t \<and> (r = Inr () \<longrightarrow> paid rid s t)) s"
proof -
  have tx: "wp (transaction (processRefundTx now rid))
      (\<lambda>r t. refund_post rid s t \<and> (case r of Inl _ \<Rightarrow> True | Inr p \<Rightarrow> paid rid s t)) s"
    by (rule wp_transactionI [OF wp_processRefundTx])
       (auto simp: refundTx_post_def refund_post_def paid_def split: if_splits)
  have failed: "wp (refundFailed now rid err)
      (\<lambda>r t. refund_post rid s t \<and> (r = Inr () \<longrightarrow> paid rid s t)) t"
    if "refund_post rid s t" for err t
    unfolding refundFailed_def using that
    by (intro wp_bindI [OF wp_recordBillingRefundFailure]) (auto intro: refund_post_bookkept)
  have complete: "wp (completeRefund now rid)
      (\<lambda>r t. refund_post rid s t \<and> (r = Inr () \<longrightarrow> paid rid s t)) t"
    if "paid rid s t" for t
    unfolding completeRefund_def using that
    by (intro wp_bindI [OF wp_completeRefund])
       (auto intro: refund_post_bookkept credited_bookkept simp: paid_def)
  have rest: "wp (afterRefundTx redis now rid p)
      (\<lambda>r t. refund_post rid s t \<and> (r = Inr () \<longrightarrow> paid rid s t)) t"
    if t: "paid rid s t" for p t
  proof -
    have post: "refund_post rid s t" using t by (simp add: paid_def)
    show ?thesis
      unfolding afterRefundTx_def
    proof (rule wp_if)
      show "wp (bindE (attempt (syncBillingRefundCache redis p)) (\<lambda>sync.
          case sync of Inl err \<Rightarrow> refundFailed now rid err | Inr _ \<Rightarrow> completeRefund now rid))
        (\<lambda>r t. refund_post rid s t \<and> (r = Inr () \<longrightarrow> paid rid s t)) t"
      proof (rule wp_bind_attemptI [where P = "\<lambda>_ u. u = t"])
        show "wp (syncBillingRefundCache redis p) (\<lambda>_ u. u = t) t"
          by (rule keeps_wp [OF keeps_syncBillingRefundCache]) simp
      qed (simp add: failed complete t post split: sum.split)
    qed (simp add: t post)
  qed
  show ?thesis
    unfolding ProcessBillingRefundPending_def
  proof (rule wp_if)
    show "wp (bindE (attempt (transaction (processRefundTx now rid))) (\<lambda>result.
        case result of
          Inl err \<Rightarrow> if err \<noteq> ErrBillingRefundDeadLetter then refundFailed now rid err else fail err
        | Inr pending \<Rightarrow> afterRefundTx redis now rid pending))
      (\<lambda>r t. refund_post rid s t \<and> (r = Inr () \<longrightarrow> paid rid s t)) s"
      by (rule wp_bind_attemptI [OF tx]) (simp add: failed rest split: sum.splits)
  qed (simp add: refund_post_def)
qed

lemma refunded_debited:
  assumes "refunded s p t" "br_Kind p = BillingRefundKindWallet"
  shows "debited (br_UserID p) t = debited (br_UserID p) s - br_Amount p"
  using assms posted_debited [of s "last (ledgers t)" t] by (simp add: refunded_def Let_def)

text \<open>Storing a request whose key is new: the row is the request, and nothing else changes.\<close>

definition ensure_post :: "BillingRefundPending \<Rightarrow> store \<Rightarrow> err + BillingRefundPending \<Rightarrow> store \<Rightarrow> bool" where
  "ensure_post cand s r t \<longleftrightarrow>
     users t = users s \<and> tokens t = tokens s \<and> ledgers t = ledgers s \<and>
     (case r of
        Inl _ \<Rightarrow> True
      | Inr p \<Rightarrow> br_UserID p = br_UserID cand \<and> br_Amount p = br_Amount cand \<and>
                 br_Kind p = br_Kind cand \<and> br_Status p = BillingRefundStatusPending \<and>
                 findRow (\<lambda>r. br_ID r = br_ID p) (refunds t) = Some p)"

lemma findRow_fresh: "findRow (\<lambda>r. br_ID r = freshId br_ID rs) (rs @ [p\<lparr>br_ID := freshId br_ID rs\<rparr>]) =
    Some (p\<lparr>br_ID := freshId br_ID rs\<rparr>)"
  using freshId_notin [of br_ID rs]
  by (auto simp: findRow_append findRow_None [THEN iffD2] image_iff split: option.splits
      dest!: findRow_Some)

lemma wp_EnsureBillingRefundPending:
  assumes "TrimSpace (br_IdempotencyKey cand) \<notin> br_IdempotencyKey ` set (refunds s)"
  shows "wp (EnsureBillingRefundPending now cand) (ensure_post cand s) s"
proof -
  define c where "c = cand\<lparr>br_IdempotencyKey := TrimSpace (br_IdempotencyKey cand),
      br_RequestID := TrimSpace (br_RequestID cand), br_Status := BillingRefundStatusPending,
      br_CreatedAt := now, br_UpdatedAt := now\<rparr>"
  have none: "\<forall>r \<in> set (refunds s). br_IdempotencyKey r \<noteq> br_IdempotencyKey c"
    using assms by (simp add: c_def) (metis image_eqI)
  let ?new = "c\<lparr>br_ID := freshId br_ID (refunds s)\<rparr>"
  have create: "wp (firstOrCreateRefund c) (\<lambda>r t. users t = users s \<and> tokens t = tokens s \<and>
      ledgers t = ledgers s \<and>
      (case r of Inl _ \<Rightarrow> True | Inr p \<Rightarrow> p = ?new \<and> refunds t = refunds s @ [?new])) s"
    using none unfolding firstOrCreateRefund_def createRefund_def
    by (auto intro!: wp_intro simp: image_iff Let_def)
  show ?thesis
    unfolding EnsureBillingRefundPending_def Let_def
  proof (rule wp_if, goal_cases)
    case 2
    show ?case
    proof (rule wp_bindI [OF create [unfolded c_def]], goal_cases)
      case (2 p t)
      then show ?case
        using findRow_fresh [of "refunds s" c]
        by (auto simp: ensure_post_def c_def)
    qed (simp add: ensure_post_def)
  qed (simp add: ensure_post_def)
qed

text \<open>
  A wallet refund whose key is new: success means that it was paid, an error that it was paid or
  not, whichever calls failed.
\<close>

lemma wp_queueAndProcess_wallet:
  assumes kind: "br_Kind cand = BillingRefundKindWallet"
    and fresh: "TrimSpace (br_IdempotencyKey cand) \<notin> br_IdempotencyKey ` set (refunds s)"
  shows "wp (queueAndProcessBillingRefund env cand)
    (\<lambda>r t. (r = Inr () \<longrightarrow> debited (br_UserID cand) t = debited (br_UserID cand) s - br_Amount cand) \<and>
       debited (br_UserID cand) t \<in>
         {debited (br_UserID cand) s, debited (br_UserID cand) s - br_Amount cand}) s"
  unfolding queueAndProcessBillingRefund_def
proof (rule wp_bindI [OF wp_EnsureBillingRefundPending [OF fresh]], goal_cases)
  case (1 err t)
  then show ?case using debited_users [of t s] by (simp add: ensure_post_def)
next
  case (2 p t)
  then have p: "br_UserID p = br_UserID cand" "br_Amount p = br_Amount cand"
    "br_Kind p = BillingRefundKindWallet" "br_Status p = BillingRefundStatusPending"
    "findRow (\<lambda>r. br_ID r = br_ID p) (refunds t) = Some p"
    and users: "users t = users s"
    using kind by (auto simp: ensure_post_def)
  have credit: "debited (br_UserID cand) u = debited (br_UserID cand) s - br_Amount cand"
    if "credited (br_ID p) t p u" for u
    using that refunded_debited [of t p u] p debited_users [OF users] by (simp add: credited_def)
  show ?case
  proof (rule wp_mono [OF wp_ProcessBillingRefund_paid], goal_cases)
    case (1 r u)
    have same: "debited (br_UserID cand) u = debited (br_UserID cand) s" if "bookkept t u"
      using that users by (intro debited_users) (simp add: bookkept_def)
    have only: "q = p" if "credited (br_ID p) t q u" for q
      using that p(5) by (simp add: credited_def)
    have "credited (br_ID p) t p u" if "r = Inr ()"
      using 1 that p(4,5) by (auto simp: paid_def)
    moreover have "bookkept t u \<or> credited (br_ID p) t p u"
      using 1 only by (auto simp: refund_post_def)
    ultimately show ?case using credit same by blast
  qed
qed

section \<open>The used amount of a subscription\<close>

definition usedOf :: "int \<Rightarrow> store \<Rightarrow> int" where
  "usedOf sid s =
     (case findRow (\<lambda>x. us_Id x = sid) (subscriptions s) of None \<Rightarrow> 0 | Some x \<Rightarrow> us_AmountUsed x)"

lemma usedOf_save:
  "us_Id sub = sid \<Longrightarrow> findRow (\<lambda>x. us_Id x = sid) (subscriptions s) \<noteq> None \<Longrightarrow>
   usedOf sid (s\<lparr>subscriptions := updateWhere (\<lambda>x. us_Id x = us_Id sub) (\<lambda>_. sub\<lparr>us_UpdatedAt := now\<rparr>)
     (subscriptions s)\<rparr>) = us_AmountUsed sub"
proof -
  assume sid: "us_Id sub = sid" and "findRow (\<lambda>x. us_Id x = sid) (subscriptions s) \<noteq> None"
  then obtain x where x: "findRow (\<lambda>x. us_Id x = sid) (subscriptions s) = Some x" by auto
  with findRow_Some [OF x] sid show ?thesis by (simp add: usedOf_def findRow_updateWhere)
qed

lemma wp_PostConsume_used:
  assumes "0 \<le> usedOf sid s + d"
  shows "wp (PostConsumeUserSubscriptionDelta now sid d)
    (\<lambda>r t. (r = Inr () \<longrightarrow> usedOf sid t = usedOf sid s + d) \<and>
       usedOf sid t \<in> {usedOf sid s, usedOf sid s + d}) s"
proof -
  have tx: "wp (postConsumeTx now sid d) (\<lambda>r t. r = Inr () \<longrightarrow> usedOf sid t = usedOf sid s + d) s"
    unfolding postConsumeTx_def Let_def
  proof (rule wp_bindI [where P = "\<lambda>r t. t = s \<and> (case r of Inl _ \<Rightarrow> True
      | Inr x \<Rightarrow> findRow (\<lambda>x. us_Id x = sid) (subscriptions s) = Some x \<and> us_Id x = sid)"], goal_cases)
    case (3 x t)
    then have x: "t = s" "findRow (\<lambda>x. us_Id x = sid) (subscriptions s) = Some x" "us_Id x = sid"
      by simp_all
    then have "usedOf sid s = us_AmountUsed x" by (simp add: usedOf_def)
    with x assms usedOf_save [of "x\<lparr>us_AmountUsed := us_AmountUsed x + d\<rparr>" sid s now]
    show ?case by (auto intro!: wp_intro simp: saveSubscription_def)
  qed simp_all
  have "wp (transaction (postConsumeTx now sid d))
      (\<lambda>r t. (r = Inr () \<longrightarrow> usedOf sid t = usedOf sid s + d) \<and>
         usedOf sid t \<in> {usedOf sid s, usedOf sid s + d}) s"
    by (rule wp_transactionI [OF tx]) simp_all
  then show ?thesis
    unfolding PostConsumeUserSubscriptionDelta_def by simp
qed

text \<open>The subscriptions a user may consume, none of them due for a reset.\<close>

definition subs_steady :: "int \<Rightarrow> int \<Rightarrow> store \<Rightarrow> bool" where
  "subs_steady dbnow userId s \<longleftrightarrow>
     distinct (map us_Id (subscriptions s)) \<and>
     (\<forall>x \<in> set (subscriptions s). activeAt dbnow userId x \<longrightarrow>
        0 \<le> us_AmountUsed x \<and> 0 < us_NextResetTime x \<and> dbnow < us_NextResetTime x)"

definition consumed_post :: "int \<Rightarrow> store \<Rightarrow> err + SubscriptionPreConsumeResult \<Rightarrow> store \<Rightarrow> bool" where
  "consumed_post amount s r t \<longleftrightarrow>
     (case r of
        Inl _ \<Rightarrow> True
      | Inr res \<Rightarrow> 0 \<le> usedOf (pr_UserSubscriptionId res) s \<and>
                   usedOf (pr_UserSubscriptionId res) t = usedOf (pr_UserSubscriptionId res) s + amount)"

lemma wp_consumeFrom_used:
  assumes "distinct (map us_Id (subscriptions s))" "sub \<in> set (subscriptions s)" "0 \<le> us_AmountUsed sub"
    "\<forall>r \<in> set (preConsumes s). sr_RequestId r \<noteq> requestId"
  shows "wp (consumeFrom now requestId userId amount sub) (consumed_post amount s) s"
proof -
  have f: "findRow (\<lambda>x. us_Id x = us_Id sub) (subscriptions s) = Some sub"
    by (rule findRow_key [OF assms(1,2)])
  then have u: "usedOf (us_Id sub) s = us_AmountUsed sub" by (simp add: usedOf_def)
  have save: "usedOf (us_Id sub) (s'\<lparr>subscriptions := updateWhere (\<lambda>x. us_Id x = us_Id sub)
      (\<lambda>_. sub\<lparr>us_AmountUsed := us_AmountUsed sub + amount, us_UpdatedAt := now\<rparr>) (subscriptions s)\<rparr>)
      = us_AmountUsed sub + amount" if "subscriptions s' = subscriptions s" for s'
    using usedOf_save [of "sub\<lparr>us_AmountUsed := us_AmountUsed sub + amount\<rparr>" "us_Id sub" s' now] f that
    by simp
  have new: "requestId \<notin> sr_RequestId ` set (preConsumes s)" using assms(4) by auto
  show ?thesis
    unfolding consumeFrom_def createPreConsume_def saveSubscription_def
    using assms(3,4) new u
    by (auto intro!: wp_intro save simp: consumed_post_def)
qed

lemma wp_preConsumeFrom_used:
  assumes "subs_steady dbnow userId s" "\<forall>r \<in> set (preConsumes s). sr_RequestId r \<noteq> requestId"
  shows "(\<forall>x \<in> set subs. x \<in> set (subscriptions s) \<and> activeAt dbnow userId x) \<Longrightarrow>
    wp (preConsumeFrom zone dbnow now planCache requestId userId amount subs) (consumed_post amount s) s"
proof (induction subs)
  case (Cons x subs)
  have x: "x \<in> set (subscriptions s)" "0 \<le> us_AmountUsed x" "0 < us_NextResetTime x" "dbnow < us_NextResetTime x"
    and d: "distinct (map us_Id (subscriptions s))"
    using Cons.prems assms(1) by (auto simp: subs_steady_def)
  have same: "maybeResetUserSubscriptionWithPlanTx zone dbnow now x plan = ret x" for plan
    using x by (simp add: maybeResetUserSubscriptionWithPlanTx_def)
  have plan: "wp (getSubscriptionPlanById planCache (us_PlanId x)) (\<lambda>_ t. t = s) s"
    by (rule keeps_wp [OF keeps_subs_getPlan]) simp
  have "wp (if us_AmountTotal x > 0 \<and> us_AmountTotal x - us_AmountUsed x < amount
      then preConsumeFrom zone dbnow now planCache requestId userId amount subs
      else consumeFrom now requestId userId amount x) (consumed_post amount s) s"
    using Cons.IH Cons.prems wp_consumeFrom_used [OF d x(1,2) assms(2)] by simp
  then show ?case
    by (simp only: preConsumeFrom.simps same)
       (intro wp_bindI [OF plan] wp_bindE, simp_all add: consumed_post_def)
qed (simp add: consumed_post_def)

lemma wp_PreConsume_used:
  assumes "subs_steady dbnow userId s" "\<forall>r \<in> set (preConsumes s). sr_RequestId r \<noteq> requestId"
  shows "wp (PreConsumeUserSubscription zone dbnow now planCache requestId userId amount)
    (consumed_post amount s) s"
proof -
  have none: "findRow (\<lambda>r. sr_RequestId r = requestId) (preConsumes s) = None"
    using assms(2) by (simp add: findRow_None)
  have "wp (preConsumeTx zone dbnow now planCache requestId userId amount) (consumed_post amount s) s"
    unfolding preConsumeTx_def
    by (auto intro!: wp_intro wp_preConsumeFrom_used [OF assms] simp: none consumed_post_def)
  then show ?thesis
    unfolding PreConsumeUserSubscription_def
    by (intro wp_if wp_transactionI [where P = "consumed_post amount s"]) (auto simp: consumed_post_def)
qed

section \<open>What a funding source promises\<close>

text \<open>
  \<open>charged\<close> is the state of the account of a source. A successful \<open>pre\<close> charges the
  amount and leaves a source that holds it; then a successful \<open>settle\<close> changes the account by
  exactly the difference, and a failing one by the difference or not at all.
\<close>

locale funding_source =
  fixes pre settle :: "int \<Rightarrow> 'f \<Rightarrow> (store, 'f \<times> err option) act"
    and charged :: "'f \<Rightarrow> store \<Rightarrow> int"
    and ready holds :: "int \<Rightarrow> 'f \<Rightarrow> store \<Rightarrow> bool"
  assumes pre_law: "ready n f s \<Longrightarrow>
      wp (pre n f) (\<lambda>r t. \<exists>f' e. r = Inr (f', e) \<and>
        (e = None \<longrightarrow> holds n f' t \<and> charged f' t = charged f' s + n)) s"
    and settle_law: "holds n f s \<Longrightarrow> - n \<le> d \<Longrightarrow>
      wp (settle d f) (\<lambda>r t. \<exists>f' e. r = Inr (f', e) \<and> charged f' = charged f \<and>
        (e = None \<longrightarrow> charged f t = charged f s + d) \<and>
        charged f t \<in> {charged f s, charged f s + d}) s"
begin

text \<open>A request that pre-consumes n and settles at the actual amount costs the actual amount.\<close>

lemma request_cost:
  assumes "ready n f s" "0 \<le> actual"
  shows "wp (andThen (pre n f) (settle (actual - n)))
    (\<lambda>r t. \<forall>f'. r = Inr (f', None) \<longrightarrow> charged f' t = charged f' s + actual) s"
  unfolding andThen_def
proof (rule wp_bindI [OF pre_law [OF assms(1)]], goal_cases)
  case (2 a t)
  then obtain f1 e where a: "a = (f1, e)"
    and pre: "e = None \<longrightarrow> holds n f1 t \<and> charged f1 t = charged f1 s + n" by auto
  show ?case
  proof (cases e)
    case None
    with pre have h: "holds n f1 t" and c: "charged f1 t = charged f1 s + n" by auto
    from assms(2) have "- n \<le> actual - n" by simp
    have "wp (settle (actual - n) f1) (\<lambda>r t. \<forall>f'. r = Inr (f', None) \<longrightarrow> charged f' t = charged f' s + actual) t"
      by (rule wp_mono [OF settle_law [OF h \<open>- n \<le> actual - n\<close>]]) (use c in auto)
    with None a show ?thesis by simp
  qed (simp add: a)
qed simp

end

section \<open>The wallet keeps the promise\<close>

definition walletCharged :: "WalletFunding \<Rightarrow> store \<Rightarrow> int" where
  "walletCharged w s = debited (wf_userId w) s"

definition walletHolds :: "int \<Rightarrow> WalletFunding \<Rightarrow> store \<Rightarrow> bool" where
  "walletHolds n w s \<longleftrightarrow>
     TrimSpace (wf_operationID w) \<noteq> [] \<and>
     walletKey w ''wallet-settle-debit'' \<notin> bl_IdempotencyKey ` set (ledgers s) \<and>
     walletKey w ''wallet-settle-refund'' \<notin> br_IdempotencyKey ` set (refunds s)"

definition walletReady :: "int \<Rightarrow> WalletFunding \<Rightarrow> store \<Rightarrow> bool" where
  "walletReady n w s \<longleftrightarrow>
     0 \<le> n \<and> walletHolds n w s \<and>
     walletKey w ''wallet-preconsume'' \<notin> bl_IdempotencyKey ` set (ledgers s)"

lemma TrimSpace_walletKey [simp]:
  "TrimSpace (walletKey w ''wallet-preconsume'') = walletKey w ''wallet-preconsume''"
  "TrimSpace (walletKey w ''wallet-settle-debit'') = walletKey w ''wallet-settle-debit''"
  "TrimSpace (walletKey w ''wallet-settle-refund'') = walletKey w ''wallet-settle-refund''"
  by (simp_all add: walletKey_def TrimSpace_refundKey plainByte_def)

lemma wp_reporting:
  assumes "wp m P s" "\<And>e t. P (Inl e) t \<Longrightarrow> Q (Inr (x, Some e)) t" "\<And>a t. P (Inr a) t \<Longrightarrow> Q (Inr (f a, None)) t"
  shows "wp (reporting m x f) Q s"
  unfolding reporting_def
  by (rule wp_bind_attemptI [OF assms(1)]) (auto intro: assms(2,3) split: sum.splits)

lemma wallet_settle_law:
  assumes "walletHolds n w s"
  shows "wp (walletSettle env d w) (\<lambda>r t. \<exists>w' e. r = Inr (w', e) \<and> walletCharged w' = walletCharged w \<and>
      (e = None \<longrightarrow> walletCharged w t = walletCharged w s + d) \<and>
      walletCharged w t \<in> {walletCharged w s, walletCharged w s + d}) s"
proof -
  have w: "withOperation env w = w" using assms by (simp add: withOperation_def walletHolds_def)
  have fresh: "walletKey w ''wallet-settle-debit'' \<notin> bl_IdempotencyKey ` set (ledgers s)"
    "TrimSpace (br_IdempotencyKey (walletRefund (wf_userId w) (- d) (walletKey w ''wallet-settle-refund'')
       (wf_requestId w))) \<notin> br_IdempotencyKey ` set (refunds s)"
    using assms by (simp_all add: walletHolds_def walletRefund_def)
  have kind: "br_Kind (walletRefund (wf_userId w) (- d) (walletKey w ''wallet-settle-refund'')
       (wf_requestId w)) = BillingRefundKindWallet"
    by (simp add: walletRefund_def)
  note debit = wp_applyWalletBalanceMutation [OF debits_usage(2) fresh(1), simplified]
  note refund = wp_queueAndProcess_wallet [OF kind fresh(2)]
  show ?thesis
    unfolding walletSettle_def Let_def w
    by (intro wp_if wp_reporting [OF debit] wp_reporting [OF refund])
       (auto simp: debit_post_def walletCharged_def walletRefund_def)
qed

lemma wallet_pre_law:
  assumes "walletReady n w s"
  shows "wp (walletPreConsume env n w) (\<lambda>r t. \<exists>w' e. r = Inr (w', e) \<and>
      (e = None \<longrightarrow> walletHolds n w' t \<and> walletCharged w' t = walletCharged w' s + n)) s"
proof -
  have w: "withOperation env w = w"
    using assms by (simp add: withOperation_def walletHolds_def walletReady_def)
  have fresh: "walletKey w ''wallet-preconsume'' \<notin> bl_IdempotencyKey ` set (ledgers s)"
    using assms by (simp add: walletReady_def)
  note debit = wp_applyWalletBalanceMutation [OF debits_usage(1) fresh, simplified]
  have other: "walletKey w ''wallet-settle-debit'' \<noteq> walletKey w ''wallet-preconsume''"
    by (simp add: walletKey_def)
  have holds: "walletHolds n (w\<lparr>wf_consumed := n\<rparr>) t"
    if "debit_post (wf_userId w) n (walletKey w ''wallet-preconsume'') s (Inr ()) t" for t
    using that assms other
    by (auto simp: debit_post_def walletReady_def walletHolds_def walletKey_def)
  show ?thesis
    unfolding walletPreConsume_def Let_def w
  proof (rule wp_if)
    assume "n \<le> 0"
    with assms show "wp (ret (w, None)) (\<lambda>r t. \<exists>w' e. r = Inr (w', e) \<and>
        (e = None \<longrightarrow> walletHolds n w' t \<and> walletCharged w' t = walletCharged w' s + n)) s"
      by (simp add: walletReady_def walletHolds_def)
  qed (rule wp_reporting [OF debit], auto simp: holds, simp add: debit_post_def walletCharged_def)
qed

interpretation wallet: funding_source "walletPreConsume env" "walletSettle env" walletCharged walletReady walletHolds
  for env
  by unfold_locales (rule wallet_pre_law, assumption, rule wallet_settle_law, assumption)

section \<open>A subscription keeps the promise\<close>

definition subscriptionCharged :: "SubscriptionFunding \<Rightarrow> store \<Rightarrow> int" where
  "subscriptionCharged x s = usedOf (sf_subscriptionId x) s"

definition subscriptionHolds :: "int \<Rightarrow> SubscriptionFunding \<Rightarrow> store \<Rightarrow> bool" where
  "subscriptionHolds n x s \<longleftrightarrow> n \<le> subscriptionCharged x s"

definition subscriptionReady :: "billEnv \<Rightarrow> int \<Rightarrow> SubscriptionFunding \<Rightarrow> store \<Rightarrow> bool" where
  "subscriptionReady env n x s \<longleftrightarrow>
     sf_amount x = n \<and> subs_steady (be_dbnow env) (sf_userId x) s \<and>
     (\<forall>r \<in> set (preConsumes s). sr_RequestId r \<noteq> sf_requestId x)"

lemma subscription_pre_law:
  assumes "subscriptionReady env n x s"
  shows "wp (subscriptionPreConsume env x) (\<lambda>r t. \<exists>x' e. r = Inr (x', e) \<and>
      (e = None \<longrightarrow> subscriptionHolds n x' t \<and> subscriptionCharged x' t = subscriptionCharged x' s + n)) s"
proof -
  have ready: "subs_steady (be_dbnow env) (sf_userId x) s"
    "\<forall>r \<in> set (preConsumes s). sr_RequestId r \<noteq> sf_requestId x" and n: "sf_amount x = n"
    using assms by (auto simp: subscriptionReady_def)
  have info: "keeps I (GetSubscriptionPlanInfoByUserSubscriptionId ic pc sid)" for I ic pc sid
    unfolding GetSubscriptionPlanInfoByUserSubscriptionId_def by (intro keeps_intro)
  have id: "sf_subscriptionId (withPlanInfo i (consumedFunding res x)) = pr_UserSubscriptionId res" for i res
    by (simp add: withPlanInfo_def consumedFunding_def split: sum.splits prod.splits)
  show ?thesis
    unfolding subscriptionPreConsume_def
  proof (rule wp_bind_attemptI [OF wp_PreConsume_used [OF ready]], goal_cases)
    case (1 r t)
    show ?case
    proof (cases r)
      case (Inr res)
      with 1 n show ?thesis
        by (auto intro!: wp_bind_attemptI [OF keeps_wp [OF info, of "\<lambda>u. u = t"]]
            simp: id consumed_post_def subscriptionHolds_def subscriptionCharged_def)
    qed simp
  qed
qed

lemma subscription_settle_law:
  assumes "subscriptionHolds n x s" "- n \<le> d"
  shows "wp (reporting (subscriptionSettle env d x) x (\<lambda>_. x)) (\<lambda>r t. \<exists>x' e. r = Inr (x', e) \<and>
      subscriptionCharged x' = subscriptionCharged x \<and>
      (e = None \<longrightarrow> subscriptionCharged x t = subscriptionCharged x s + d) \<and>
      subscriptionCharged x t \<in> {subscriptionCharged x s, subscriptionCharged x s + d}) s"
proof -
  have "0 \<le> usedOf (sf_subscriptionId x) s + d"
    using assms by (simp add: subscriptionHolds_def subscriptionCharged_def)
  note post = wp_PostConsume_used [OF this]
  have "wp (subscriptionSettle env d x) (\<lambda>r t.
      (r = Inr () \<longrightarrow> usedOf (sf_subscriptionId x) t = usedOf (sf_subscriptionId x) s + d) \<and>
      usedOf (sf_subscriptionId x) t \<in> {usedOf (sf_subscriptionId x) s, usedOf (sf_subscriptionId x) s + d}) s"
    unfolding subscriptionSettle_def using post by simp
  then show ?thesis
    by (rule wp_reporting) (simp_all add: subscriptionCharged_def)
qed

interpretation subscription: funding_source "\<lambda>_. subscriptionPreConsume env"
    "\<lambda>d x. reporting (subscriptionSettle env d x) x (\<lambda>_. x)"
    subscriptionCharged "subscriptionReady env" subscriptionHolds
  for env
  by unfold_locales (rule subscription_pre_law, assumption, rule subscription_settle_law)

section \<open>The sources behind the interface\<close>

definition fundingCharged :: "FundingSource \<Rightarrow> store \<Rightarrow> int" where
  "fundingCharged f s =
     (case f of WalletSource w \<Rightarrow> walletCharged w s | SubscriptionSource x \<Rightarrow> subscriptionCharged x s)"

definition fundingReady :: "billEnv \<Rightarrow> int \<Rightarrow> FundingSource \<Rightarrow> store \<Rightarrow> bool" where
  "fundingReady env n f s =
     (case f of WalletSource w \<Rightarrow> walletReady n w s | SubscriptionSource x \<Rightarrow> subscriptionReady env n x s)"

definition fundingHolds :: "int \<Rightarrow> FundingSource \<Rightarrow> store \<Rightarrow> bool" where
  "fundingHolds n f s =
     (case f of WalletSource w \<Rightarrow> walletHolds n w s | SubscriptionSource x \<Rightarrow> subscriptionHolds n x s)"

lemmas funding_defs = fundingCharged_def fundingReady_def fundingHolds_def

interpretation funding: funding_source "fundingPreConsume env" "fundingSettle env"
    fundingCharged "fundingReady env" fundingHolds
  for env
proof (unfold_locales, goal_cases)
  case (1 n f s)
  show ?case
  proof (cases f)
    case (WalletSource w)
    with 1 have "walletReady n w s" by (simp add: fundingReady_def)
    with WalletSource show ?thesis
      by (auto intro!: wp_bindI [OF wallet.pre_law] simp: fundingPreConsume_def funding_defs)
  next
    case (SubscriptionSource x)
    with 1 have "subscriptionReady env n x s" by (simp add: fundingReady_def)
    with SubscriptionSource show ?thesis
      by (auto intro!: wp_bindI [OF subscription.pre_law] simp: fundingPreConsume_def funding_defs)
  qed
next
  case (2 n f s d)
  show ?case
  proof (cases f)
    case (WalletSource w)
    with 2 have "walletHolds n w s" by (simp add: fundingHolds_def)
    with WalletSource 2(2) show ?thesis
      by (auto intro!: wp_bindI [OF wallet.settle_law] simp: fundingSettle_def funding_defs fun_eq_iff)
  next
    case (SubscriptionSource x)
    with 2 have h: "subscriptionHolds n x s" by (simp add: fundingHolds_def)
    have eq: "fundingSettle env d f =
        bindE (reporting (subscriptionSettle env d x) x (\<lambda>_. x)) (\<lambda>(x', e). ret (SubscriptionSource x', e))"
      by (simp add: fundingSettle_def SubscriptionSource reporting_def bindE_def attempt_def ret_def fun_eq_iff
          split: sum.splits prod.splits)
    show ?thesis
      unfolding eq
      by (rule wp_bindI [OF subscription.settle_law [OF h 2(2)]])
         (auto simp: SubscriptionSource funding_defs fun_eq_iff)
  qed
qed

section \<open>The session\<close>

text \<open>The token's quota is elsewhere, and the request id plays no part in the account.\<close>

definition sameFunds :: "store \<Rightarrow> store \<Rightarrow> bool" where
  "sameFunds s t \<longleftrightarrow>
     users t = users s \<and> ledgers t = ledgers s \<and> refunds t = refunds s \<and>
     subscriptions t = subscriptions s \<and> preConsumes t = preConsumes s"

lemma sameFunds_refl [simp]: "sameFunds s s"
  by (simp add: sameFunds_def)

lemma funding_sameFunds:
  "sameFunds s t \<Longrightarrow> fundingCharged f t = fundingCharged f s \<and>
     fundingReady env n f t = fundingReady env n f s \<and> fundingHolds n f t = fundingHolds n f s"
  by (auto simp: sameFunds_def funding_defs walletCharged_def debited_def balanceOf_def usedOf_def
      subscriptionCharged_def walletReady_def walletHolds_def subscriptionReady_def subs_steady_def
      subscriptionHolds_def split: FundingSource.splits)

lemma funding_setRequestId [simp]:
  "fundingCharged (setFundingRequestId rid f) = fundingCharged f"
  "fundingHolds n (setFundingRequestId rid f) = fundingHolds n f"
  by (auto simp: funding_defs setFundingRequestId_def walletCharged_def subscriptionCharged_def
      walletHolds_def subscriptionHolds_def walletKey_def fun_eq_iff split: FundingSource.splits)

lemma keeps_sameFunds_tokens:
  "keeps (sameFunds s) (updateToken P f)"
  by (rule keepsI) (auto simp: sameFunds_def)

lemma keeps_sameFunds_quota [keeps_intro]:
  "keeps (sameFunds s) (DecreaseTokenQuota now tid q)"
  "keeps (sameFunds s) (IncreaseTokenQuota now tid q)"
  "keeps (sameFunds s) (ExhaustTokenQuota redis now tid key)"
  "keeps (sameFunds s) (PreConsumeTokenQuota env info q)"
  "keeps (sameFunds s) (settleToken env q info)"
  unfolding DecreaseTokenQuota_def decreaseTokenQuota_def IncreaseTokenQuota_def increaseTokenQuota_def
    ExhaustTokenQuota_def PreConsumeTokenQuota_def settleToken_def
  by (intro keeps_intro keeps_sameFunds_tokens)+

text \<open>The first step of a session: the token's quota, then the funding source's.\<close>

lemma wp_sessionPreConsume_cost:
  assumes "fundingReady env n (bs_funding (ensureRequestID env s0)) s"
    "\<not> bs_settled s0" "\<not> bs_fundingSettled s0"
  shows "wp (sessionPreConsume env n s0) (\<lambda>r t. \<forall>s1. r = Inr (s1, None) \<longrightarrow>
      fundingHolds n (bs_funding s1) t \<and>
      fundingCharged (bs_funding s1) t = fundingCharged (bs_funding s1) s + n \<and>
      bs_preConsumedQuota s1 = n \<and> \<not> bs_settled s1 \<and> \<not> bs_fundingSettled s1) s"
    (is "wp _ ?Q s")
proof -
  define e where "e = ensureRequestID env s0"
  have e: "\<not> bs_settled e" "\<not> bs_fundingSettled e" "fundingReady env n (bs_funding e) s"
    using assms by (simp_all add: e_def ensureRequestID_def Let_def)
  let ?P = "\<lambda>r t. sameFunds s t \<and> (\<forall>s1. r = Inr (s1, None) \<longrightarrow>
      bs_funding s1 = bs_funding e \<and> \<not> bs_settled s1 \<and> \<not> bs_fundingSettled s1)"
  have token: "wp (if n > 0 \<and> \<not> ri_TokenUnlimited (bs_relayInfo e) then
        bindE (attempt (PreConsumeTokenQuota env (bs_relayInfo e) n)) (\<lambda>r.
          case r of
            Inl err \<Rightarrow> ret (e, Some (ErrorCodePreConsumeTokenQuotaFailed, err))
          | Inr _ \<Rightarrow> ret (e\<lparr>bs_tokenConsumed := n\<rparr>, None))
      else ret (e, None)) ?P s"
    using e
    by (intro wp_if wp_bind_attemptI [OF keeps_wp [OF keeps_sameFunds_quota(4), of s]])
       (auto split: sum.splits)
  have rollback: "wp (bindE (rollbackToken env s1) (\<lambda>s2. ret (s2, Some err))) ?Q t" for s1 err t
    by (rule wp_bindI [where P = "\<lambda>_ _. True"]) (simp add: wp_def split: prod.splits, simp_all)
  show ?thesis
    unfolding sessionPreConsume_def Let_def andThen_def e_def [symmetric]
  proof (rule wp_bindI [OF token], goal_cases)
    case (2 a t)
    obtain s1 err where a: "a = (s1, err)" by (cases a)
    show ?case
    proof (cases err)
      case None
      with 2 a have f: "bs_funding s1 = bs_funding e" "\<not> bs_settled s1" "\<not> bs_fundingSettled s1"
        and same: "sameFunds s t" by auto
      have ready: "fundingReady env n (bs_funding s1) t"
        using e(3) f(1) funding_sameFunds [OF same] by simp
      show ?thesis
        using a None f(2,3) funding_sameFunds [OF same]
        by (auto intro!: wp_bindI [OF funding.pre_law [OF ready]] rollback
            simp: syncRelayInfo_def Let_def split: option.splits)
    qed (simp add: a)
  qed simp
qed

lemma wp_sessionSettle_cost:
  assumes "fundingHolds n (bs_funding s1) s" "0 \<le> actual"
    "bs_preConsumedQuota s1 = n" "\<not> bs_settled s1" "\<not> bs_fundingSettled s1"
  shows "wp (sessionSettle env actual s1) (\<lambda>r t. \<exists>s2 e. r = Inr (s2, e) \<and>
      fundingCharged (bs_funding s2) = fundingCharged (bs_funding s1) \<and>
      (bs_fundingSettled s2 \<longrightarrow> fundingCharged (bs_funding s1) t = fundingCharged (bs_funding s1) s + (actual - n)) \<and>
      (e = None \<longrightarrow> bs_fundingSettled s2)) s"
proof -
  define z where "z = ensureRequestID env s1"
  have z: "bs_preConsumedQuota z = n" "\<not> bs_fundingSettled z" "fundingHolds n (bs_funding z) s"
    "fundingCharged (bs_funding z) = fundingCharged (bs_funding s1)"
    using assms by (simp_all add: z_def ensureRequestID_def Let_def)
  have "- n \<le> actual - n" using assms(2) by simp
  note settle = funding.settle_law [OF z(3) this]
  have token: "wp (reporting (settleToken env d info) x (\<lambda>_. x)) (\<lambda>r u. \<exists>e. r = Inr (x, e) \<and> sameFunds t u) t"
    for d info x t
    by (rule wp_reporting [OF keeps_wp [OF keeps_sameFunds_quota(5), of t]]) simp_all
  have unsettled: "\<not> bs_settled s1" by fact
  have rest: "wp (reporting (settleToken env d info) x (\<lambda>_. x)) (\<lambda>r t. \<exists>s2 e. r = Inr (s2, e) \<and>
      fundingCharged (bs_funding s2) = fundingCharged (bs_funding s1) \<and>
      (bs_fundingSettled s2 \<longrightarrow> fundingCharged (bs_funding s1) t = fundingCharged (bs_funding s1) s + (actual - n)) \<and>
      (e = None \<longrightarrow> bs_fundingSettled s2)) t"
    if "fundingCharged (bs_funding x) = fundingCharged (bs_funding s1)" "bs_fundingSettled x"
      "fundingCharged (bs_funding s1) t = fundingCharged (bs_funding s1) s + (actual - n)" for d info x t
    by (rule wp_mono [OF token]) (use that funding_sameFunds in fastforce)
  show ?thesis
    unfolding sessionSettle_def Let_def z_def [symmetric] if_not_P [OF unsettled] if_not_P [OF z(2)] z(1)
  proof (rule wp_bindI [OF settle], goal_cases)
    case (2 a t)
    then obtain f e where a: "a = (f, e)" and f: "fundingCharged f = fundingCharged (bs_funding s1)"
      and t: "e = None \<Longrightarrow> fundingCharged (bs_funding s1) t = fundingCharged (bs_funding s1) s + (actual - n)"
      using z(4) by auto
    show ?case
    proof (cases e)
      case None
      with f t a show ?thesis by (simp add: rest)
    next
      case (Some err)
      with f a z(2) show ?thesis by simp
    qed
  qed simp
qed


section \<open>A run\<close>

text \<open>
  A wallet session on a working database: 50 pre-consumed, 60 used. The digest in the keys is
  never evaluated; that keys are short, not empty and not trimmed is all the runs need.
\<close>

definition demoBillEnv :: billEnv where
  "demoBillEnv = \<lparr>be_now = 5, be_dbnow = 5, be_zone = 0, be_redis = True, be_batch = False,
     be_planCache = (\<lambda>_. None), be_infoCache = (\<lambda>_. None), be_quotaCache = (\<lambda>_. None),
     be_operationUUID = ''u1'', be_requestUUID = ''q1''\<rparr>"

definition demoInfo :: RelayInfo where
  "demoInfo = \<lparr>ri_UserId = 7, ri_TokenId = 3, ri_TokenKeyHash = ''h'', ri_TokenUnlimited = True,
     ri_RequestId = ''r1'', ri_UserQuota = 0, ri_BillingPreference = [], ri_FinalPreConsumedQuota = 0,
     ri_BillingSource = [], ri_SubscriptionId = 0, ri_SubscriptionPreConsumed = 0,
     ri_SubscriptionPostDelta = 0, ri_SubscriptionAmountTotal = 0,
     ri_SubscriptionAmountUsedAfterPreConsume = 0, ri_SubscriptionPlanId = 0, ri_SubscriptionPlanTitle = []\<rparr>"

definition demoWallet :: FundingSource where
  "demoWallet = WalletSource \<lparr>wf_operationID = ''u1'', wf_requestId = ''r1'', wf_userId = 7, wf_consumed = 0\<rparr>"

lemma length_refundKey: "length (billingRefundIdempotencyKey op kind) \<le> 48 + length kind"
proof -
  have "length (hexEncode s) = 2 * length s" for s by (induction s) (simp_all add: hexEncode_def)
  then show ?thesis by (simp add: billingRefundIdempotencyKey_def)
qed
lemma refundKey_run [simp]:
  "length kind \<le> 70 \<Longrightarrow>
     \<not> BalanceLedgerIdempotencyKeyMaxLength < length (billingRefundIdempotencyKey op kind)"
  "billingRefundIdempotencyKey op kind \<noteq> []"
  "kind \<noteq> [] \<Longrightarrow> plainByte (last kind) \<Longrightarrow>
     TrimSpace (billingRefundIdempotencyKey op kind) = billingRefundIdempotencyKey op kind"
  using length_refundKey [of op kind]
  by (simp_all add: BalanceLedgerIdempotencyKeyMaxLength_def TrimSpace_refundKey)
     (simp add: billingRefundIdempotencyKey_def)

lemma plainByte_run [simp]:
  "plainByte CHR ''e''" "plainByte CHR ''t''" "plainByte CHR ''d''" "plainByte CHR ''n''"
  "plainByte CHR ''0''" "plainByte CHR ''1''"
  by (simp_all add: plainByte_def)

lemma TrimSpace_demo:
  "TrimSpace ''r1'' = ''r1''" "TrimSpace ''u1'' = ''u1''"
  by code_simp+

definition demoSession :: BillingSession where
  "demoSession = newSession demoBillEnv demoInfo demoWallet"

definition demoEntry :: "int \<Rightarrow> int \<Rightarrow> int \<Rightarrow> string \<Rightarrow> string \<Rightarrow> string \<Rightarrow> BalanceLedger" where
  "demoEntry i before amount kind reason source =
     \<lparr>bl_ID = i, bl_UserID = 7, bl_OperatorID = 0, bl_Delta = - amount, bl_BalanceBefore = before,
      bl_BalanceAfter = before - amount, bl_Reason = reason,
      bl_IdempotencyKey = billingRefundIdempotencyKey ''u1'' kind, bl_RequestID = ''r1'',
      bl_SourceType = source, bl_CreatedAt = 5\<rparr>"

definition demoReserved :: store where
  "demoReserved = demoStore\<lparr>users := [demoUser\<lparr>u_Quota := 450\<rparr>],
     ledgers := [demoEntry 1 500 50 ''wallet-preconsume'' ''prepaid wallet usage reservation''
       BalanceLedgerSourceUsageReservation]\<rparr>"

definition demoSettled :: store where
  "demoSettled = demoStore\<lparr>users := [demoUser\<lparr>u_Quota := 440\<rparr>],
     ledgers := ledgers demoReserved @ [demoEntry 2 450 10 ''wallet-settle-debit''
       ''actual usage exceeded the prepaid wallet reservation'' BalanceLedgerSourceUsageSettlement]\<rparr>"

definition demoHeldWallet :: WalletFunding where
  "demoHeldWallet =
     \<lparr>wf_operationID = ''u1'', wf_requestId = ''r1'', wf_userId = 7, wf_consumed = 50\<rparr>"

definition demoHeld :: BillingSession where
  "demoHeld = demoSession\<lparr>bs_funding := WalletSource demoHeldWallet, bs_preConsumedQuota := 50,
     bs_relayInfo := demoInfo\<lparr>ri_FinalPreConsumedQuota := 50, ri_BillingSource := ''wallet''\<rparr>\<rparr>"

lemmas wallet_run_defs =
  TrimSpace_demo demoBillEnv_def Let_def reporting_def withOperation_def walletPreConsume_def
  walletSettle_def applyWalletBalanceMutation_def ReserveUserBalanceDebit_def
  SettleUserBalanceDebit_def adjustUserBalance_def normalizedAdjustment_def TrimSpace_reasons
  adjustAndSync_def adjustUserBalanceTx_def store_ops walletKey_def syncLedgerCache_def
  checkedSum_def checkedBalanceLedgerSum_def checkedSettlementBalanceLedgerSum_def
  maxBalanceLedgerQuota_def MaxInt32_def demoStore_def demoUser_def balanceLedgerUserUpdates_def
  applyUserUpdates_def status_defs freshId_def demoReserved_def demoSettled_def demoEntry_def
  demoHeldWallet_def

lemma demo_walletPreConsume:
  "walletPreConsume demoBillEnv 50
     \<lparr>wf_operationID = ''u1'', wf_requestId = ''r1'', wf_userId = 7, wf_consumed = 0\<rparr>
     \<lparr>db = demoStore, faults = []\<rparr> =
   (Inr (demoHeldWallet, None), \<lparr>db = demoReserved, faults = []\<rparr>)"
  by (simp add: wallet_run_defs)

lemma demo_walletSettle:
  "walletSettle demoBillEnv 10 demoHeldWallet \<lparr>db = demoReserved, faults = []\<rparr> =
   (Inr (demoHeldWallet, None), \<lparr>db = demoSettled, faults = []\<rparr>)"
  by (simp add: wallet_run_defs)

lemma demo_ensureRequestID:
  "ensureRequestID demoBillEnv demoSession = demoSession"
  "ensureRequestID demoBillEnv demoHeld = demoHeld"
  by (simp_all add: ensureRequestID_def Let_def demoHeld_def demoSession_def newSession_def
      demoInfo_def demoWallet_def TrimSpace_demo setFundingRequestId_def demoHeldWallet_def)

lemma demoSession_simps:
  "bs_relayInfo demoSession = demoInfo" "ri_TokenUnlimited demoInfo" "bs_funding demoSession = demoWallet"
  by (simp_all add: demoSession_def newSession_def demoInfo_def)

lemma demo_preConsume:
  "sessionPreConsume demoBillEnv 50 demoSession \<lparr>db = demoStore, faults = []\<rparr> =
   (Inr (demoHeld, None), \<lparr>db = demoReserved, faults = []\<rparr>)"
  by (simp add: sessionPreConsume_def andThen_def demo_ensureRequestID demoSession_simps bindE_def
      ret_def fundingPreConsume_def demo_walletPreConsume demoWallet_def)
     (simp add: syncRelayInfo_def Let_def demoHeld_def demoSession_simps fundingSource_def demoInfo_def
      demoSession_def newSession_def)

lemma demo_settle:
  "sessionSettle demoBillEnv 60 demoHeld \<lparr>db = demoReserved, faults = []\<rparr> =
   (Inr (demoHeld\<lparr>bs_fundingSettled := True, bs_settled := True\<rparr>, None),
    \<lparr>db = demoSettled, faults = []\<rparr>)"
  by (simp add: sessionSettle_def Let_def demo_ensureRequestID, simp add: demoHeld_def demoSession_def
      newSession_def fundingSettle_def bindE_def demo_walletSettle ret_def fundingSource_def
      reporting_def settleToken_def demoInfo_def attempt_def)


end
