(* ===== verification/SessionRuns.thy ===== *)
theory SessionRuns
  imports Cost
begin

text \<open>
  Sessions and the tables around them: every call of a session keeps the balance ledger a true
  record of the balances, and two runs in which a failure makes a session refund too much.
\<close>

section \<open>The ledger stays a true record\<close>

text \<open>Actions that leave users and ledger alone, and those that post to both together.\<close>

definition bankIs :: "User list \<Rightarrow> BalanceLedger list \<Rightarrow> store \<Rightarrow> bool" where
  "bankIs us ls t \<longleftrightarrow> users t = us \<and> ledgers t = ls"

lemma ledger_ok_frameI:
  "ledger_ok base s \<Longrightarrow> users t = users s \<Longrightarrow> ledgers t = ledgers s \<Longrightarrow> ledger_ok base t"
  using ledger_ok_frame [of t s base] by simp

lemma keeps_ledger_frame:
  assumes "\<And>us ls. keeps (bankIs us ls) m"
  shows "keeps (ledger_ok base) m"
proof (rule keepsI)
  fix s assume s: "ledger_ok base s"
  have "wp m (\<lambda>_. bankIs (users s) (ledgers s)) s"
    by (rule keeps_wp [OF assms]) (simp add: bankIs_def)
  then show "wp m (\<lambda>_. ledger_ok base) s"
    by (rule wp_mono) (use s in \<open>auto simp: bankIs_def intro: ledger_ok_frameI\<close>)
qed

lemma keeps_ledger_debits:
  "keeps (ledger_ok base) (ReserveUserBalanceDebit now uid amount key rid)"
  "keeps (ledger_ok base) (SettleUserBalanceDebit now uid amount key rid)"
proof -
  show "keeps (ledger_ok base) (ReserveUserBalanceDebit now uid amount key rid)"
    by (rule keepsI, rule wp_mono [OF wp_ReserveUserBalanceDebit], rule adjust_post_ledger_ok)
  show "keeps (ledger_ok base) (SettleUserBalanceDebit now uid amount key rid)"
    by (rule keepsI, rule wp_mono [OF wp_SettleUserBalanceDebit], rule adjust_post_ledger_ok)
qed

lemma keeps_applyMutation:
  "keeps I m \<Longrightarrow> keeps I (applyWalletBalanceMutation m)"
  unfolding applyWalletBalanceMutation_def by (intro keeps_intro)

lemma ledger_ok_refunded: "ledger_ok base s \<Longrightarrow> refunded s p t \<Longrightarrow> ledger_ok base t"
  unfolding refunded_def Let_def
  by (auto intro: ledger_ok_posted ledger_ok_frameI split: if_splits)

lemma keeps_ledger_queue: "keeps (ledger_ok base) (queueAndProcessBillingRefund env cand)"
proof -
  have ensure: "keeps (bankIs us ls) (EnsureBillingRefundPending now c)" for us ls now c
  proof -
    have "keeps (bankIs us ls) (createRefund r)" for r
      unfolding createRefund_def
      by (intro keeps_intro keeps_stmt_frame) (auto simp: bankIs_def Let_def split: if_splits)
    then show ?thesis
      unfolding EnsureBillingRefundPending_def Let_def firstOrCreateRefund_def
      by (intro keeps_intro)
  qed
  have process: "keeps (ledger_ok base) (ProcessBillingRefundPending redis now rid)" for redis now rid
  proof (rule keepsI)
    fix s assume s: "ledger_ok base s"
    show "wp (ProcessBillingRefundPending redis now rid) (\<lambda>_. ledger_ok base) s"
      by (rule wp_mono [OF wp_ProcessBillingRefundPending])
         (use s in \<open>auto simp: refund_post_def bookkept_def credited_def
           intro: ledger_ok_frameI ledger_ok_refunded\<close>)
  qed
  show ?thesis
    unfolding queueAndProcessBillingRefund_def
    by (intro keeps_bindE keeps_ledger_frame [OF ensure] process)
qed

lemma keeps_bank_rows:
  "keeps (bankIs us ls) (saveSubscription now sub)"
  "keeps (bankIs us ls) (createPreConsume r)"
  "keeps (bankIs us ls) (savePreConsume now r)"
  "keeps (bankIs us ls) (updateToken P f)"
  unfolding saveSubscription_def createPreConsume_def savePreConsume_def updateToken_def updateRows_def
  by (intro keeps_intro keeps_stmt_frame; auto simp: bankIs_def split: if_splits)+

lemma keeps_bank_maybeReset:
  "keeps (bankIs us ls) (maybeResetUserSubscriptionWithPlanTx zone dbnow now sub plan)"
  unfolding maybeResetUserSubscriptionWithPlanTx_def Let_def
  by (intro keeps_intro keeps_bank_rows)

lemma keeps_bank_preConsumeFrom:
  "keeps (bankIs us ls) (preConsumeFrom zone dbnow now planCache requestId userId amount subs)"
proof (induction subs)
  case (Cons x subs)
  have "keeps (bankIs us ls) (consumeFrom now requestId userId amount sub)" for sub
    unfolding consumeFrom_def by (intro keeps_intro keeps_bank_rows)
  with Cons show ?case
    by (simp only: preConsumeFrom.simps) (intro keeps_intro keeps_subs_getPlan keeps_bank_maybeReset)
qed (simp add: keeps_fail)

lemma keeps_bank_subscription:
  "keeps (bankIs us ls) (PreConsumeUserSubscription zone dbnow now planCache requestId userId amount)"
  "keeps (bankIs us ls) (PostConsumeUserSubscriptionDelta now sid delta)"
  "keeps (bankIs us ls) (RefundSubscriptionPreConsume now requestId)"
proof -
  show post: "keeps (bankIs us ls) (PostConsumeUserSubscriptionDelta now sid delta)" for now sid delta
    unfolding PostConsumeUserSubscriptionDelta_def postConsumeTx_def Let_def
    by (intro keeps_intro keeps_bank_rows)
  show "keeps (bankIs us ls) (PreConsumeUserSubscription zone dbnow now planCache requestId userId amount)"
    unfolding PreConsumeUserSubscription_def preConsumeTx_def
    by (intro keeps_intro keeps_bank_preConsumeFrom)
  show "keeps (bankIs us ls) (RefundSubscriptionPreConsume now requestId)"
    unfolding RefundSubscriptionPreConsume_def
    by (intro keeps_intro post keeps_bank_rows)
qed

lemma keeps_bank_planInfo:
  "keeps (bankIs us ls) (GetSubscriptionPlanInfoByUserSubscriptionId infoCache planCache sid)"
  unfolding GetSubscriptionPlanInfoByUserSubscriptionId_def by (intro keeps_intro)

lemma keeps_bank_tokens:
  "keeps (bankIs us ls) (DecreaseTokenQuota now tid q)"
  "keeps (bankIs us ls) (IncreaseTokenQuota now tid q)"
  "keeps (bankIs us ls) (ExhaustTokenQuota redis now tid key)"
  unfolding DecreaseTokenQuota_def decreaseTokenQuota_def IncreaseTokenQuota_def increaseTokenQuota_def
    ExhaustTokenQuota_def
  by (intro keeps_intro keeps_bank_rows)+

lemma keeps_reporting [keeps_intro]: "keeps I m \<Longrightarrow> keeps I (reporting m x f)"
  unfolding reporting_def by (intro keeps_intro)

lemma keeps_andThen [keeps_intro]:
  "keeps I m \<Longrightarrow> (\<And>x. keeps I (k x)) \<Longrightarrow> keeps I (andThen m k)"
  unfolding andThen_def by (intro keeps_intro)

lemma keeps_retrying [keeps_intro]: "keeps I fn \<Longrightarrow> keeps I (retrying n fn)"
  by (induction n) (simp_all add: keeps_intro)

lemma keeps_case_source [keeps_intro]:
  "(\<And>w. keeps I (f w)) \<Longrightarrow> (\<And>x. keeps I (g x)) \<Longrightarrow>
   keeps I (case r of WalletSource w \<Rightarrow> f w | SubscriptionSource x \<Rightarrow> g x)"
  by (cases r) auto

lemmas keeps_ledger_calls =
  keeps_applyMutation keeps_ledger_debits keeps_ledger_queue
  keeps_bank_subscription [THEN keeps_ledger_frame] keeps_bank_planInfo [THEN keeps_ledger_frame]
  keeps_bank_tokens [THEN keeps_ledger_frame]

lemma keeps_ledger_funding:
  "keeps (ledger_ok base) (fundingPreConsume env amount f)"
  "keeps (ledger_ok base) (fundingSettle env delta f)"
  "keeps (ledger_ok base) (fundingRefund env f)"
  unfolding fundingPreConsume_def fundingSettle_def fundingRefund_def walletPreConsume_def walletSettle_def
    walletRefundAll_def subscriptionPreConsume_def subscriptionSettle_def subscriptionRefund_def
    refundWithRetry_def Let_def
  by (intro keeps_intro keeps_ledger_calls)+

text \<open>The calls a relay makes on its session, in any order and number.\<close>

datatype sessionCall = CallPreConsume int | CallReserve int | CallSettle int | CallRefund

fun runSessionCall :: "billEnv \<Rightarrow> sessionCall \<Rightarrow> BillingSession \<Rightarrow> (store, BillingSession) act" where
  "runSessionCall env (CallPreConsume n) s = bindE (sessionPreConsume env n s) (\<lambda>(s', _). ret s')"
| "runSessionCall env (CallReserve n) s = bindE (sessionReserve env n s) (\<lambda>(s', _). ret s')"
| "runSessionCall env (CallSettle n) s = bindE (sessionSettle env n s) (\<lambda>(s', _). ret s')"
| "runSessionCall env CallRefund s = bindE (sessionRefund env s) (\<lambda>(s', _). ret s')"

fun runSession :: "(billEnv \<times> sessionCall) list \<Rightarrow> BillingSession \<Rightarrow> (store, BillingSession) act" where
  "runSession [] s = ret s"
| "runSession ((env, call) # calls) s = bindE (runSessionCall env call s) (runSession calls)"

lemma keeps_ledger_call: "keeps (ledger_ok base) (runSessionCall env call s)"
proof (cases call)
  case (CallPreConsume n)
  then show ?thesis
    by (simp only: runSessionCall.simps sessionPreConsume_def PreConsumeTokenQuota_def rollbackToken_def Let_def)
       (intro keeps_intro keeps_ledger_calls keeps_ledger_funding)
next
  case (CallReserve n)
  then show ?thesis
    by (simp only: runSessionCall.simps sessionReserve_def reserveFunding_def reserveToken_def
        rollbackFundingReserve_def PreConsumeTokenQuota_def Let_def)
       (intro keeps_intro keeps_ledger_calls)
next
  case (CallSettle n)
  then show ?thesis
    by (simp only: runSessionCall.simps sessionSettle_def settleToken_def Let_def)
       (intro keeps_intro keeps_ledger_calls keeps_ledger_funding)
next
  case CallRefund
  then show ?thesis
    by (simp only: runSessionCall.simps sessionRefund_def refundTokenStep_def refundFundingStep_def
        refundExtraStep_def Let_def)
       (intro keeps_intro keeps_ledger_calls keeps_ledger_funding)
qed

text \<open>
  C21. Sessions keep the ledger a true record: whatever calls a session makes and whatever fails,
  entries stay chained, keys unique, and every balance is the one the ledger gives.
\<close>

theorem sessions_keep_ledger:
  assumes "ledger_ok base (db c)"
  shows "ledger_ok base (db (snd (runSession calls s c)))"
proof -
  have "keeps (ledger_ok base) (runSession calls s)"
    by (induction calls arbitrary: s) (auto intro!: keeps_intro keeps_ledger_call)
  with assms show ?thesis by (metis keepsD prod.collapse)
qed

theorem sessions_keep_ledger_witness:
  "ledger_ok (\<lambda>_. 500) (db (snd (runSession [(demoBillEnv, CallPreConsume 50), (demoBillEnv, CallReserve 90),
     (demoBillEnv, CallRefund), (demoBillEnv, CallSettle 20)] demoSession
     \<lparr>db = demoStore, faults = [Good, Good, Good, Broken, Good, Lost]\<rparr>)))"
  by (rule sessions_keep_ledger) (simp add: ledger_ok_def demoStore_def demoUser_def)

section \<open>Refunds that are paid twice\<close>

text \<open>
  The session of the run in \<open>Cost\<close> with a finite token that has 10 left. The stores
  \<open>tight0\<close> to \<open>tight4\<close> are those after each call.
\<close>

definition tightToken :: "int \<Rightarrow> int \<Rightarrow> Token" where
  "tightToken remain used = demoToken\<lparr>t_RemainQuota := remain, t_UsedQuota := used\<rparr>"

definition demoCredit :: "int \<Rightarrow> int \<Rightarrow> int \<Rightarrow> string \<Rightarrow> BalanceLedger" where
  "demoCredit i before amount kind =
     demoEntry i before (- amount) kind ''Automatic refund for failed relay request'' BalanceLedgerSourceBillingRefund"

definition demoPending :: "int \<Rightarrow> BillingRefundPending \<Rightarrow> BillingRefundPending" where
  "demoPending i r = r\<lparr>br_ID := i, br_CreatedAt := 5, br_UpdatedAt := 5\<rparr>"

definition tight0 :: store where "tight0 = demoReserved\<lparr>tokens := [tightToken 10 50]\<rparr>"

definition tight1 :: store where
  "tight1 = tight0\<lparr>users := [demoUser\<lparr>u_Quota := 400\<rparr>],
     ledgers := ledgers demoReserved @ [demoEntry 2 450 50 ''wallet-reserve-debit-0'' ''prepaid wallet usage reservation''
       BalanceLedgerSourceUsageReservation]\<rparr>"

definition tight2 :: store where
  "tight2 = tight1\<lparr>users := [demoUser\<lparr>u_Quota := 450\<rparr>],
     ledgers := ledgers tight1 @ [demoCredit 3 400 50 ''wallet-reserve-1''],
     refunds := [demoPending 1 (walletRefund 7 50 (billingRefundIdempotencyKey ''u1'' ''wallet-reserve-1'') ''r1'')
        \<lparr>br_Status := BillingRefundStatusApplied, br_Attempts := 1, br_LastError := Some ErrCache\<rparr>]\<rparr>"

lemma showNat_run [simp]: "showNat 0 = ''0''" "showNat (Suc 0) = ''1''"
  by code_simp+
lemmas tight_defs = tight0_def tight1_def tight2_def demoCredit_def demoPending_def tightToken_def demoToken_def

lemma tight_reserveFunding: "applyWalletBalanceMutation (ReserveUserBalanceDebit 5 7 50 (billingRefundIdempotencyKey ''u1'' ''wallet-reserve-debit-0'') ''r1'')
   \<lparr>db = tight0, faults = replicate 17 Good @ [Broken]\<rparr> = (Inr (), \<lparr>db = tight1, faults = replicate 11 Good @ [Broken]\<rparr>)"
  by (simp add: wallet_run_defs tight_defs numeral_eq_Suc)

lemma tight_token_short: "DecreaseTokenQuota 5 3 50 \<lparr>db = tight1, faults = replicate 11 Good @ [Broken]\<rparr> = (Inl ErrInsufficientTokenQuota, \<lparr>db = tight1, faults = replicate 9 Good @ [Broken]\<rparr>)"
  by (simp add: wallet_run_defs tight_defs numeral_eq_Suc DecreaseTokenQuota_def decreaseTokenQuota_def updateToken_def)

lemma tight_rollback: "queueAndProcessBillingRefund demoBillEnv (walletRefund 7 50 (billingRefundIdempotencyKey ''u1'' ''wallet-reserve-1'') ''r1'')
     \<lparr>db = tight1, faults = replicate 9 Good @ [Broken]\<rparr> = (Inl ErrCache, \<lparr>db = tight2, faults = []\<rparr>)"
  by (simp add: wallet_run_defs tight_defs numeral_eq_Suc queueAndProcessBillingRefund_def EnsureBillingRefundPending_def
      refundCandidateInvalid_def firstOrCreateRefund_def createRefund_def walletRefund_def process_refund_defs processRefundTx_def
      applyBillingRefund_def applyWalletBillingRefund_def updateRefund_def syncBillingRefundCache_def recordBillingRefundFailure_def
      BillingRefundMaxAttempts_def)

definition demoTight :: BillingSession where
  "demoTight = demoHeld\<lparr>bs_tokenConsumed := 50, bs_relayInfo := (bs_relayInfo demoHeld)\<lparr>ri_TokenUnlimited := False\<rparr>\<rparr>"

definition demoGrown :: BillingSession where
  "demoGrown = demoTight\<lparr>bs_reserveSequence := 1, bs_funding := WalletSource (demoHeldWallet\<lparr>wf_consumed := 100\<rparr>)\<rparr>"

definition tight3 :: store where
  "tight3 = tight2\<lparr>tokens := [tightToken 60 0\<lparr>t_AccessedTime := 5\<rparr>],
     refunds := refunds tight2 @ [demoPending 2 (tokenRefund (bs_relayInfo demoTight) 50 (billingRefundIdempotencyKey ''u1'' ''token''))
        \<lparr>br_Status := BillingRefundStatusCompleted, br_CompletedAt := Some 5\<rparr>]\<rparr>"

definition tight4 :: store where
  "tight4 = tight3\<lparr>users := [demoUser\<lparr>u_Quota := 550\<rparr>],
     ledgers := ledgers tight3 @ [demoCredit 4 450 100 ''wallet''],
     refunds := refunds tight3 @ [demoPending 3 (walletRefund 7 100 (billingRefundIdempotencyKey ''u1'' ''wallet'') ''r1'')
        \<lparr>br_Status := BillingRefundStatusCompleted, br_CompletedAt := Some 5\<rparr>]\<rparr>"

lemmas queue_run_defs = queueAndProcessBillingRefund_def EnsureBillingRefundPending_def
      refundCandidateInvalid_def firstOrCreateRefund_def createRefund_def walletRefund_def tokenRefund_def process_refund_defs processRefundTx_def
      applyBillingRefund_def applyWalletBillingRefund_def applyTokenBillingRefund_def updateToken_def refundToken_def updateRefund_def syncBillingRefundCache_def recordBillingRefundFailure_def
      BillingRefundMaxAttempts_def

lemma demoTight_simps: 
  "bs_settled demoTight = False" "bs_refunded demoTight = False" "bs_preConsumedQuota demoTight = 50" "bs_tokenConsumed demoTight = 50"
  "bs_funding demoTight = WalletSource demoHeldWallet" "bs_operationID demoTight = ''u1''" "bs_reserveSequence demoTight = 0" "bs_fundingSettled demoTight = False"
  "bs_tokenRefunded demoTight = False"   "bs_fundingRefunded demoTight = False"   "bs_extraRefunded demoTight = False" "bs_extraReserved demoTight = 0"
  "bs_relayInfo demoTight = demoInfo\<lparr>ri_TokenUnlimited := False, ri_FinalPreConsumedQuota := 50, ri_BillingSource := ''wallet''\<rparr>"
  by (simp_all add: demoTight_def demoHeld_def demoSession_def newSession_def demoInfo_def demoBillEnv_def)

lemma tight_token_refund: "queueAndProcessBillingRefund demoBillEnv (tokenRefund (bs_relayInfo demoTight) 50 (billingRefundIdempotencyKey ''u1'' ''token''))
     \<lparr>db = tight2, faults = []\<rparr> = (Inr (), \<lparr>db = tight3, faults = []\<rparr>)"
  by (simp add: wallet_run_defs tight_defs tight3_def demoTight_simps demoInfo_def queue_run_defs)

lemma tight_wallet_refund: "queueAndProcessBillingRefund demoBillEnv (walletRefund 7 100 (billingRefundIdempotencyKey ''u1'' ''wallet'') ''r1'')
     \<lparr>db = tight3, faults = []\<rparr> = (Inr (), \<lparr>db = tight4, faults = []\<rparr>)"
  by (simp add: wallet_run_defs tight_defs tight3_def tight4_def demoTight_simps demoInfo_def queue_run_defs)

lemma tight_ensureRequestID: "ensureRequestID demoBillEnv demoTight = demoTight" "ensureRequestID demoBillEnv demoGrown = demoGrown"
  by (simp_all add: ensureRequestID_def Let_def demoGrown_def demoTight_simps TrimSpace_demo setFundingRequestId_def demoInfo_def demoHeldWallet_def)

lemma demo_now: "be_now demoBillEnv = 5" by (simp add: demoBillEnv_def)

lemma demo_fields: "wf_userId demoHeldWallet = 7" "wf_requestId demoHeldWallet = ''r1''" "wf_consumed demoHeldWallet = 50" "wf_operationID demoHeldWallet = ''u1''"
  "ri_TokenId demoInfo = 3"
  by (simp_all add: demoHeldWallet_def demoInfo_def)

lemma tight_reserve_run: "sessionReserve demoBillEnv 100 demoTight \<lparr>db = tight0, faults = replicate 17 Good @ [Broken]\<rparr> =
   (Inr (demoGrown, Some (ErrorCodePreConsumeTokenQuotaFailed, ErrInsufficientTokenQuota)), \<lparr>db = tight2, faults = []\<rparr>)"
  unfolding sessionReserve_def Let_def tight_ensureRequestID
  by (simp add: demoTight_simps andThen_def bindE_def ret_def reserveFunding_def sessionWithOperation_def TrimSpace_demo sessionKey_def attempt_def
    showNat_run demo_now demo_fields tight_reserveFunding reserveToken_def PreConsumeTokenQuota_def tight_token_short rollbackFundingReserve_def tight_rollback Let_def)
   (simp add: demoGrown_def demo_fields)

lemma tight_refund_run: "sessionRefund demoBillEnv demoGrown \<lparr>db = tight2, faults = []\<rparr> =
   (Inr (demoGrown\<lparr>bs_tokenRefunded := True, bs_fundingRefunded := True, bs_extraRefunded := True, bs_refunded := True\<rparr>, None), \<lparr>db = tight4, faults = []\<rparr>)"
proof -
  have t: "refundTokenStep demoBillEnv demoGrown \<lparr>db = tight2, faults = []\<rparr> = (Inr (demoGrown\<lparr>bs_tokenRefunded := True\<rparr>, None), \<lparr>db = tight3, faults = []\<rparr>)"
    using tight_token_refund by (simp add: refundTokenStep_def demoGrown_def demoTight_simps sessionWithOperation_def TrimSpace_demo sessionKey_def reporting_def bindE_def attempt_def ret_def Let_def demoInfo_def)
  have f: "refundFundingStep demoBillEnv (demoGrown\<lparr>bs_tokenRefunded := True\<rparr>) \<lparr>db = tight3, faults = []\<rparr> = (Inr (demoGrown\<lparr>bs_tokenRefunded := True, bs_fundingRefunded := True\<rparr>, None), \<lparr>db = tight4, faults = []\<rparr>)"
    using tight_wallet_refund by (simp add: refundFundingStep_def fundingRefund_def walletRefundAll_def demoGrown_def demoTight_simps withOperation_def TrimSpace_demo walletKey_def reporting_def bindE_def attempt_def ret_def Let_def demo_fields)
  show ?thesis
    unfolding sessionRefund_def tight_ensureRequestID andThen_def
    by (simp add: bindE_def t f ret_def) (simp add: refundExtraStep_def demoGrown_def demoTight_simps needsRefundLocked_def ret_def)
qed

text \<open>
  C22. A failing cache makes a session refund twice. A session has pre-consumed 50 of a balance of
  500 and asks for 100; the wallet is debited, the token is short, and the rollback pays the 50
  back but reports the cache's error, so the wallet still counts them as consumed. Refunding the
  session then pays 100: the balance ends at 550 although nothing was used.
\<close>

theorem cache_failure_refunds_twice:
  "\<exists>s1 e c1 s2 c2.
     sessionReserve demoBillEnv 100 demoTight \<lparr>db = tight0, faults = replicate 17 Good @ [Broken]\<rparr> = (Inr (s1, Some e), c1) \<and>
     sessionRefund demoBillEnv s1 c1 = (Inr (s2, None), c2) \<and>
     bs_preConsumedQuota demoTight = 50 \<and> balanceOf 7 tight0 = Some 450 \<and> balanceOf 7 (db c2) = Some 550"
  using tight_reserve_run tight_refund_run
  by (fastforce simp: balanceOf_def tight_defs tight4_def demoReserved_def demoUser_def demoTight_simps)

definition demoSubFunding :: SubscriptionFunding where
  "demoSubFunding =
     \<lparr>sf_requestId = ''r1'', sf_userId = 7, sf_amount = 100, sf_subscriptionId = 9, sf_preConsumed = 100,
      sf_AmountTotal = 1000, sf_AmountUsedAfter = 300, sf_PlanId = 4, sf_PlanTitle = []\<rparr>"

definition demoHoldings :: store where
  "demoHoldings = demoStore\<lparr>subscriptions := [demoSub], preConsumes := [demoPreConsume]\<rparr>"

text \<open>
  C23. \<open>refundWithRetry\<close> may repeat a refund: \<open>RefundSubscriptionPreConsume\<close> returns the quota
  in a transaction of its own before it marks the record, so when marking fails once, the retry
  returns the quota again and the call reports success.
\<close>

theorem subscription_refund_repeats:
  "subscriptionRefund demoBillEnv demoSubFunding \<lparr>db = demoHoldings, faults = [Good, Good, Good, Good, Broken]\<rparr> =
     (Inr (), \<lparr>db = demoHoldings\<lparr>
        subscriptions := [demoSub\<lparr>us_AmountUsed := us_AmountUsed demoSub - 2 * sf_preConsumed demoSubFunding, us_UpdatedAt := 5\<rparr>],
        preConsumes := [demoPreConsume\<lparr>sr_Status := ''refunded'', sr_UpdatedAt := 5\<rparr>]\<rparr>, faults = []\<rparr>)"
  by (simp add: subscriptionRefund_def refundWithRetry_def numeral_eq_Suc RefundSubscriptionPreConsume_def TrimSpace_demo
     PostConsumeUserSubscriptionDelta_def postConsumeTx_def saveSubscription_def savePreConsume_def demoSubFunding_def demoHoldings_def
     demoSub_def demoPreConsume_def store_ops demoStore_def demoBillEnv_def Let_def)

end
