(* ===== verification/Vouchers.thy ===== *)
theory Vouchers
  imports Quota
begin

text \<open>
  What redemption codes, check-ins, top-up orders and USDT orders have in common: a table of
  vouchers, each worth an amount to a user, that pays at most once. The locale takes a set of
  operations (of legal calls) that keep the table's keys apart and pay only for vouchers they close, and
  shows what any sequence of them can do to the balances. Every component interprets it on its
  own operations.
\<close>

text \<open>The voucher's id, the user it paid and the amount.\<close>

type_synonym payment = "int \<times> int \<times> int"

primrec paymentsTo :: "int \<Rightarrow> payment list \<Rightarrow> int" where
  "paymentsTo uid [] = 0"
| "paymentsTo uid (p # ps) = (if fst (snd p) = uid then snd (snd p) else 0) + paymentsTo uid ps"

lemma paymentsTo_append [simp]: "paymentsTo uid (ps @ qs) = paymentsTo uid ps + paymentsTo uid qs"
  by (induction ps) auto

text \<open>A table of vouchers: the ids it holds, those still open, and what a voucher is worth to whom.\<close>

record vouchers =
  vo_known :: "store \<Rightarrow> int set"
  vo_open :: "store \<Rightarrow> int set"
  vo_worth :: "store \<Rightarrow> int \<Rightarrow> int \<Rightarrow> int \<Rightarrow> bool"

text \<open>
  From tables \<open>s\<close> to \<open>t\<close> exactly the payments \<open>ps\<close> have been made: each balance moved by the
  payments to its user, every payment closed a voucher of its own that was not closed before,
  and no closed voucher opened again.
\<close>

definition paidOut :: "vouchers \<Rightarrow> store \<Rightarrow> payment list \<Rightarrow> store \<Rightarrow> bool" where
  "paidOut V s ps t \<longleftrightarrow>
     distinct (map fst ps) \<and>
     (\<forall>uid. balanceOf uid t = map_option (\<lambda>b. b + paymentsTo uid ps) (balanceOf uid s)) \<and>
     (\<forall>(v, u, a) \<in> set ps. v \<in> vo_known V t - vo_open V t \<and> vo_worth V t v u a \<and>
        (v \<in> vo_known V s \<longrightarrow> v \<in> vo_open V s)) \<and>
     vo_known V s \<subseteq> vo_known V t \<and> vo_open V t \<inter> vo_known V s \<subseteq> vo_open V s \<and>
     (\<forall>v \<in> vo_known V s. \<forall>u a. vo_worth V s v u a \<longrightarrow> vo_worth V t v u a)"

lemma paidOut_Nil [simp]: "paidOut V s [] s"
  by (auto simp: paidOut_def option.map_ident)

lemma paidOut_none:
  assumes "\<And>uid. balanceOf uid t = balanceOf uid s" "vo_known V s \<subseteq> vo_known V t"
    "vo_open V t \<inter> vo_known V s \<subseteq> vo_open V s"
    "\<And>v u a. v \<in> vo_known V s \<Longrightarrow> vo_worth V s v u a \<Longrightarrow> vo_worth V t v u a"
  shows "paidOut V s [] t"
  using assms by (simp add: paidOut_def option.map_ident)

lemma paidOut_one:
  assumes "\<And>uid. balanceOf uid t = map_option (\<lambda>b. b + (if uid = u then a else 0)) (balanceOf uid s)"
    "v \<in> vo_known V t" "v \<notin> vo_open V t" "vo_worth V t v u a" "v \<in> vo_known V s \<Longrightarrow> v \<in> vo_open V s"
    "vo_known V s \<subseteq> vo_known V t" "vo_open V t \<inter> vo_known V s \<subseteq> vo_open V s"
    "\<And>v u a. v \<in> vo_known V s \<Longrightarrow> vo_worth V s v u a \<Longrightarrow> vo_worth V t v u a"
  shows "paidOut V s [(v, u, a)] t"
proof -
  have "balanceOf uid t = map_option (\<lambda>b. b + paymentsTo uid [(v, u, a)]) (balanceOf uid s)" for uid
    by (subst assms(1), rule option.map_cong) auto
  with assms show ?thesis by (simp add: paidOut_def)
qed

lemma paidOut_trans:
  assumes st: "paidOut V s ps t" and tr: "paidOut V t qs r"
  shows "paidOut V s (ps @ qs) r"
proof -
  have "fst p \<noteq> fst q" if "p \<in> set ps" "q \<in> set qs" for p q
    using st tr that by (fastforce simp: paidOut_def)
  then have "distinct (map fst (ps @ qs))"
    using st tr by (auto simp: paidOut_def)
  moreover have "balanceOf uid r = map_option (\<lambda>b. b + paymentsTo uid (ps @ qs)) (balanceOf uid s)" for uid
  proof -
    have "balanceOf uid t = map_option (\<lambda>b. b + paymentsTo uid ps) (balanceOf uid s)"
      using st by (simp add: paidOut_def)
    moreover have "balanceOf uid r = map_option (\<lambda>b. b + paymentsTo uid qs) (balanceOf uid t)"
      using tr by (simp add: paidOut_def)
    ultimately show ?thesis
      by (cases "balanceOf uid s") (simp_all add: add.assoc)
  qed
  moreover have "\<forall>(v, u, a) \<in> set (ps @ qs). v \<in> vo_known V r - vo_open V r \<and> vo_worth V r v u a \<and>
        (v \<in> vo_known V s \<longrightarrow> v \<in> vo_open V s)"
  proof (rule ballI, clarify)
    fix v u a assume "(v, u, a) \<in> set (ps @ qs)"
    then consider "(v, u, a) \<in> set ps" | "(v, u, a) \<in> set qs" by auto
    then show "v \<in> vo_known V r - vo_open V r \<and> vo_worth V r v u a \<and>
        (v \<in> vo_known V s \<longrightarrow> v \<in> vo_open V s)"
      by cases (use st tr in \<open>unfold paidOut_def, blast+\<close>)
  qed
  moreover have "vo_known V s \<subseteq> vo_known V r" "vo_open V r \<inter> vo_known V s \<subseteq> vo_open V s"
    "\<forall>v \<in> vo_known V s. \<forall>u a. vo_worth V s v u a \<longrightarrow> vo_worth V r v u a"
    using st tr unfolding paidOut_def by blast+
  ultimately show ?thesis by (simp add: paidOut_def)
qed

definition paying :: "vouchers \<Rightarrow> (store \<Rightarrow> bool) \<Rightarrow> store \<Rightarrow> store \<Rightarrow> bool" where
  "paying V ok s t \<longleftrightarrow> ok t \<and> (\<exists>ps. paidOut V s ps t)"

lemma paying_refl: "ok s \<Longrightarrow> paying V ok s s"
  unfolding paying_def by (intro conjI exI [of _ "[]"]) simp_all

lemma payingI: "paidOut V s ps t \<Longrightarrow> ok t \<Longrightarrow> paying V ok s t"
  unfolding paying_def by blast

text \<open>A transaction that pays when it succeeds pays or changes nothing.\<close>

lemma wp_transaction_paying:
  assumes "wp m (\<lambda>r t. case r of Inl _ \<Rightarrow> True | Inr _ \<Rightarrow> paying V ok s t) s" "ok s"
  shows "wp (transaction m) (\<lambda>_. paying V ok s) s"
  by (rule wp_transactionI [OF assms(1)]) (use paying_refl [where ok = ok, OF assms(2)] in auto)

lemma wp_then_paying:
  assumes "wp m (\<lambda>_. paying V ok s) s" "\<And>a t. paying V ok s t \<Longrightarrow> wp (k a) (\<lambda>_. paying V ok s) t"
  shows "wp (bindE m k) (\<lambda>_. paying V ok s) s"
  by (rule wp_bindI [OF assms(1)]) (auto intro: assms(2))

lemma wp_attempt_paying:
  assumes "wp m (\<lambda>_. paying V ok s) s" "\<And>a t. paying V ok s t \<Longrightarrow> wp (k a) (\<lambda>_. paying V ok s) t"
  shows "wp (bindE (attempt m) k) (\<lambda>_. paying V ok s) s"
  by (rule wp_bind_attemptI [OF assms(1)]) (auto intro: assms(2))

text \<open>Paying is transitive, so an action that pays keeps the relation to any earlier state.\<close>

lemma paying_trans: "paying V ok s t \<Longrightarrow> paying V ok t u \<Longrightarrow> paying V ok s u"
  unfolding paying_def by (blast intro: paidOut_trans)

lemma keeps_payingI:
  assumes "\<And>s. ok s \<Longrightarrow> wp m (\<lambda>_. paying V ok s) s"
  shows "keeps (paying V ok s0) m"
proof (rule keepsI)
  fix s assume s: "paying V ok s0 s"
  then have "ok s" by (simp add: paying_def)
  from assms [OF this] show "wp m (\<lambda>_. paying V ok s0) s"
    by (rule wp_mono) (rule paying_trans [OF s])
qed

lemma keeps_payingD: "keeps (paying V ok s) m \<Longrightarrow> ok s \<Longrightarrow> wp m (\<lambda>_. paying V ok s) s"
  by (erule keeps_wp) (rule paying_refl)

section \<open>Vouchers and the operations on them\<close>

text \<open>For tables every call is legal on.\<close>

lemma list_all_True [simp]: "list_all (\<lambda>_. True) xs"
  by (induction xs) simp_all

locale voucher_book =
  fixes V :: vouchers
    and ok :: "store \<Rightarrow> bool"
    and legal :: "'op \<Rightarrow> bool"
    and run :: "'op \<Rightarrow> (store, 'r) act"
  assumes pays: "ok s \<Longrightarrow> legal c \<Longrightarrow> wp (run c) (\<lambda>_. paying V ok s) s"
begin

lemma runs_keep: "ok (db c) \<Longrightarrow> list_all legal cs \<Longrightarrow> ok (db (snd (runAll (map run cs) c)))"
proof (rule runAll_keeps)
  show "keeps ok m" if "list_all legal cs" "m \<in> set (map run cs)" for m
    using that by (auto simp: list_all_iff intro!: keepsI intro: wp_mono [OF pays] simp: paying_def)
qed

lemma runs_pay:
  "ok (db c) \<Longrightarrow> list_all legal cs \<Longrightarrow> \<exists>ps. paidOut V (db c) ps (db (snd (runAll (map run cs) c)))"
proof (induction cs arbitrary: c)
  case (Cons x cs)
  obtain r c1 where m: "run x c = (r, c1)" by fastforce
  obtain ps where ps: "ok (db c1)" "paidOut V (db c) ps (db c1)"
    using wpD [OF pays [OF Cons.prems(1)] m] Cons.prems(2) by (auto simp: paying_def)
  then obtain qs where "paidOut V (db c1) qs (db (snd (runAll (map run cs) c1)))"
    using Cons.IH Cons.prems(2) by auto
  with ps have "paidOut V (db c) (ps @ qs) (db (snd (runAll (map run cs) c1)))"
    by (blast intro: paidOut_trans)
  then show ?case using m by (auto simp: split_beta)
next
  case Nil
  then show ?case by (auto intro: exI [of _ "[]"])
qed

text \<open>A voucher that is closed never pays again.\<close>

lemma closed_never_pays:
  assumes "ok (db c)" "list_all legal cs" "v \<in> vo_known V (db c)" "v \<notin> vo_open V (db c)"
  shows "\<exists>ps. v \<notin> fst ` set ps \<and> paidOut V (db c) ps (db (snd (runAll (map run cs) c)))"
proof -
  obtain ps where "paidOut V (db c) ps (db (snd (runAll (map run cs) c)))"
    using runs_pay [OF assms(1,2)] by blast
  with assms(3,4) show ?thesis
    by (intro exI [of _ ps]) (fastforce simp: paidOut_def)
qed

end

text \<open>Tables of rows with a primary key, as the components use them.\<close>

definition rowKnown :: "('r \<Rightarrow> int) \<Rightarrow> 'r list \<Rightarrow> int set" where
  "rowKnown key rows = key ` set rows"

definition rowsWhere :: "('r \<Rightarrow> int) \<Rightarrow> ('r \<Rightarrow> bool) \<Rightarrow> 'r list \<Rightarrow> int set" where
  "rowsWhere key P rows = key ` {r \<in> set rows. P r}"

definition rowWorth ::
  "('r \<Rightarrow> int) \<Rightarrow> ('r \<Rightarrow> int \<Rightarrow> int \<Rightarrow> bool) \<Rightarrow> 'r list \<Rightarrow> int \<Rightarrow> int \<Rightarrow> int \<Rightarrow> bool" where
  "rowWorth key worth rows v u a \<longleftrightarrow> (\<exists>r \<in> set rows. key r = v \<and> worth r u a)"

text \<open>Rows change only in ways \<open>R\<close> allows: from open to closed, keeping their worth.\<close>

definition rowStep :: "('r \<Rightarrow> int) \<Rightarrow> ('r \<Rightarrow> bool) \<Rightarrow> ('r \<Rightarrow> int \<Rightarrow> int \<Rightarrow> bool) \<Rightarrow> 'r \<Rightarrow> 'r \<Rightarrow> bool" where
  "rowStep key P worth r r' \<longleftrightarrow>
     key r' = key r \<and> (P r' \<longrightarrow> P r) \<and> (\<forall>u a. worth r u a \<longrightarrow> worth r' u a)"

lemma rowStep_refl [simp]: "rowStep key P worth r r"
  by (simp add: rowStep_def)

lemma rowStep_known:
  "list_all2 (rowStep key P worth) rows rows' \<Longrightarrow> rowKnown key rows' = rowKnown key rows"
  unfolding rowKnown_def by (induction rule: list_all2_induct) (auto simp: rowStep_def)

lemma rowStep_open:
  "list_all2 (rowStep key P worth) rows rows' \<Longrightarrow> rowsWhere key P rows' \<subseteq> rowsWhere key P rows"
proof (induction rule: list_all2_induct)
  case (Cons r rs r' rs')
  have "rowsWhere key P (r # rs) = (if P r then {key r} else {}) \<union> rowsWhere key P rs"
    "rowsWhere key P (r' # rs') = (if P r' then {key r'} else {}) \<union> rowsWhere key P rs'"
    by (auto simp: rowsWhere_def)
  with Cons show ?case by (auto simp: rowStep_def)
qed simp

lemma rowStep_worth:
  "list_all2 (rowStep key P worth) rows rows' \<Longrightarrow> rowWorth key worth rows v u a \<Longrightarrow>
   rowWorth key worth rows' v u a"
  unfolding rowWorth_def by (induction rule: list_all2_induct) (auto simp: rowStep_def)

lemma distinct_keys_rowStep:
  "list_all2 (rowStep key P worth) rows rows' \<Longrightarrow> map key rows' = map key rows"
  by (induction rule: list_all2_induct) (auto simp: rowStep_def)

lemma rowsWhere_closed:
  "distinct (map key rows) \<Longrightarrow> r \<in> set rows \<Longrightarrow> \<not> P r \<Longrightarrow> key r \<notin> rowsWhere key P rows"
  by (auto simp: rowsWhere_def dest: distinct_key_unique)

definition tableVouchers ::
  "(store \<Rightarrow> 'r list) \<Rightarrow> ('r \<Rightarrow> int) \<Rightarrow> ('r \<Rightarrow> bool) \<Rightarrow> ('r \<Rightarrow> int \<Rightarrow> int \<Rightarrow> bool) \<Rightarrow> vouchers" where
  "tableVouchers T key P worth =
     \<lparr>vo_known = (\<lambda>s. rowKnown key (T s)), vo_open = (\<lambda>s. rowsWhere key P (T s)),
      vo_worth = (\<lambda>s. rowWorth key worth (T s))\<rparr>"

lemma tableVouchers_simps [simp]:
  "vo_known (tableVouchers T key P worth) s = rowKnown key (T s)"
  "vo_open (tableVouchers T key P worth) s = rowsWhere key P (T s)"
  "vo_worth (tableVouchers T key P worth) s = rowWorth key worth (T s)"
  by (simp_all add: tableVouchers_def)

lemma table_pays_none:
  assumes "list_all2 (rowStep key P worth) (T s) (T t)" "\<And>uid. balanceOf uid t = balanceOf uid s"
  shows "paidOut (tableVouchers T key P worth) s [] t"
  by (rule paidOut_none)
     (use assms in \<open>auto simp: rowStep_known dest: rowStep_open rowStep_worth\<close>)

lemma table_pays_one:
  assumes step: "list_all2 (rowStep key P worth) (T s) (T t)" and dist: "distinct (map key (T s))"
    and r: "r \<in> set (T s)" "P r" "r' \<in> set (T t)" "key r' = key r" "\<not> P r'" "worth r' u a"
    and bal: "\<And>uid. balanceOf uid t = map_option (\<lambda>b. b + (if uid = u then a else 0)) (balanceOf uid s)"
  shows "paidOut (tableVouchers T key P worth) s [(key r, u, a)] t"
proof (rule paidOut_one [OF bal]; simp)
  show "key r \<in> rowKnown key (T t)" using r by (auto simp: rowKnown_def intro: rev_image_eqI)
  have "distinct (map key (T t))" using dist distinct_keys_rowStep [OF step] by simp
  from rowsWhere_closed [OF this r(3), of P] r(4,5) show "key r \<notin> rowsWhere key P (T t)" by simp
  show "rowWorth key worth (T t) (key r) u a" using r by (auto simp: rowWorth_def)
  show "key r \<in> rowKnown key (T s) \<Longrightarrow> key r \<in> rowsWhere key P (T s)"
    using r by (auto simp: rowsWhere_def)
qed (use rowStep_known [OF step] rowStep_open [OF step] rowStep_worth [OF step] in auto)

text \<open>The row a statement addresses by its key is replaced, the others stay.\<close>

lemma rowStep_update:
  assumes "\<And>r. r \<in> set rows \<Longrightarrow> Q r \<Longrightarrow> rowStep key P worth r (f r)"
  shows "list_all2 (rowStep key P worth) rows (updateWhere Q f rows)"
  by (rule list_all2_updateWhere) (auto intro: assms)

lemma rowStep_save:
  assumes "distinct (map key rows)" "r \<in> set rows" "rowStep key P worth r r'"
  shows "list_all2 (rowStep key P worth) rows (updateWhere (\<lambda>x. key x = key r) (\<lambda>_. r') rows)"
proof (rule rowStep_update)
  fix x assume "x \<in> set rows" "key x = key r"
  with assms(1,2) have "x = r" by (auto dest: distinct_key_unique)
  with assms(3) show "rowStep key P worth x r'" by simp
qed

definition keysApart :: "(store \<Rightarrow> 'r list) \<Rightarrow> ('r \<Rightarrow> int) \<Rightarrow> store \<Rightarrow> bool" where
  "keysApart T key s \<longleftrightarrow> distinct (map key (T s))"

lemma keysApart_rowStep:
  "keysApart T key s \<Longrightarrow> list_all2 (rowStep key P worth) (T s) (T t) \<Longrightarrow> keysApart T key t"
  by (simp add: keysApart_def distinct_keys_rowStep)

lemma table_paying_none:
  assumes "keysApart T key s" "list_all2 (rowStep key P worth) (T s) (T t)" "users t = users s"
  shows "paying (tableVouchers T key P worth) (keysApart T key) s t"
  by (rule payingI [OF table_pays_none keysApart_rowStep])
     (fact assms | rule balanceOf_users [OF assms(3)])+

lemma table_paying_one:
  assumes "keysApart T key s" "list_all2 (rowStep key P worth) (T s) (T t)"
    "r \<in> set (T s)" "P r" "r' \<in> set (T t)" "key r' = key r" "\<not> P r'" "worth r' u a"
    "\<And>uid. balanceOf uid t = map_option (\<lambda>b. b + (if uid = u then a else 0)) (balanceOf uid s)"
  shows "paying (tableVouchers T key P worth) (keysApart T key) s t"
  by (rule payingI [OF table_pays_one keysApart_rowStep])
     (fact assms | rule assms(1) [unfolded keysApart_def])+

lemma table_paying_append:
  assumes "keysApart T key s" "T t = T s @ [r]" "key r \<notin> key ` set (T s)" "users t = users s"
  shows "paidOut (tableVouchers T key P worth) s [] t"
proof (rule paidOut_none)
  show "balanceOf uid t = balanceOf uid s" for uid by (rule balanceOf_users [OF assms(4)])
qed (use assms(2,3) in \<open>auto simp: rowKnown_def rowsWhere_def rowWorth_def\<close>)

lemma in_updateWhere: "r \<in> set rows \<Longrightarrow> Q r \<Longrightarrow> f r \<in> set (updateWhere Q f rows)"
  by (induction rows) auto

end
