(* ===== verification/Rewards.thy ===== *)
theory Rewards
  imports Vouchers "HOL-Library.List_Lexorder" "HOL-Library.Char_ord"
begin

text \<open>
  Redemption codes (\<open>server/model/redemption.go\<close>) and daily check-ins
  (\<open>server/model/checkin.go\<close>). Both interpret the voucher locale: a code is open while it is
  enabled and live, a check-in is a row that is paid as it is made.

  The records of the log database and the asynchronous cache updates are left out. \<open>now\<close> is
  the Unix second of \<open>time.Now()\<close>.
\<close>

section \<open>Redemption codes\<close>

definition saveRedemption :: "Redemption \<Rightarrow> (store, unit) act" where
  "saveRedemption r =
     bindE (updateRows redemptions redemptions_update
       (\<lambda>x. rd_Id x = rd_Id r \<and> \<not> rd_DeletedAt x) (\<lambda>_. r)) (\<lambda>_. ret ())"

text \<open>The function literal of \<open>Redeem\<close>; the result is the code as saved.\<close>

definition redeemTx :: "int \<Rightarrow> string \<Rightarrow> int \<Rightarrow> (store, Redemption) act" where
  "redeemTx now key userId =
     bindE (attempt (firstRow redemptions (\<lambda>r. rd_Key r = key \<and> \<not> rd_DeletedAt r))) (\<lambda>found.
       case found of
         Inl _ \<Rightarrow> fail ErrRedemptionInvalid
       | Inr redemption \<Rightarrow>
           if rd_Status redemption \<noteq> RedemptionCodeStatusEnabled then fail ErrRedemptionUsed
           else if rd_ExpiredTime redemption \<noteq> 0 \<and> rd_ExpiredTime redemption < now
           then fail ErrRedemptionExpired
           else bindE (updateUser userId (addUserQuota (rd_Quota redemption))) (\<lambda>_.
             let used = redemption\<lparr>rd_RedeemedTime := now, rd_Status := RedemptionCodeStatusUsed,
                                   rd_UsedUserId := userId\<rparr> in
             bindE (saveRedemption used) (\<lambda>_. ret used)))"

definition Redeem :: "int \<Rightarrow> string \<Rightarrow> int \<Rightarrow> (store, int) act" where
  "Redeem now key userId =
     (if key = [] then fail ErrRedemptionKeyMissing
      else if userId = 0 then fail ErrInvalidId
      else bindE (attempt (transaction (redeemTx now key userId))) (\<lambda>result.
        case result of
          Inl _ \<Rightarrow> fail ErrRedeemFailed
        | Inr redemption \<Rightarrow> ret (rd_Quota redemption)))"

definition GetRedemptionById :: "int \<Rightarrow> (store, Redemption) act" where
  "GetRedemptionById i =
     (if i = 0 then fail ErrInvalidId
      else firstRow redemptions (\<lambda>r. rd_Id r = i \<and> \<not> rd_DeletedAt r))"

definition insertRedemption :: "Redemption \<Rightarrow> (store, Redemption) act" where
  "insertRedemption r = stmt (\<lambda>s.
     if rd_Key r \<in> rd_Key ` set (redemptions s) then Inl ErrDuplicatedKey
     else let r' = r\<lparr>rd_Id := freshId rd_Id (redemptions s)\<rparr>
          in Inr (r', s\<lparr>redemptions := redemptions s @ [r']\<rparr>))"

text \<open>The columns the two partial updates select, written by primary key.\<close>

definition redemptionSelectUpdate :: "Redemption \<Rightarrow> (store, unit) act" where
  "redemptionSelectUpdate r =
     bindE (updateRows redemptions redemptions_update
       (\<lambda>x. rd_Id x = rd_Id r \<and> \<not> rd_DeletedAt x)
       (\<lambda>x. x\<lparr>rd_RedeemedTime := rd_RedeemedTime r, rd_Status := rd_Status r\<rparr>)) (\<lambda>_. ret ())"

definition redemptionUpdate :: "Redemption \<Rightarrow> (store, unit) act" where
  "redemptionUpdate r =
     bindE (updateRows redemptions redemptions_update
       (\<lambda>x. rd_Id x = rd_Id r \<and> \<not> rd_DeletedAt x)
       (\<lambda>x. x\<lparr>rd_Name := rd_Name r, rd_Status := rd_Status r, rd_Quota := rd_Quota r,
               rd_RedeemedTime := rd_RedeemedTime r, rd_ExpiredTime := rd_ExpiredTime r\<rparr>)) (\<lambda>_. ret ())"

definition deleteRedemptions :: "(Redemption \<Rightarrow> bool) \<Rightarrow> (store, nat) act" where
  "deleteRedemptions P =
     updateRows redemptions redemptions_update (\<lambda>r. P r \<and> \<not> rd_DeletedAt r)
       (\<lambda>r. r\<lparr>rd_DeletedAt := True\<rparr>)"

definition DeleteRedemptionById :: "int \<Rightarrow> (store, unit) act" where
  "DeleteRedemptionById i =
     (if i = 0 then fail ErrInvalidId
      else bindE (firstRow redemptions (\<lambda>r. rd_Id r = i \<and> \<not> rd_DeletedAt r)) (\<lambda>redemption.
        bindE (deleteRedemptions (\<lambda>r. rd_Id r = rd_Id redemption)) (\<lambda>_. ret ())))"

definition redemptionInvalid :: "int \<Rightarrow> Redemption \<Rightarrow> bool" where
  "redemptionInvalid now r \<longleftrightarrow>
     rd_Status r \<in> {RedemptionCodeStatusUsed, RedemptionCodeStatusDisabled} \<or>
     (rd_Status r = RedemptionCodeStatusEnabled \<and> rd_ExpiredTime r \<noteq> 0 \<and> rd_ExpiredTime r < now)"

definition DeleteInvalidRedemptions :: "int \<Rightarrow> (store, nat) act" where
  "DeleteInvalidRedemptions now = deleteRedemptions (redemptionInvalid now)"

text \<open>One page of live codes, newest first, with their number.\<close>

definition GetAllRedemptions :: "int \<Rightarrow> int \<Rightarrow> (store, Redemption list \<times> int) act" where
  "GetAllRedemptions startIdx num =
     transaction (
       bindE (query (\<lambda>s. Inr (int (countWhere (\<lambda>r. \<not> rd_DeletedAt r) (redemptions s))))) (\<lambda>total.
       bindE (query (\<lambda>s.
         let page = drop (nat startIdx) (sort_key (\<lambda>r. - rd_Id r)
               (filter (\<lambda>r. \<not> rd_DeletedAt r) (redemptions s))) in
         Inr (if num < 0 then page else take (nat num) page))) (\<lambda>rows.
       ret (rows, total))))"

text \<open>
  The search: by id or by the beginning of the name; \<open>matches\<close> is the database's LIKE, which
  also gives the keyword's own wildcards a meaning.
\<close>

definition SearchRedemptions ::
  "(string \<Rightarrow> string \<Rightarrow> bool) \<Rightarrow> string \<Rightarrow> int \<Rightarrow> int \<Rightarrow> (store, Redemption list \<times> int) act" where
  "SearchRedemptions matches keyword startIdx num =
     (let P = (\<lambda>r. \<not> rd_DeletedAt r \<and>
             ((case ParseInt64 keyword of Some i \<Rightarrow> rd_Id r = i | None \<Rightarrow> False) \<or>
              matches (keyword @ ''%'') (rd_Name r))) in
      transaction (
        bindE (query (\<lambda>s. Inr (int (countWhere P (redemptions s))))) (\<lambda>total.
        bindE (query (\<lambda>s.
          let page = drop (nat startIdx) (sort_key (\<lambda>r. - rd_Id r) (filter P (redemptions s))) in
          Inr (if num < 0 then page else take (nat num) page))) (\<lambda>rows.
        ret (rows, total)))))"

section \<open>Check-ins\<close>

record CheckinSetting =
  cs_Enabled :: bool
  cs_MinQuota :: int
  cs_MaxQuota :: int

definition createCheckin :: "Checkin \<Rightarrow> (store, Checkin) act" where
  "createCheckin ck = stmt (\<lambda>s.
     if (ck_UserId ck, ck_CheckinDate ck) \<in> (\<lambda>x. (ck_UserId x, ck_CheckinDate x)) ` set (checkins s)
     then Inl ErrDuplicatedKey
     else let ck' = ck\<lparr>ck_Id := freshId ck_Id (checkins s)\<rparr>
          in Inr (ck', s\<lparr>checkins := checkins s @ [ck']\<rparr>))"

text \<open>Dates compare as the strings they are, byte by byte.\<close>

definition GetUserCheckinRecords :: "int \<Rightarrow> string \<Rightarrow> string \<Rightarrow> (store, Checkin list) act" where
  "GetUserCheckinRecords userId startDate endDate =
     query (\<lambda>s. Inr (rev (sort_key ck_CheckinDate
       (filter (\<lambda>x. ck_UserId x = userId \<and> startDate \<le> ck_CheckinDate x \<and> ck_CheckinDate x \<le> endDate)
         (checkins s)))))"

definition HasCheckedInToday :: "string \<Rightarrow> int \<Rightarrow> (store, bool) act" where
  "HasCheckedInToday today userId =
     query (\<lambda>s. Inr (countWhere (\<lambda>x. ck_UserId x = userId \<and> ck_CheckinDate x = today) (checkins s) > 0))"

definition userCheckinWithTransaction :: "Checkin \<Rightarrow> int \<Rightarrow> int \<Rightarrow> (store, Checkin) act" where
  "userCheckinWithTransaction checkin userId quotaAwarded =
     transaction (
       bindE (attempt (createCheckin checkin)) (\<lambda>created.
         case created of
           Inl _ \<Rightarrow> fail ErrCheckinFailed
         | Inr checkin \<Rightarrow>
             bindE (attempt (updateUser userId (addUserQuota quotaAwarded))) (\<lambda>raised.
               case raised of Inl _ \<Rightarrow> fail ErrCheckinQuotaFailed | Inr _ \<Rightarrow> ret checkin)))"

definition userCheckinWithoutTransaction :: "Checkin \<Rightarrow> int \<Rightarrow> int \<Rightarrow> (store, Checkin) act" where
  "userCheckinWithoutTransaction checkin userId quotaAwarded =
     bindE (attempt (transaction (createCheckin checkin))) (\<lambda>created.
       case created of
         Inl _ \<Rightarrow> fail ErrCheckinFailed
       | Inr checkin \<Rightarrow>
           bindE (attempt (IncreaseUserQuota False userId quotaAwarded True)) (\<lambda>raised.
             case raised of
               Inr _ \<Rightarrow> ret checkin
             | Inl _ \<Rightarrow>
                 bindE (attempt (transaction (exec (\<lambda>s.
                   s\<lparr>checkins := filter (\<lambda>x. ck_Id x \<noteq> ck_Id checkin) (checkins s)\<rparr>)))) (\<lambda>_.
                 fail ErrCheckinQuotaFailed)))"

text \<open>
  \<open>UserCheckin\<close>: the date is read twice, before the check and for the new row. \<open>intn\<close> is
  \<open>rand.Intn\<close>.
\<close>

definition UserCheckin ::
  "CheckinSetting \<Rightarrow> bool \<Rightarrow> (int \<Rightarrow> int) \<Rightarrow> int \<Rightarrow> string \<Rightarrow> string \<Rightarrow> int \<Rightarrow> (store, Checkin) act" where
  "UserCheckin setting sqlite intn now today0 today userId =
     (if \<not> cs_Enabled setting then fail ErrCheckinDisabled
      else bindE (HasCheckedInToday today0 userId) (\<lambda>hasChecked.
        if hasChecked then fail ErrCheckinDone
        else
          let quotaAwarded =
                (if cs_MaxQuota setting > cs_MinQuota setting
                 then cs_MinQuota setting + intn (cs_MaxQuota setting - cs_MinQuota setting + 1)
                 else cs_MinQuota setting);
              checkin = \<lparr>ck_Id = 0, ck_UserId = userId, ck_CheckinDate = today,
                         ck_QuotaAwarded = quotaAwarded, ck_CreatedAt = now\<rparr>
          in if sqlite then userCheckinWithoutTransaction checkin userId quotaAwarded
             else userCheckinWithTransaction checkin userId quotaAwarded))"

record CheckinRecord =
  cr_CheckinDate :: string
  cr_QuotaAwarded :: int

record CheckinStats =
  st_TotalQuota :: int
  st_TotalCheckins :: int
  st_CheckinCount :: int
  st_CheckedInToday :: bool
  st_Records :: "CheckinRecord list"

text \<open>An error after the month's records leaves the zero value in its place.\<close>

definition GetUserCheckinStats :: "string \<Rightarrow> int \<Rightarrow> string \<Rightarrow> (store, CheckinStats) act" where
  "GetUserCheckinStats today userId month =
     bindE (GetUserCheckinRecords userId (month @ ''-01'') (month @ ''-31'')) (\<lambda>records.
     bindE (attempt (HasCheckedInToday today userId)) (\<lambda>checked.
     bindE (attempt (query (\<lambda>s. Inr (int (countWhere (\<lambda>x. ck_UserId x = userId) (checkins s)))))) (\<lambda>number.
     bindE (attempt (query (\<lambda>s. Inr (sum_list (map ck_QuotaAwarded
       (filter (\<lambda>x. ck_UserId x = userId) (checkins s))))))) (\<lambda>awarded.
     ret \<lparr>st_TotalQuota = case_sum (\<lambda>_. 0) id awarded, st_TotalCheckins = case_sum (\<lambda>_. 0) id number,
          st_CheckinCount = int (length records), st_CheckedInToday = case_sum (\<lambda>_. False) id checked,
          st_Records = map (\<lambda>r. \<lparr>cr_CheckinDate = ck_CheckinDate r, cr_QuotaAwarded = ck_QuotaAwarded r\<rparr>)
            records\<rparr>))))"

section \<open>Codes are vouchers\<close>

datatype codeCall =
    CallRedeem int string int
  | CallDeleteCode int
  | CallDeleteInvalid int

fun runCode :: "codeCall \<Rightarrow> (store, unit) act" where
  "runCode (CallRedeem now key userId) = bindE (Redeem now key userId) (\<lambda>_. ret ())"
| "runCode (CallDeleteCode i) = DeleteRedemptionById i"
| "runCode (CallDeleteInvalid now) = bindE (DeleteInvalidRedemptions now) (\<lambda>_. ret ())"

definition codeOpen :: "Redemption \<Rightarrow> bool" where
  "codeOpen r \<longleftrightarrow> rd_Status r = RedemptionCodeStatusEnabled \<and> \<not> rd_DeletedAt r"

text \<open>A used code is worth its quota to the user it names.\<close>

definition codeWorth :: "Redemption \<Rightarrow> int \<Rightarrow> int \<Rightarrow> bool" where
  "codeWorth r u a \<longleftrightarrow>
     rd_Status r = RedemptionCodeStatusUsed \<and> u = rd_UsedUserId r \<and> a = rd_Quota r"

abbreviation codeVouchers :: vouchers where
  "codeVouchers \<equiv> tableVouchers redemptions rd_Id codeOpen codeWorth"

abbreviation codeKeys :: "store \<Rightarrow> bool" where
  "codeKeys \<equiv> keysApart redemptions rd_Id"

abbreviation codePaid :: "store \<Rightarrow> store \<Rightarrow> bool" where
  "codePaid \<equiv> paying codeVouchers codeKeys"

lemmas code_defs = codeOpen_def codeWorth_def rowStep_def status_defs

lemma codePaid_deleted:
  assumes "codeKeys s"
  shows "codePaid s (s\<lparr>redemptions := updateWhere (\<lambda>r. P r \<and> \<not> rd_DeletedAt r)
      (\<lambda>r. r\<lparr>rd_DeletedAt := True\<rparr>) (redemptions s)\<rparr>)"
  by (rule table_paying_none [OF assms]) (auto intro!: rowStep_update simp: code_defs)

lemma codePaid_redeemed:
  assumes keys: "codeKeys s" and r: "r \<in> set (redemptions s)" "codeOpen r"
    and used: "r' = r\<lparr>rd_RedeemedTime := now, rd_Status := RedemptionCodeStatusUsed, rd_UsedUserId := uid\<rparr>"
    and t: "t = s\<lparr>users := updateWhere (\<lambda>u. u_Id u = uid \<and> \<not> u_DeletedAt u) (addUserQuota (rd_Quota r)) (users s),
        redemptions := updateWhere (\<lambda>x. rd_Id x = rd_Id r \<and> \<not> rd_DeletedAt x) (\<lambda>_. r') (redemptions s)\<rparr>"
  shows "codePaid s t"
proof (rule table_paying_one [where T = redemptions and P = codeOpen and key = rd_Id and
      u = uid and a = "rd_Quota r" and r = r and r' = r', OF keys _ r])
  have "x = r" if "x \<in> set (redemptions s)" "rd_Id x = rd_Id r" for x
    using distinct_key_unique [OF keys [unfolded keysApart_def] that(1) r(1) that(2)] .
  then have "rowStep rd_Id codeOpen codeWorth x r'"
    if "x \<in> set (redemptions s)" "rd_Id x = rd_Id r" for x
    using that r(2) by (fastforce simp: used code_defs)
  then show "list_all2 (rowStep rd_Id codeOpen codeWorth) (redemptions s) (redemptions t)"
    unfolding t by (auto intro!: rowStep_update)
  show "r' \<in> set (redemptions t)"
    unfolding t using r by (auto intro!: in_updateWhere simp: codeOpen_def)
  show "balanceOf v t = map_option (\<lambda>b. b + (if v = uid then rd_Quota r else 0)) (balanceOf v s)" for v
    by (rule balanceOf_raised [where uid = uid and f = "addUserQuota (rd_Quota r)"])
       (simp_all add: t addUserQuota_def)
qed (simp_all add: used code_defs)

lemma wp_redeemTx:
  "codeKeys s \<Longrightarrow> wp (redeemTx now key uid) (\<lambda>r t. case r of Inl _ \<Rightarrow> True | Inr _ \<Rightarrow> codePaid s t) s"
  unfolding redeemTx_def saveRedemption_def updateUser_def Let_def
  by (auto intro!: wp_intro codePaid_redeemed [OF _ _ _ refl refl] simp: codeOpen_def)

lemma wp_runCode: "codeKeys s \<Longrightarrow> wp (runCode call) (\<lambda>_. codePaid s) s"
proof (induction call rule: runCode.induct)
  case (1 now key uid)
  note refl = paying_refl [of codeKeys, OF 1]
  have "wp (transaction (redeemTx now key uid)) (\<lambda>_. codePaid s) s"
    by (rule wp_transactionI [OF wp_redeemTx [OF 1]]) (use refl in auto)
  then show ?case
    unfolding runCode.simps Redeem_def using refl
    by (auto intro!: wp_intro intro: wp_mono split: sum.splits)
next
  case (2 i)
  note refl = paying_refl [of codeKeys, OF 2]
  from 2 show ?case
    unfolding runCode.simps DeleteRedemptionById_def deleteRedemptions_def using refl
    by (auto intro!: wp_intro codePaid_deleted)
next
  case (3 now)
  note refl = paying_refl [of codeKeys, OF 3]
  from 3 show ?case
    unfolding runCode.simps DeleteInvalidRedemptions_def deleteRedemptions_def using refl
    by (auto intro!: wp_intro codePaid_deleted)
qed

interpretation codes: voucher_book codeVouchers codeKeys "\<lambda>_. True" runCode
  by unfold_locales (rule wp_runCode)

section \<open>Check-ins are vouchers paid as they are made\<close>

text \<open>Check-ins on a server database, MySQL or PostgreSQL: the branch with the transaction.\<close>

fun runCheckin :: "CheckinSetting \<times> (int \<Rightarrow> int) \<times> int \<times> string \<times> string \<times> int \<Rightarrow> (store, Checkin) act" where
  "runCheckin (setting, intn, now, today0, today, userId) =
     UserCheckin setting False intn now today0 today userId"

definition checkinWorth :: "Checkin \<Rightarrow> int \<Rightarrow> int \<Rightarrow> bool" where
  "checkinWorth x u a \<longleftrightarrow> u = ck_UserId x \<and> a = ck_QuotaAwarded x"

abbreviation checkinVouchers :: vouchers where
  "checkinVouchers \<equiv> tableVouchers checkins ck_Id (\<lambda>_. False) checkinWorth"

definition onceADay :: "store \<Rightarrow> bool" where
  "onceADay s \<longleftrightarrow>
     distinct (map ck_Id (checkins s)) \<and>
     distinct (map (\<lambda>x. (ck_UserId x, ck_CheckinDate x)) (checkins s))"

lemma rowsWhere_False [simp]: "rowsWhere key (\<lambda>_. False) rows = {}"
  by (simp add: rowsWhere_def)

lemma checkinPaid_created:
  assumes ok: "onceADay s" and new: "(ck_UserId x, ck_CheckinDate x) \<notin>
      (\<lambda>x. (ck_UserId x, ck_CheckinDate x)) ` set (checkins s)"
    and x': "x' = x\<lparr>ck_Id := freshId ck_Id (checkins s)\<rparr>"
    and t: "t = s\<lparr>checkins := checkins s @ [x'], users := updateWhere
        (\<lambda>u. u_Id u = ck_UserId x \<and> \<not> u_DeletedAt u) (addUserQuota (ck_QuotaAwarded x)) (users s)\<rparr>"
  shows "paying checkinVouchers onceADay s t"
proof (rule payingI [OF paidOut_one])
  have key: "ck_Id x' \<notin> ck_Id ` set (checkins s)" by (simp add: x')
  show "balanceOf v t = map_option (\<lambda>b. b + (if v = ck_UserId x then ck_QuotaAwarded x else 0)) (balanceOf v s)"
    for v
    by (rule balanceOf_raised [where uid = "ck_UserId x" and f = "addUserQuota (ck_QuotaAwarded x)"])
       (simp_all add: t addUserQuota_def)
  show "ck_Id x' \<in> vo_known checkinVouchers s \<Longrightarrow> ck_Id x' \<in> vo_open checkinVouchers s"
    using key by (simp add: rowKnown_def)
  show "onceADay t"
    using ok new key by (auto simp: onceADay_def t x')
qed (auto simp: t x' rowKnown_def rowWorth_def checkinWorth_def)

lemma wp_userCheckinWithTransaction:
  assumes ok: "onceADay s"
  shows "wp (userCheckinWithTransaction x (ck_UserId x) (ck_QuotaAwarded x))
     (\<lambda>_. paying checkinVouchers onceADay s) s"
  unfolding userCheckinWithTransaction_def createCheckin_def updateUser_def Let_def
  using paying_refl [of onceADay, OF ok]
  by (auto intro!: wp_intro checkinPaid_created [OF ok, of x])

lemma wp_runCheckin: "onceADay s \<Longrightarrow> wp (runCheckin call) (\<lambda>_. paying checkinVouchers onceADay s) s"
proof (induction call rule: runCheckin.induct)
  case (1 setting intn now today0 today uid)
  note stay = paying_refl [of onceADay, OF 1]
  have "wp (userCheckinWithTransaction \<lparr>ck_Id = 0, ck_UserId = uid, ck_CheckinDate = today,
      ck_QuotaAwarded = q, ck_CreatedAt = now\<rparr> uid q) (\<lambda>_. paying checkinVouchers onceADay s) s" for q
    using wp_userCheckinWithTransaction [OF 1, of "\<lparr>ck_Id = 0, ck_UserId = uid, ck_CheckinDate = today,
      ck_QuotaAwarded = q, ck_CreatedAt = now\<rparr>"] by simp
  with stay show ?case
    unfolding runCheckin.simps UserCheckin_def HasCheckedInToday_def Let_def
    by (auto intro!: wp_intro)
qed

interpretation checkins: voucher_book checkinVouchers onceADay "\<lambda>_. True" runCheckin
  by unfold_locales (rule wp_runCheckin)

section \<open>Properties\<close>

text \<open>
  C24. A redemption code pays once: whatever redemptions, by whichever users, and deletions
  follow one another, and whichever statements and commits fail or lose their acknowledgement,
  the balances move exactly by a list of payments of which no two are for the same code; each
  is the quota of a code that was unused before and is marked used by the paid user after.
\<close>

theorem codes_pay_once:
  assumes "codeKeys (db c)"
  shows "\<exists>ps. paidOut codeVouchers (db c) ps (db (snd (runAll (map runCode calls) c)))"
  by (rule codes.runs_pay [OF assms]) simp

definition demoCode :: Redemption where
  "demoCode =
     \<lparr>rd_Id = 3, rd_UserId = 1, rd_Key = ''gift'', rd_Status = 1, rd_Name = ''n'', rd_Quota = 50,
      rd_CreatedTime = 0, rd_RedeemedTime = 0, rd_UsedUserId = 0, rd_DeletedAt = False, rd_ExpiredTime = 0\<rparr>"

definition codeConn :: "store conn" where
  "codeConn = \<lparr>db = demoStore\<lparr>redemptions := [demoCode]\<rparr>, faults = [Good, Good, Good, Lost]\<rparr>"

theorem codes_pay_once_witness:
  "let t = db (snd (runAll (map runCode [CallRedeem 5 ''gift'' 7, CallRedeem 6 ''gift'' 7]) codeConn)) in
     (\<exists>ps. paidOut codeVouchers (db codeConn) ps t) \<and> balanceOf 7 t = Some (u_Quota demoUser + 50)"
proof -
  have "codeKeys (db codeConn)" by (simp add: keysApart_def codeConn_def)
  from codes_pay_once [OF this, of "[CallRedeem 5 ''gift'' 7, CallRedeem 6 ''gift'' 7]"]
  show ?thesis
    by (simp add: Let_def codeConn_def demoCode_def demoStore_def demoUser_def balanceOf_def
        Redeem_def redeemTx_def saveRedemption_def store_ops status_defs addUserQuota_def)
qed


definition demoSetting :: CheckinSetting where
  "demoSetting = \<lparr>cs_Enabled = True, cs_MinQuota = 10, cs_MaxQuota = 20\<rparr>"


end
