(* ===== verification/TopUps.thy ===== *)
theory TopUps
  imports Vouchers Tokens
begin

text \<open>
  Top-up orders, \<open>server/model/topup.go\<close>: the completions the payment providers' webhooks
  trigger, the administrator's governed completion or rejection, and the listings. A pending
  order is an open voucher of the voucher locale.

  Amounts of money are \<open>float64\<close> bit patterns and \<open>decimal\<close> numbers of a package outside the
  repository; the three conversions to quota are parameters, \<open>quotaRates\<close>. Log records are
  left out. When an error is returned, the partial result that comes with it is left out too,
  except after the commit.
\<close>

abbreviation PaymentProviderEpay :: string where "PaymentProviderEpay \<equiv> ''epay''"
abbreviation PaymentProviderStripe :: string where "PaymentProviderStripe \<equiv> ''stripe''"
abbreviation PaymentProviderCreem :: string where "PaymentProviderCreem \<equiv> ''creem''"
abbreviation PaymentProviderWaffo :: string where "PaymentProviderWaffo \<equiv> ''waffo''"
abbreviation PaymentProviderWaffoPancake :: string where "PaymentProviderWaffoPancake \<equiv> ''waffo_pancake''"
abbreviation PaymentProviderUSDTTRC20 :: string where "PaymentProviderUSDTTRC20 \<equiv> ''usdt_trc20''"
abbreviation PaymentMethodUSDTTRC20 :: string where "PaymentMethodUSDTTRC20 \<equiv> ''usdt_trc20''"
abbreviation TopUpStatusRejected :: string where "TopUpStatusRejected \<equiv> ''rejected''"
abbreviation BalanceLedgerSourceTopUp :: string where "BalanceLedgerSourceTopUp \<equiv> ''topup_completion''"

text \<open>
  \<open>qr_Units a\<close> is \<open>decimal.NewFromInt(a).Mul(decimal.NewFromFloat(QuotaPerUnit)).IntPart()\<close>,
  \<open>qr_Money m\<close> the same from \<open>NewFromFloat(m)\<close>, and \<open>qr_AddMoney m q\<close> what the integer
  column \<open>quota\<close> holds after the database has added the float \<open>m * QuotaPerUnit\<close> to \<open>q\<close>.
\<close>

record quotaRates =
  qr_Units :: "int \<Rightarrow> int"
  qr_Money :: "float64 \<Rightarrow> int"
  qr_AddMoney :: "float64 \<Rightarrow> int \<Rightarrow> int"

record AdminTopUpMutation =
  am_ID :: int
  am_OperatorID :: int
  am_ExpectedStatus :: string
  am_TargetStatus :: string
  am_Reason :: string
  am_RequestID :: string

record AdminTopUpMutationResult =
  ar_TopUp :: TopUp
  ar_Ledger :: "BalanceLedger option"
  ar_QuotaAdded :: int

definition adminTopUpQuota :: "quotaRates \<Rightarrow> TopUp \<Rightarrow> int" where
  "adminTopUpQuota rates topUp =
     (if tu_PaymentProvider topUp = PaymentProviderStripe then qr_Money rates (tu_Money topUp)
      else qr_Units rates (tu_Amount topUp))"

section \<open>The governed completion\<close>

text \<open>The credit of a completion: the ledger entry; the user's row follows after the order's.\<close>

definition adminTopUpEntry ::
  "quotaRates \<Rightarrow> int \<Rightarrow> AdminTopUpMutation \<Rightarrow> TopUp \<Rightarrow> (store, BalanceLedger) act" where
  "adminTopUpEntry rates now mutation topUp =
     (let quotaAdded = adminTopUpQuota rates topUp in
      if quotaAdded \<le> 0 \<or> quotaAdded > MaxInt32 then fail (ErrMsg ''invalid topup quota'')
      else bindE (firstUser (tu_UserId topUp)) (\<lambda>user.
        case checkedBalanceLedgerSum (u_Quota user) quotaAdded of
          Inl err \<Rightarrow> fail err
        | Inr nextQuota \<Rightarrow> createLedger
            \<lparr>bl_ID = 0, bl_UserID = u_Id user, bl_OperatorID = am_OperatorID mutation,
             bl_Delta = quotaAdded, bl_BalanceBefore = u_Quota user, bl_BalanceAfter = nextQuota,
             bl_Reason = am_Reason mutation, bl_IdempotencyKey = ''topup:'' @ showInt (tu_Id topUp),
             bl_RequestID = am_RequestID mutation, bl_SourceType = BalanceLedgerSourceTopUp,
             bl_CreatedAt = now\<rparr>))"

definition setTopUpStatus :: "int \<Rightarrow> string \<Rightarrow> string \<Rightarrow> int \<Rightarrow> (store, nat) act" where
  "setTopUpStatus i expected target completeTime =
     updateRows topups topups_update (\<lambda>t. tu_Id t = i \<and> tu_Status t = expected)
       (\<lambda>t. t\<lparr>tu_Status := target, tu_CompleteTime := completeTime\<rparr>)"

definition processAdminTopUpTx ::
  "quotaRates \<Rightarrow> int \<Rightarrow> AdminTopUpMutation \<Rightarrow> (store, AdminTopUpMutationResult) act" where
  "processAdminTopUpTx rates now mutation =
     bindE (attempt (firstRow topups (\<lambda>t. tu_Id t = am_ID mutation))) (\<lambda>found.
       case found of
         Inl err \<Rightarrow> fail (if err = ErrRecordNotFound then ErrTopUpNotFound else err)
       | Inr topUp \<Rightarrow>
           if tu_Status topUp \<noteq> am_ExpectedStatus mutation then fail ErrTopUpStateConflict
           else let success = (am_TargetStatus mutation = TopUpStatusSuccess);
                    completeTime = (if success then now else 0) in
             bindE (if success
                    then bindE (adminTopUpEntry rates now mutation topUp) (\<lambda>entry. ret (Some entry))
                    else ret None) (\<lambda>ledger.
             bindE (setTopUpStatus (tu_Id topUp) (am_ExpectedStatus mutation)
                      (am_TargetStatus mutation) completeTime) (\<lambda>rows.
             if rows \<noteq> 1 then fail ErrTopUpStateConflict
             else bindE (case ledger of
                 None \<Rightarrow> ret ()
               | Some entry \<Rightarrow>
                   bindE (firstUser (tu_UserId topUp)) (\<lambda>user.
                   bindE (updateUser (tu_UserId topUp) (applyUserUpdates
                     (balanceLedgerUserUpdates user (bl_BalanceAfter entry) False))) (\<lambda>_. ret ()))) (\<lambda>_.
             ret \<lparr>ar_TopUp = topUp\<lparr>tu_Status := am_TargetStatus mutation, tu_CompleteTime := completeTime\<rparr>,
                  ar_Ledger = ledger,
                  ar_QuotaAdded = (case ledger of None \<Rightarrow> 0 | Some entry \<Rightarrow> bl_Delta entry)\<rparr>))))"

definition ProcessAdminTopUp ::
  "quotaRates \<Rightarrow> int \<Rightarrow> AdminTopUpMutation \<Rightarrow> (store, AdminTopUpMutationResult \<times> err option) act" where
  "ProcessAdminTopUp rates now mutation0 =
     (if am_ID mutation0 \<le> 0 then fail ErrTopUpNotFound
      else let mutation = mutation0\<lparr>am_Reason := TrimSpace (am_Reason mutation0)\<rparr> in
      if am_OperatorID mutation \<le> 0 \<or> am_Reason mutation = [] then fail ErrTopUpStatusInvalid
      else if am_ExpectedStatus mutation \<noteq> TopUpStatusPending then fail ErrTopUpStateConflict
      else if am_TargetStatus mutation \<noteq> TopUpStatusSuccess \<and>
              am_TargetStatus mutation \<noteq> TopUpStatusRejected
      then fail ErrTopUpStatusInvalid
      else bindE (transaction (processAdminTopUpTx rates now mutation)) (\<lambda>result.
        if am_TargetStatus mutation = TopUpStatusSuccess
        then bindE (attempt (extern ErrCache)) (\<lambda>sync.
          case sync of
            Inl _ \<Rightarrow> ret (result, Some ErrTopUpCacheSyncPending)
          | Inr _ \<Rightarrow> ret (result, None))
        else ret (result, None)))"

definition ManualCompleteTopUp :: "string \<Rightarrow> (store, unit) act" where
  "ManualCompleteTopUp tradeNo =
     fail (ErrMsg ''manual topup completion requires the governed admin mutation'')"

section \<open>The webhooks' completions\<close>

definition topUpByTradeNo :: "string \<Rightarrow> (store, TopUp) act" where
  "topUpByTradeNo tradeNo = firstRow topups (\<lambda>t. tu_TradeNo t = tradeNo)"

definition UpdatePendingTopUpStatus :: "string \<Rightarrow> string \<Rightarrow> string \<Rightarrow> (store, unit) act" where
  "UpdatePendingTopUpStatus tradeNo expectedPaymentProvider targetStatus =
     (if tradeNo = [] then fail ErrTradeNoMissing
      else transaction (
        bindE (attempt (topUpByTradeNo tradeNo)) (\<lambda>found.
          case found of
            Inl _ \<Rightarrow> fail ErrTopUpNotFound
          | Inr topUp \<Rightarrow>
              if expectedPaymentProvider \<noteq> [] \<and> tu_PaymentProvider topUp \<noteq> expectedPaymentProvider
              then fail ErrPaymentMethodMismatch
              else if tu_Status topUp \<noteq> TopUpStatusPending then fail ErrTopUpStatusInvalid
              else saveTopUp (topUp\<lparr>tu_Status := targetStatus\<rparr>))))"

definition completed :: "int \<Rightarrow> TopUp \<Rightarrow> TopUp" where
  "completed now topUp = topUp\<lparr>tu_CompleteTime := now, tu_Status := TopUpStatusSuccess\<rparr>"

definition rechargeStripeTx :: "quotaRates \<Rightarrow> int \<Rightarrow> string \<Rightarrow> string \<Rightarrow> (store, TopUp) act" where
  "rechargeStripeTx rates now referenceId customerId =
     bindE (attempt (topUpByTradeNo referenceId)) (\<lambda>found.
       case found of
         Inl _ \<Rightarrow> fail ErrTopUpOrderMissing
       | Inr topUp \<Rightarrow>
           if tu_PaymentProvider topUp \<noteq> PaymentProviderStripe then fail ErrPaymentMethodMismatch
           else if tu_Status topUp \<noteq> TopUpStatusPending then fail ErrTopUpOrderStatus
           else bindE (saveTopUp (completed now topUp)) (\<lambda>_.
             bindE (updateUser (tu_UserId topUp)
               (\<lambda>u. u\<lparr>u_StripeCustomer := customerId,
                       u_Quota := qr_AddMoney rates (tu_Money topUp) (u_Quota u)\<rparr>)) (\<lambda>_.
             ret (completed now topUp))))"

definition Recharge :: "quotaRates \<Rightarrow> int \<Rightarrow> string \<Rightarrow> string \<Rightarrow> (store, unit) act" where
  "Recharge rates now referenceId customerId =
     (if referenceId = [] then fail ErrTradeNoMissing
      else bindE (attempt (transaction (rechargeStripeTx rates now referenceId customerId))) (\<lambda>result.
        case result of Inl _ \<Rightarrow> fail ErrTopUpFailed | Inr _ \<Rightarrow> ret ()))"

text \<open>The customer's address is filled in where the user has none.\<close>

definition creditCreem :: "string \<Rightarrow> TopUp \<Rightarrow> (store, unit) act" where
  "creditCreem customerEmail topUp =
     bindE (if customerEmail \<noteq> []
            then bindE (firstUser (tu_UserId topUp)) (\<lambda>user. ret (u_Email user = []))
            else ret False) (\<lambda>setEmail.
     bindE (updateUser (tu_UserId topUp)
       (\<lambda>u. u\<lparr>u_Quota := u_Quota u + tu_Amount topUp,
               u_Email := (if setEmail then customerEmail else u_Email u)\<rparr>)) (\<lambda>_.
     ret ()))"

definition rechargeCreemTx :: "int \<Rightarrow> string \<Rightarrow> string \<Rightarrow> (store, TopUp) act" where
  "rechargeCreemTx now referenceId customerEmail =
     bindE (attempt (topUpByTradeNo referenceId)) (\<lambda>found.
       case found of
         Inl _ \<Rightarrow> fail ErrTopUpOrderMissing
       | Inr topUp \<Rightarrow>
           if tu_PaymentProvider topUp \<noteq> PaymentProviderCreem then fail ErrPaymentMethodMismatch
           else if tu_Status topUp \<noteq> TopUpStatusPending then fail ErrTopUpOrderStatus
           else bindE (saveTopUp (completed now topUp)) (\<lambda>_.
             bindE (creditCreem customerEmail topUp) (\<lambda>_. ret (completed now topUp))))"

definition RechargeCreem :: "int \<Rightarrow> string \<Rightarrow> string \<Rightarrow> (store, unit) act" where
  "RechargeCreem now referenceId customerEmail =
     (if referenceId = [] then fail ErrTradeNoMissing
      else bindE (attempt (transaction (rechargeCreemTx now referenceId customerEmail))) (\<lambda>result.
        case result of Inl _ \<Rightarrow> fail ErrTopUpFailed | Inr _ \<Rightarrow> ret ()))"

text \<open>The two Waffo completions differ in the provider alone; the result is the quota added.\<close>

definition rechargeWaffoTx :: "string \<Rightarrow> quotaRates \<Rightarrow> int \<Rightarrow> string \<Rightarrow> (store, int) act" where
  "rechargeWaffoTx provider rates now tradeNo =
     bindE (attempt (topUpByTradeNo tradeNo)) (\<lambda>found.
       case found of
         Inl _ \<Rightarrow> fail ErrTopUpOrderMissing
       | Inr topUp \<Rightarrow>
           if tu_PaymentProvider topUp \<noteq> provider then fail ErrPaymentMethodMismatch
           else if tu_Status topUp = TopUpStatusSuccess then ret 0
           else if tu_Status topUp \<noteq> TopUpStatusPending then fail ErrTopUpOrderStatus
           else let quotaToAdd = qr_Units rates (tu_Amount topUp) in
             if quotaToAdd \<le> 0 then fail ErrTopUpQuotaInvalid
             else bindE (saveTopUp (completed now topUp)) (\<lambda>_.
               bindE (updateUser (tu_UserId topUp) (addUserQuota quotaToAdd)) (\<lambda>_.
               ret quotaToAdd)))"

definition RechargeWaffo :: "quotaRates \<Rightarrow> int \<Rightarrow> string \<Rightarrow> (store, unit) act" where
  "RechargeWaffo rates now tradeNo =
     (if tradeNo = [] then fail ErrTradeNoMissing
      else bindE (attempt (transaction (rechargeWaffoTx PaymentProviderWaffo rates now tradeNo))) (\<lambda>result.
        case result of Inl _ \<Rightarrow> fail ErrTopUpFailed | Inr _ \<Rightarrow> ret ()))"

definition RechargeWaffoPancake :: "quotaRates \<Rightarrow> int \<Rightarrow> string \<Rightarrow> (store, unit) act" where
  "RechargeWaffoPancake rates now tradeNo =
     (if tradeNo = [] then fail ErrTradeNoMissing
      else bindE (attempt (transaction (rechargeWaffoTx PaymentProviderWaffoPancake rates now tradeNo))) (\<lambda>result.
        case result of Inl _ \<Rightarrow> fail ErrTopUpFailed | Inr _ \<Rightarrow> ret ()))"

section \<open>Lookups and listings\<close>

definition GetTopUpById :: "int \<Rightarrow> (store, TopUp option) act" where
  "GetTopUpById i =
     bindE (attempt (firstRow topups (\<lambda>t. tu_Id t = i))) (\<lambda>found.
       case found of Inl _ \<Rightarrow> ret None | Inr topUp \<Rightarrow> ret (Some topUp))"

definition GetTopUpByTradeNo :: "string \<Rightarrow> (store, TopUp option) act" where
  "GetTopUpByTradeNo tradeNo =
     bindE (attempt (topUpByTradeNo tradeNo)) (\<lambda>found.
       case found of Inl _ \<Rightarrow> ret None | Inr topUp \<Rightarrow> ret (Some topUp))"

definition topUpQueryWindowSeconds :: int where "topUpQueryWindowSeconds = 30 * 24 * 60 * 60"

definition topUpQueryCutoff :: "int \<Rightarrow> int" where
  "topUpQueryCutoff now = now - topUpQueryWindowSeconds"

definition topUpPage :: "int \<Rightarrow> int \<Rightarrow> (TopUp \<Rightarrow> bool) \<Rightarrow> TopUp list \<Rightarrow> TopUp list" where
  "topUpPage pageSize startIdx P rows =
     (let page = drop (nat startIdx) (sort_key (\<lambda>t. - tu_Id t) (filter P rows)) in
      if pageSize < 0 then page else take (nat pageSize) page)"

definition listTopUps :: "int \<Rightarrow> int \<Rightarrow> (TopUp \<Rightarrow> bool) \<Rightarrow> (store, TopUp list \<times> int) act" where
  "listTopUps pageSize startIdx P =
     transaction (
       bindE (query (\<lambda>s. Inr (int (countWhere P (topups s))))) (\<lambda>total.
       bindE (query (\<lambda>s. Inr (topUpPage pageSize startIdx P (topups s)))) (\<lambda>rows.
       ret (rows, total))))"

definition GetUserTopUps :: "int \<Rightarrow> int \<Rightarrow> int \<Rightarrow> int \<Rightarrow> (store, TopUp list \<times> int) act" where
  "GetUserTopUps now userId pageSize startIdx =
     listTopUps pageSize startIdx
       (\<lambda>t. tu_UserId t = userId \<and> tu_CreateTime t \<ge> topUpQueryCutoff now)"

definition GetAllTopUps :: "int \<Rightarrow> int \<Rightarrow> (store, TopUp list \<times> int) act" where
  "GetAllTopUps pageSize startIdx = listTopUps pageSize startIdx (\<lambda>_. True)"

text \<open>
  The searches by trade number; \<open>matches\<close> is the database's LIKE with escape character \<open>!\<close>.
  The LIMIT set before counting applies to the single row a COUNT returns, so the number is
  that of all matches.
\<close>

definition searchTopUps ::
  "(string \<Rightarrow> string \<Rightarrow> bool) \<Rightarrow> string \<Rightarrow> int \<Rightarrow> int \<Rightarrow> (TopUp \<Rightarrow> bool) \<Rightarrow> (store, TopUp list \<times> int) act" where
  "searchTopUps matches keyword pageSize startIdx P =
     transaction (
       case (if keyword = [] then Inr (\<lambda>_. True)
             else map_sum id (\<lambda>pattern t. matches pattern (tu_TradeNo t)) (sanitizeLikePattern keyword)) of
         Inl err \<Rightarrow> fail err
       | Inr sel \<Rightarrow>
           bindE (attempt (query (\<lambda>s. Inr (int (countWhere (\<lambda>t. P t \<and> sel t) (topups s)))))) (\<lambda>counted.
             case counted of
               Inl _ \<Rightarrow> fail ErrTopUpSearchFailed
             | Inr number \<Rightarrow>
                 bindE (attempt (query (\<lambda>s. Inr (topUpPage pageSize startIdx (\<lambda>t. P t \<and> sel t) (topups s))))) (\<lambda>paged.
                   case paged of
                     Inl _ \<Rightarrow> fail ErrTopUpSearchFailed
                   | Inr rows \<Rightarrow> ret (rows, number))))"

definition SearchUserTopUps ::
  "(string \<Rightarrow> string \<Rightarrow> bool) \<Rightarrow> int \<Rightarrow> int \<Rightarrow> string \<Rightarrow> int \<Rightarrow> int \<Rightarrow> (store, TopUp list \<times> int) act" where
  "SearchUserTopUps matches now userId keyword pageSize startIdx =
     searchTopUps matches keyword pageSize startIdx
       (\<lambda>t. tu_UserId t = userId \<and> tu_CreateTime t \<ge> topUpQueryCutoff now)"

definition SearchAllTopUps ::
  "(string \<Rightarrow> string \<Rightarrow> bool) \<Rightarrow> string \<Rightarrow> int \<Rightarrow> int \<Rightarrow> (store, TopUp list \<times> int) act" where
  "SearchAllTopUps matches keyword pageSize startIdx =
     searchTopUps matches keyword pageSize startIdx (\<lambda>_. True)"

section \<open>Orders are vouchers\<close>

datatype topUpCall =
    CallAdmin int AdminTopUpMutation
  | CallMark string string string
  | CallStripe int string string
  | CallCreem int string string
  | CallWaffo int string
  | CallPancake int string

fun runTopUp :: "quotaRates \<Rightarrow> topUpCall \<Rightarrow> (store, unit) act" where
  "runTopUp rates (CallAdmin now mutation) = bindE (ProcessAdminTopUp rates now mutation) (\<lambda>_. ret ())"
| "runTopUp rates (CallMark tradeNo provider target) = UpdatePendingTopUpStatus tradeNo provider target"
| "runTopUp rates (CallStripe now ref customer) = Recharge rates now ref customer"
| "runTopUp rates (CallCreem now ref email) = RechargeCreem now ref email"
| "runTopUp rates (CallWaffo now tradeNo) = RechargeWaffo rates now tradeNo"
| "runTopUp rates (CallPancake now tradeNo) = RechargeWaffoPancake rates now tradeNo"

definition topUpOpen :: "TopUp \<Rightarrow> bool" where
  "topUpOpen t \<longleftrightarrow> tu_Status t = TopUpStatusPending"

text \<open>What the completions of the providers credit, and what an administrator's does.\<close>

definition creditOf :: "quotaRates \<Rightarrow> TopUp \<Rightarrow> int \<Rightarrow> bool" where
  "creditOf rates t a \<longleftrightarrow>
     a = adminTopUpQuota rates t \<or>
     tu_PaymentProvider t = PaymentProviderStripe \<and> (\<exists>q. qr_AddMoney rates (tu_Money t) q = q + a) \<or>
     tu_PaymentProvider t = PaymentProviderCreem \<and> a = tu_Amount t"

lemma creditOf_completed [simp]: "creditOf rates (completed now t) a = creditOf rates t a"
  by (auto simp: creditOf_def completed_def adminTopUpQuota_def)

definition topUpWorth :: "quotaRates \<Rightarrow> TopUp \<Rightarrow> int \<Rightarrow> int \<Rightarrow> bool" where
  "topUpWorth rates t u a \<longleftrightarrow>
     tu_Status t = TopUpStatusSuccess \<and> u = tu_UserId t \<and> creditOf rates t a"

abbreviation topUpVouchers :: "quotaRates \<Rightarrow> vouchers" where
  "topUpVouchers rates \<equiv> tableVouchers topups tu_Id topUpOpen (topUpWorth rates)"

abbreviation topUpKeys :: "store \<Rightarrow> bool" where
  "topUpKeys \<equiv> keysApart topups tu_Id"

abbreviation topUpPaid :: "quotaRates \<Rightarrow> store \<Rightarrow> store \<Rightarrow> bool" where
  "topUpPaid rates \<equiv> paying (topUpVouchers rates) topUpKeys"

text \<open>The row of a pending order is replaced, and nothing or its credit is paid.\<close>

lemma rowStep_closed:
  assumes "topUpKeys s" "t0 \<in> set (topups s)" "topUpOpen t0" "tu_Id t' = tu_Id t0"
    "topups t = updateWhere (\<lambda>x. tu_Id x = tu_Id t0 \<and> P x) (\<lambda>_. t') (topups s)"
  shows "list_all2 (rowStep tu_Id topUpOpen (topUpWorth rates)) (topups s) (topups t)"
proof -
  have "x = t0" if "x \<in> set (topups s)" "tu_Id x = tu_Id t0" for x
    using distinct_key_unique [OF assms(1) [unfolded keysApart_def] that(1) assms(2) that(2)] .
  then have "rowStep tu_Id topUpOpen (topUpWorth rates) x t'" if "x \<in> set (topups s)" "tu_Id x = tu_Id t0" for x
    using that assms(3,4) by (fastforce simp: rowStep_def topUpOpen_def topUpWorth_def)
  then show ?thesis unfolding assms(5) by (auto intro!: rowStep_update)
qed

lemma topUpPaid_marked:
  assumes "topUpKeys s" "t0 \<in> set (topups s)" "topUpOpen t0" "tu_Id t' = tu_Id t0"
    "topups t = updateWhere (\<lambda>x. tu_Id x = tu_Id t0 \<and> P x) (\<lambda>_. t') (topups s)" "users t = users s"
  shows "topUpPaid rates s t"
  by (rule table_paying_none [OF assms(1) rowStep_closed [OF assms(1-5)] assms(6)])

lemma topUpPaid_credited:
  assumes keys: "topUpKeys s" and t0: "t0 \<in> set (topups s)" "topUpOpen t0"
    and new: "t' = completed now t0"
      "topups t = updateWhere (\<lambda>x. tu_Id x = tu_Id t0 \<and> P x) (\<lambda>_. t') (topups s)" "P t0"
    and bal: "\<And>v. balanceOf v t = map_option (\<lambda>b. b + (if v = tu_UserId t0 then a else 0)) (balanceOf v s)"
    and credit: "creditOf rates t0 a"
  shows "topUpPaid rates s t"
proof (rule table_paying_one [where T = topups and key = tu_Id and P = topUpOpen and r = t0 and r' = t'
      and u = "tu_UserId t0" and a = a, OF keys _ t0 _ _ _ _ bal])
  show "list_all2 (rowStep tu_Id topUpOpen (topUpWorth rates)) (topups s) (topups t)"
    by (rule rowStep_closed [OF keys t0 _ new(2)]) (simp add: new completed_def)
  show "t' \<in> set (topups t)"
    unfolding new(2) using t0 new(3) by (auto intro!: in_updateWhere)
  show "tu_Id t' = tu_Id t0" "\<not> topUpOpen t'"
    by (simp_all add: new(1) completed_def topUpOpen_def)
  show "topUpWorth rates t' (tu_UserId t0) a"
    using credit by (simp add: new(1) topUpWorth_def) (simp add: completed_def)
qed

lemmas topUpPaid_saved = topUpPaid_credited [where P = "\<lambda>_. True", simplified]
lemmas topUpPaid_saved_only = topUpPaid_marked [where P = "\<lambda>_. True", simplified]

lemma topUpPaid_raised:
  assumes "topUpKeys s" "t0 \<in> set (topups s)" "tu_Status t0 = TopUpStatusPending"
    "topups t = updateWhere (\<lambda>x. tu_Id x = tu_Id t0) (\<lambda>_. completed now t0) (topups s)"
    "users t = updateWhere (\<lambda>u. u_Id u = tu_UserId t0 \<and> \<not> u_DeletedAt u) f (users s)"
    "\<And>u. u_Id (f u) = u_Id u" "\<And>u. u_DeletedAt (f u) = u_DeletedAt u"
    "\<And>u. u_Quota (f u) = u_Quota u + a" "creditOf rates t0 a"
  shows "topUpPaid rates s t"
  by (rule topUpPaid_saved [OF assms(1,2) _ refl assms(4) _ assms(9)])
     (simp add: topUpOpen_def assms(3), rule balanceOf_raised [OF assms(5-8)])

text \<open>A Stripe credit depends on the balance it is added to.\<close>

lemma balanceOf_added:
  assumes "users t = updateWhere (\<lambda>u. u_Id u = uid \<and> \<not> u_DeletedAt u) f (users s)"
    "\<And>u. u_Id (f u) = u_Id u" "\<And>u. u_DeletedAt (f u) = u_DeletedAt u"
    "\<And>u. u_Quota (f u) = g (u_Quota u)"
  shows "balanceOf v t = map_option (\<lambda>b. b + (if v = uid then
      (case balanceOf uid s of None \<Rightarrow> g 0 | Some q \<Rightarrow> g q - q) else 0)) (balanceOf v s)"
  using findRow_Some [of "\<lambda>u. u_Id u = v \<and> \<not> u_DeletedAt u" "users s"]
  by (cases "findRow (\<lambda>u. u_Id u = v \<and> \<not> u_DeletedAt u) (users s)")
     (auto simp: balanceOf_def findRow_updateWhere assms)

lemma topUpPaid_stripe:
  assumes "topUpKeys s" "t0 \<in> set (topups s)" "tu_Status t0 = TopUpStatusPending"
    "tu_PaymentProvider t0 = PaymentProviderStripe"
    "topups t = updateWhere (\<lambda>x. tu_Id x = tu_Id t0) (\<lambda>_. completed now t0) (topups s)"
    "users t = updateWhere (\<lambda>u. u_Id u = tu_UserId t0 \<and> \<not> u_DeletedAt u)
       (\<lambda>u. u\<lparr>u_StripeCustomer := customer, u_Quota := qr_AddMoney rates (tu_Money t0) (u_Quota u)\<rparr>) (users s)"
  shows "topUpPaid rates s t"
proof (rule topUpPaid_saved [OF assms(1,2) _ refl assms(5)])
  let ?g = "qr_AddMoney rates (tu_Money t0)"
  show "balanceOf v t = map_option (\<lambda>b. b + (if v = tu_UserId t0 then
      (case balanceOf (tu_UserId t0) s of None \<Rightarrow> ?g 0 | Some q \<Rightarrow> ?g q - q) else 0)) (balanceOf v s)" for v
    by (rule balanceOf_added [OF assms(6)]) simp_all
  show "creditOf rates t0 (case balanceOf (tu_UserId t0) s of None \<Rightarrow> ?g 0 | Some q \<Rightarrow> ?g q - q)"
  proof (cases "balanceOf (tu_UserId t0) s")
    case None
    with assms(4) show ?thesis by (auto simp: creditOf_def intro: exI [of _ 0])
  next
    case (Some q)
    with assms(4) show ?thesis by (auto simp: creditOf_def intro: exI [of _ q])
  qed
qed (simp add: topUpOpen_def assms(3))

abbreviation paysTx :: "quotaRates \<Rightarrow> store \<Rightarrow> (store, 'a) act \<Rightarrow> bool" where
  "paysTx rates s m \<equiv> wp m (\<lambda>r t. case r of Inl _ \<Rightarrow> True | Inr _ \<Rightarrow> topUpPaid rates s t) s"

lemma tu_completed [simp]: "tu_Id (completed now t) = tu_Id t"
  by (simp add: completed_def)

text \<open>The three ways a webhook's transaction leaves the tables.\<close>

abbreviation creditedStore :: "int \<Rightarrow> TopUp \<Rightarrow> (User \<Rightarrow> User) \<Rightarrow> store \<Rightarrow> store" where
  "creditedStore now t0 f s \<equiv>
     s\<lparr>topups := updateWhere (\<lambda>x. tu_Id x = tu_Id t0) (\<lambda>_. completed now t0) (topups s),
       users := updateWhere (\<lambda>u. u_Id u = tu_UserId t0 \<and> \<not> u_DeletedAt u) f (users s)\<rparr>"

lemma topUpPaid_store:
  assumes "topUpKeys s" "t0 \<in> set (topups s)" "tu_Status t0 = TopUpStatusPending"
  shows "tu_PaymentProvider t0 = PaymentProviderStripe \<Longrightarrow> topUpPaid rates s (creditedStore now t0
      (\<lambda>u. u\<lparr>u_StripeCustomer := customer, u_Quota := qr_AddMoney rates (tu_Money t0) (u_Quota u)\<rparr>) s)"
    "tu_PaymentProvider t0 \<noteq> PaymentProviderStripe \<Longrightarrow> topUpPaid rates s
      (creditedStore now t0 (addUserQuota (qr_Units rates (tu_Amount t0))) s)"
    "tu_PaymentProvider t0 = PaymentProviderCreem \<Longrightarrow> topUpPaid rates s (creditedStore now t0
      (\<lambda>u. u\<lparr>u_Quota := u_Quota u + tu_Amount t0, u_Email := g u\<rparr>) s)"
    "tu_PaymentProvider t0 = PaymentProviderCreem \<Longrightarrow> topUpPaid rates s (creditedStore now t0
      (\<lambda>u. u\<lparr>u_Quota := u_Quota u + tu_Amount t0\<rparr>) s)"
proof -
  note raised = topUpPaid_raised [OF assms, where now = now]
  show "tu_PaymentProvider t0 = PaymentProviderStripe \<Longrightarrow> topUpPaid rates s (creditedStore now t0
      (\<lambda>u. u\<lparr>u_StripeCustomer := customer, u_Quota := qr_AddMoney rates (tu_Money t0) (u_Quota u)\<rparr>) s)"
    by (rule topUpPaid_stripe [OF assms, where now = now and customer = customer]) simp_all
  show "tu_PaymentProvider t0 \<noteq> PaymentProviderStripe \<Longrightarrow> topUpPaid rates s
      (creditedStore now t0 (addUserQuota (qr_Units rates (tu_Amount t0))) s)"
    by (rule raised [where f = "addUserQuota (qr_Units rates (tu_Amount t0))" and a = "qr_Units rates (tu_Amount t0)"])
       (simp_all add: addUserQuota_def creditOf_def adminTopUpQuota_def)
  show "tu_PaymentProvider t0 = PaymentProviderCreem \<Longrightarrow> topUpPaid rates s (creditedStore now t0
      (\<lambda>u. u\<lparr>u_Quota := u_Quota u + tu_Amount t0, u_Email := g u\<rparr>) s)"
    by (rule raised [where f = "\<lambda>u. u\<lparr>u_Quota := u_Quota u + tu_Amount t0, u_Email := g u\<rparr>" and a = "tu_Amount t0"])
       (simp_all add: creditOf_def)
  show "tu_PaymentProvider t0 = PaymentProviderCreem \<Longrightarrow> topUpPaid rates s (creditedStore now t0
      (\<lambda>u. u\<lparr>u_Quota := u_Quota u + tu_Amount t0\<rparr>) s)"
    by (rule raised [where f = "\<lambda>u. u\<lparr>u_Quota := u_Quota u + tu_Amount t0\<rparr>" and a = "tu_Amount t0"])
       (simp_all add: creditOf_def)
qed

lemma wp_rechargeStripeTx: "topUpKeys s \<Longrightarrow> paysTx rates s (rechargeStripeTx rates now ref customer)"
  unfolding rechargeStripeTx_def topUpByTradeNo_def saveTopUp_def updateUser_def
  by (auto intro!: wp_intro topUpPaid_store)

lemma wp_rechargeWaffoTx:
  assumes "topUpKeys s" "provider \<noteq> PaymentProviderStripe"
  shows "paysTx rates s (rechargeWaffoTx provider rates now ref)"
  unfolding rechargeWaffoTx_def topUpByTradeNo_def saveTopUp_def updateUser_def Let_def
  using assms paying_refl [where ok = topUpKeys, OF assms(1)]
  by (auto intro!: wp_intro topUpPaid_store)

lemma wp_rechargeCreemTx:
  assumes "topUpKeys s"
  shows "paysTx rates s (rechargeCreemTx now ref email)"
  unfolding rechargeCreemTx_def creditCreem_def topUpByTradeNo_def saveTopUp_def updateUser_def Let_def
  using assms by (auto intro!: wp_intro topUpPaid_store)

text \<open>What the governed completion commits: the order's status and, for a completion, the posted credit.\<close>

definition adminPost :: "quotaRates \<Rightarrow> int \<Rightarrow> AdminTopUpMutation \<Rightarrow> store \<Rightarrow> store \<Rightarrow> bool" where
  "adminPost rates now m s t \<longleftrightarrow>
     (case findRow (\<lambda>x. tu_Id x = am_ID m) (topups s) of
        None \<Rightarrow> False
      | Some t0 \<Rightarrow>
          tu_Status t0 = am_ExpectedStatus m \<and>
          topups t = updateWhere (\<lambda>x. tu_Id x = am_ID m \<and> tu_Status x = am_ExpectedStatus m)
            (\<lambda>x. x\<lparr>tu_Status := am_TargetStatus m,
                    tu_CompleteTime := (if am_TargetStatus m = TopUpStatusSuccess then now else 0)\<rparr>) (topups s) \<and>
          (if am_TargetStatus m = TopUpStatusSuccess
           then \<exists>e. posted s e t \<and> bl_UserID e = tu_UserId t0 \<and> bl_Delta e = adminTopUpQuota rates t0
           else users t = users s \<and> ledgers t = ledgers s))"

lemma posted_rows:
  assumes "findRow (\<lambda>u. u_Id u = i \<and> \<not> u_DeletedAt u) (users s) = Some u" "bl_UserID e = i"
    "bl_BalanceBefore e = u_Quota u" "checkedBalanceLedgerSum (u_Quota u) (bl_Delta e) = Inr (bl_BalanceAfter e)"
    "bl_IdempotencyKey e \<notin> bl_IdempotencyKey ` set (ledgers s)"
    "users t = updateWhere (\<lambda>u. u_Id u = i \<and> \<not> u_DeletedAt u)
       (applyUserUpdates (balanceLedgerUserUpdates u (bl_BalanceAfter e) False)) (users s)"
    "ledgers t = ledgers s @ [e]"
  shows "posted s e t"
  unfolding posted_def
  by (intro conjI exI [of _ "applyUserUpdates (balanceLedgerUserUpdates u (bl_BalanceAfter e) False)"])
     (use assms in \<open>auto dest: checkedSum_Inr\<close>)

definition adminEntry :: "quotaRates \<Rightarrow> TopUp \<Rightarrow> store \<Rightarrow> BalanceLedger \<Rightarrow> bool" where
  "adminEntry rates t0 s e \<longleftrightarrow>
     (\<exists>u. findRow (\<lambda>u. u_Id u = tu_UserId t0 \<and> \<not> u_DeletedAt u) (users s) = Some u \<and>
        bl_UserID e = tu_UserId t0 \<and> bl_BalanceBefore e = u_Quota u \<and>
        bl_Delta e = adminTopUpQuota rates t0 \<and>
        checkedBalanceLedgerSum (u_Quota u) (bl_Delta e) = Inr (bl_BalanceAfter e) \<and>
        bl_IdempotencyKey e \<notin> bl_IdempotencyKey ` set (ledgers s))"

lemma wp_adminTopUpEntry:
  "wp (adminTopUpEntry rates now m t0)
     (\<lambda>r t. case r of Inl _ \<Rightarrow> True | Inr e \<Rightarrow> adminEntry rates t0 s e \<and> t = s\<lparr>ledgers := ledgers s @ [e]\<rparr>) s"
  unfolding adminTopUpEntry_def Let_def
  by (auto intro!: wp_intro simp: adminEntry_def split: sum.splits)

lemma adminEntry_posted:
  assumes "adminEntry rates t0 s e"
    "findRow (\<lambda>u. u_Id u = tu_UserId t0 \<and> \<not> u_DeletedAt u) (users s) = Some u"
  shows "\<exists>e'. posted s e' (s\<lparr>ledgers := ledgers s @ [e], topups := ts,
      users := updateWhere (\<lambda>u. u_Id u = tu_UserId t0 \<and> \<not> u_DeletedAt u)
       (applyUserUpdates (balanceLedgerUserUpdates u (bl_BalanceAfter e) False)) (users s)\<rparr>) \<and>
     bl_UserID e' = tu_UserId t0 \<and> bl_Delta e' = adminTopUpQuota rates t0"
  using assms by (intro exI [of _ e] conjI posted_rows [where u = u]) (auto simp: adminEntry_def)

lemma wp_processAdminTopUpTx:
  "wp (processAdminTopUpTx rates now m) (\<lambda>r t. case r of Inl _ \<Rightarrow> True | Inr _ \<Rightarrow> adminPost rates now m s t) s"
proof -
  have credit: "wp (bindE (adminTopUpEntry rates now m t0) (\<lambda>entry. ret (Some entry)))
      (\<lambda>r t. case r of Inl _ \<Rightarrow> True | Inr l \<Rightarrow>
         \<exists>e. l = Some e \<and> adminEntry rates t0 s e \<and> t = s\<lparr>ledgers := ledgers s @ [e]\<rparr>) s" for t0
    by (rule wp_bindI [OF wp_adminTopUpEntry]) auto
  show ?thesis
    unfolding processAdminTopUpTx_def setTopUpStatus_def updateUser_def Let_def
    by (auto intro!: wp_intro wp_mono [OF credit] adminEntry_posted simp: adminPost_def split: sum.splits)
qed

lemma updateWhere_one:
  assumes "distinct (map key rows)" "r \<in> set rows"
  shows "updateWhere (\<lambda>x. key x = key r \<and> P x) f rows = updateWhere (\<lambda>x. key x = key r \<and> P x) (\<lambda>_. f r) rows"
  unfolding updateWhere_def using distinct_key_unique [OF assms(1) _ assms(2)] by auto

lemma adminPost_paid:
  assumes keys: "topUpKeys s" and post: "adminPost rates now m s t"
    and expected: "am_ExpectedStatus m = TopUpStatusPending"
  shows "topUpPaid rates s t"
proof -
  from post obtain t0 where find: "findRow (\<lambda>x. tu_Id x = am_ID m) (topups s) = Some t0"
    unfolding adminPost_def by (auto split: option.splits)
  then have t0: "t0 \<in> set (topups s)" "tu_Id t0 = am_ID m" by (auto dest: findRow_Some)
  let ?f = "\<lambda>x. x\<lparr>tu_Status := am_TargetStatus m,
      tu_CompleteTime := (if am_TargetStatus m = TopUpStatusSuccess then now else 0)\<rparr>"
  from post find have open0: "topUpOpen t0" and rows: "topups t = updateWhere
      (\<lambda>x. tu_Id x = tu_Id t0 \<and> tu_Status x = am_ExpectedStatus m) (\<lambda>_. ?f t0) (topups s)"
    using updateWhere_one [OF keys [unfolded keysApart_def] t0(1), of "\<lambda>x. tu_Status x = am_ExpectedStatus m" ?f]
    by (simp_all add: adminPost_def t0 topUpOpen_def expected)
  show ?thesis
  proof (cases "am_TargetStatus m = TopUpStatusSuccess")
    case False
    with post find have "users t = users s" by (simp add: adminPost_def)
    then show ?thesis by (rule topUpPaid_marked [OF keys t0(1) open0 _ rows, rotated]) simp
  next
    case True
    with post find obtain e where e: "posted s e t" "bl_UserID e = tu_UserId t0"
        "bl_Delta e = adminTopUpQuota rates t0"
      by (auto simp: adminPost_def)
    have "?f t0 = completed now t0" using True by (simp add: completed_def)
    then show ?thesis
      by (rule topUpPaid_credited [OF keys t0(1) open0 _ rows])
         (use open0 balanceOf_posted [OF e(1)] e in \<open>auto simp: topUpOpen_def expected creditOf_def\<close>)
  qed
qed

lemma topUpPaid_relabelled:
  assumes "topUpKeys s" "t0 \<in> set (topups s)" "tu_Status t0 = TopUpStatusPending"
  shows "topUpPaid rates s (s\<lparr>topups := updateWhere (\<lambda>x. tu_Id x = tu_Id t0) (\<lambda>_. t0\<lparr>tu_Status := target\<rparr>) (topups s)\<rparr>)"
  by (rule topUpPaid_saved_only [OF assms(1,2), where t' = "t0\<lparr>tu_Status := target\<rparr>"])
     (simp_all add: topUpOpen_def assms(3))

lemma wp_runTopUp: "topUpKeys s \<Longrightarrow> wp (runTopUp rates call) (\<lambda>_. topUpPaid rates s) s"
proof (induction call rule: runTopUp.induct)
  case (1 rates now m)
  note stay = paying_refl [where ok = topUpKeys, OF 1]
  have "paysTx rates s (processAdminTopUpTx rates now m')"
    if "am_ExpectedStatus m' = TopUpStatusPending" for m'
    by (rule wp_mono [OF wp_processAdminTopUpTx]) (auto intro: adminPost_paid [OF 1 _ that] split: sum.splits)
  then have tx: "wp (transaction (processAdminTopUpTx rates now m')) (\<lambda>_. topUpPaid rates s) s"
    if "am_ExpectedStatus m' = TopUpStatusPending" for m'
    using that by (blast intro: wp_transaction_paying 1)
  have "wp (ProcessAdminTopUp rates now m) (\<lambda>_. topUpPaid rates s) s"
    unfolding ProcessAdminTopUp_def Let_def
    by (intro wp_if; (rule wp_then_paying [OF tx])?; use stay in \<open>auto intro!: wp_intro\<close>)
  then show ?case
    unfolding runTopUp.simps by (rule wp_then_paying) simp
next
  case (2 rates tradeNo provider target)
  note stay = paying_refl [where ok = topUpKeys, OF 2]
  show ?case
    unfolding runTopUp.simps UpdatePendingTopUpStatus_def topUpByTradeNo_def saveTopUp_def
    using stay by (auto intro!: wp_intro topUpPaid_relabelled [OF 2])
qed (auto intro!: wp_attempt_paying wp_transaction_paying wp_rechargeStripeTx wp_rechargeCreemTx
      wp_rechargeWaffoTx wp_if paying_refl [where ok = topUpKeys]
      simp: Recharge_def RechargeCreem_def RechargeWaffo_def RechargeWaffoPancake_def split: sum.splits)

interpretation orders: voucher_book "topUpVouchers rates" topUpKeys "\<lambda>_. True" "runTopUp rates"
  by unfold_locales (rule wp_runTopUp)

section \<open>The governed completion and the ledger\<close>

lemma adminPost_ledger:
  "ledger_ok base s \<Longrightarrow> adminPost rates now m s t \<Longrightarrow> ledger_ok base t"
  unfolding adminPost_def
  by (auto split: option.splits if_splits intro: ledger_ok_posted)
     (simp add: ledger_ok_def)

lemma keeps_ledger_admin: "keeps (ledger_ok base) (ProcessAdminTopUp rates now m)"
proof -
  have "keeps (ledger_ok base) (transaction (processAdminTopUpTx rates now m'))" for m'
    by (rule keepsI, rule wp_transactionI [OF wp_processAdminTopUpTx]) (auto intro: adminPost_ledger)
  then show ?thesis
    unfolding ProcessAdminTopUp_def Let_def
    by (intro keeps_if keeps_bindE keeps_fail keeps_ret keeps_attempt keeps_extern keeps_case_sum)
qed

section \<open>Properties\<close>


definition demoRates :: quotaRates where
  "demoRates = \<lparr>qr_Units = (\<lambda>a. a * 500000), qr_Money = (\<lambda>_. 0), qr_AddMoney = (\<lambda>_ q. q)\<rparr>"

definition demoTopUp :: TopUp where
  "demoTopUp =
     \<lparr>tu_Id = 4, tu_UserId = 7, tu_Amount = 3, tu_Money = 0, tu_TradeNo = ''T4'', tu_PaymentMethod = ''creem'',
      tu_PaymentProvider = ''creem'', tu_CreateTime = 1, tu_CompleteTime = 0, tu_Status = ''pending''\<rparr>"

definition demoOrders :: "TopUp \<Rightarrow> store conn" where
  "demoOrders t = \<lparr>db = demoStore\<lparr>topups := [t]\<rparr>, faults = []\<rparr>"

definition demoMutation :: AdminTopUpMutation where
  "demoMutation =
     \<lparr>am_ID = 4, am_OperatorID = 1, am_ExpectedStatus = ''pending'', am_TargetStatus = ''success'',
      am_Reason = ''ok'', am_RequestID = ''r''\<rparr>"

lemma TrimSpace_ok: "TrimSpace ''ok'' = ''ok''"
  by code_simp

lemmas topup_run_defs =
  demoOrders_def demoTopUp_def demoRates_def demoMutation_def demoStore_def demoUser_def balanceOf_def
  store_ops topUpByTradeNo_def saveTopUp_def completed_def addUserQuota_def TrimSpace_ok


text \<open>
  C27. The two completions of one pending Creem order do not agree: such an order stores the
  quota itself in its amount, which the webhook credits as it is, while the administrator's
  completion multiplies it by the quota per unit. The run shows both from the same tables.
\<close>

theorem creem_completions_differ:
  "balanceOf 7 (db (snd (RechargeCreem 5 ''T4'' [] (demoOrders demoTopUp)))) = Some (u_Quota demoUser + 3) \<and>
   balanceOf 7 (db (snd (ProcessAdminTopUp demoRates 5 demoMutation (demoOrders demoTopUp))))
     = Some (u_Quota demoUser + 1500000)"
  by (simp add: topup_run_defs RechargeCreem_def rechargeCreemTx_def creditCreem_def ProcessAdminTopUp_def
      processAdminTopUpTx_def adminTopUpEntry_def adminTopUpQuota_def setTopUpStatus_def
      checkedBalanceLedgerSum_def maxBalanceLedgerQuota_def MaxInt32_def balanceLedgerUserUpdates_def
      applyUserUpdates_def Let_def)

end
