(* ===== verification/Usdt.thy ===== *)
theory Usdt
  imports TopUps "HOL-Library.Multiset"
begin

text \<open>
  Exact-amount USDT top-ups, \<open>server/setting/usdt_topup_setting.go\<close>,
  \<open>server/model/usdt_topup_order.go\<close> and \<open>usdt_topup_watcher.go\<close>: the configuration, the
  amount a payer is told to send, the allocation of a free suffix, the states of an order
  and the watcher's lease.

  A \<open>time.Time\<close> is its Unix nanosecond, a \<open>time.Duration\<close> its nanoseconds. The random
  indices of the shuffle, the generated UUID and the conversion of an amount to \<open>float64\<close>
  are parameters. The test for a missing database and the SQLite mutex are left out.
\<close>

abbreviation USDTTopUpNetworkTronMainnet :: string where "USDTTopUpNetworkTronMainnet \<equiv> ''tron-mainnet''"
abbreviation USDTTopUpAssetUSDT :: string where "USDTTopUpAssetUSDT \<equiv> ''USDT''"
abbreviation USDTTopUpContractAddress :: string where
  "USDTTopUpContractAddress \<equiv> ''TR7NHqjeKQxGTCi8q8ZY4pL8otSzgjLj6t''"
abbreviation USDTTopUpStatusPending :: string where "USDTTopUpStatusPending \<equiv> ''pending''"
abbreviation USDTTopUpStatusConfirming :: string where "USDTTopUpStatusConfirming \<equiv> ''confirming''"
abbreviation USDTTopUpStatusSettled :: string where "USDTTopUpStatusSettled \<equiv> ''settled''"
abbreviation USDTTopUpStatusExpired :: string where "USDTTopUpStatusExpired \<equiv> ''expired''"
abbreviation USDTTopUpStatusManualReview :: string where "USDTTopUpStatusManualReview \<equiv> ''manual_review''"

section \<open>Configuration\<close>

record USDTTopUpConfig =
  uc_Enabled :: bool
  uc_ReceivingAddress :: string
  uc_TronGridAPIKey :: string
  uc_MinTopUp :: int
  uc_OrderTTL :: int
  uc_PollInterval :: int
  uc_SuffixCooldown :: int

definition defaultUSDTTopUpMinUnits :: int where "defaultUSDTTopUpMinUnits = 10"
definition defaultUSDTTopUpOrderTTLSeconds :: int where "defaultUSDTTopUpOrderTTLSeconds = 600"
definition defaultUSDTPollIntervalSeconds :: int where "defaultUSDTPollIntervalSeconds = 5"
definition defaultUSDTSuffixCooldownSeconds :: int where "defaultUSDTSuffixCooldownSeconds = 86400"

lemmas usdt_defaults =
  defaultUSDTTopUpMinUnits_def defaultUSDTTopUpOrderTTLSeconds_def
  defaultUSDTPollIntervalSeconds_def defaultUSDTSuffixCooldownSeconds_def

text \<open>\<open>strconv.ParseBool\<close>; \<open>ParseInt64\<close> of the prelude is \<open>strconv.ParseInt(s, 10, 64)\<close>.\<close>

definition ParseBool :: "string \<Rightarrow> bool option" where
  "ParseBool s =
     (if s \<in> {''1'', ''t'', ''T'', ''TRUE'', ''true'', ''True''} then Some True
      else if s \<in> {''0'', ''f'', ''F'', ''FALSE'', ''false'', ''False''} then Some False
      else None)"

definition parseUSDTBool :: "(string \<Rightarrow> string) \<Rightarrow> string \<Rightarrow> bool \<Rightarrow> err + bool" where
  "parseUSDTBool env name fallback =
     (let v = TrimSpace (env name) in
      if v = [] then Inr fallback
      else case ParseBool v of None \<Rightarrow> Inl (ErrMsg (name @ '' must be a boolean'')) | Some b \<Rightarrow> Inr b)"

definition parseUSDTInt64 :: "(string \<Rightarrow> string) \<Rightarrow> string \<Rightarrow> int \<Rightarrow> err + int" where
  "parseUSDTInt64 env name fallback =
     (let v = TrimSpace (env name) in
      if v = [] then Inr fallback
      else case ParseInt64 v of None \<Rightarrow> Inl (ErrMsg (name @ '' must be an integer'')) | Some i \<Rightarrow> Inr i)"

text \<open>\<open>time.Duration(n) * time.Second\<close>: a product of \<open>int64\<close>, which wraps.\<close>

definition durationSeconds :: "int \<Rightarrow> int" where
  "durationSeconds n = sint (word_of_int n * word_of_int second :: int64)"

definition checkUSDTTopUpConfig :: "USDTTopUpConfig \<Rightarrow> err + USDTTopUpConfig" where
  "checkUSDTTopUpConfig config =
     (if uc_MinTopUp config < defaultUSDTTopUpMinUnits
      then Inl (ErrMsg (''USDT minimum topup must be at least '' @ showInt defaultUSDTTopUpMinUnits))
      else if uc_OrderTTL config \<le> 0 then Inl (ErrMsg ''USDT order TTL must be positive'')
      else if uc_PollInterval config \<le> 0 \<or> uc_PollInterval config > uc_OrderTTL config
      then Inl (ErrMsg ''USDT poll interval must be positive and no longer than the order TTL'')
      else if uc_SuffixCooldown config < uc_OrderTTL config
      then Inl (ErrMsg ''USDT suffix cooldown must be at least the order TTL'')
      else if \<not> uc_Enabled config then Inr config
      else if uc_ReceivingAddress config = []
      then Inl (ErrMsg ''USDT receiving address is required when topup is enabled'')
      else if uc_TronGridAPIKey config = []
      then Inl (ErrMsg ''TronGrid API key is required when USDT topup is enabled'')
      else Inr config)"

definition LoadUSDTTopUpConfig :: "(string \<Rightarrow> string) \<Rightarrow> err + USDTTopUpConfig" where
  "LoadUSDTTopUpConfig env =
     (case parseUSDTBool env ''USDT_TRC20_TOPUP_ENABLED'' False of Inl e \<Rightarrow> Inl e | Inr enabled \<Rightarrow>
      case parseUSDTInt64 env ''USDT_TRC20_MIN_TOPUP'' defaultUSDTTopUpMinUnits of Inl e \<Rightarrow> Inl e | Inr minTopUp \<Rightarrow>
      case parseUSDTInt64 env ''USDT_TRC20_ORDER_TTL_SECONDS'' defaultUSDTTopUpOrderTTLSeconds of
        Inl e \<Rightarrow> Inl e | Inr ttlSeconds \<Rightarrow>
      case parseUSDTInt64 env ''USDT_TRC20_POLL_INTERVAL_SECONDS'' defaultUSDTPollIntervalSeconds of
        Inl e \<Rightarrow> Inl e | Inr pollSeconds \<Rightarrow>
      case parseUSDTInt64 env ''USDT_TRC20_SUFFIX_COOLDOWN_SECONDS'' defaultUSDTSuffixCooldownSeconds of
        Inl e \<Rightarrow> Inl e | Inr cooldownSeconds \<Rightarrow>
      checkUSDTTopUpConfig
        \<lparr>uc_Enabled = enabled, uc_ReceivingAddress = TrimSpace (env ''USDT_TRC20_RECEIVING_ADDRESS''),
         uc_TronGridAPIKey = TrimSpace (env ''TRONGRID_API_KEY''), uc_MinTopUp = minTopUp,
         uc_OrderTTL = durationSeconds ttlSeconds, uc_PollInterval = durationSeconds pollSeconds,
         uc_SuffixCooldown = durationSeconds cooldownSeconds\<rparr>)"

section \<open>The exact amount\<close>

definition ValidateExactPayAmount :: "USDTTopUpOrder \<Rightarrow> int \<Rightarrow> err + int" where
  "ValidateExactPayAmount order minTopUp =
     (if minTopUp \<le> 0 \<or> uo_CreditUnits order < minTopUp \<or> uo_SuffixCents order < 1 \<or> uo_SuffixCents order > 99
      then Inl ErrUSDTTopUpInvalidAmount
      else let suffixMicros = uo_SuffixCents order * 10000 in
      if uo_CreditUnits order > goDiv (MaxInt64 - suffixMicros) 1000000 then Inl ErrUSDTTopUpInvalidAmount
      else Inr (uo_CreditUnits order * 1000000 + suffixMicros))"

text \<open>The same method on \<open>int64\<close>, where every operation wraps.\<close>

definition ValidateExactPayAmount64 :: "int64 \<Rightarrow> int64 \<Rightarrow> int64 \<Rightarrow> err + int64" where
  "ValidateExactPayAmount64 units suffix minTopUp =
     (if sint minTopUp \<le> 0 \<or> sint units < sint minTopUp \<or> sint suffix < 1 \<or> sint suffix > 99
      then Inl ErrUSDTTopUpInvalidAmount
      else let suffixMicros = suffix * 10000 in
      if sint units > goDiv (sint (9223372036854775807 - suffixMicros :: int64)) 1000000
      then Inl ErrUSDTTopUpInvalidAmount
      else Inr (units * 1000000 + suffixMicros))"

definition ExactPayAmountMicros :: "USDTTopUpOrder \<Rightarrow> int" where
  "ExactPayAmountMicros order =
     (case ValidateExactPayAmount order 1 of Inl _ \<Rightarrow> 0 | Inr amount \<Rightarrow> amount)"

definition twoDigits :: "int \<Rightarrow> string" where
  "twoDigits i = (if 0 \<le> i \<and> i < 10 then ''0'' @ showInt i else showInt i)"

definition ExactPayAmountString :: "USDTTopUpOrder \<Rightarrow> string" where
  "ExactPayAmountString order =
     (if ExactPayAmountMicros order = 0 then []
      else showInt (uo_CreditUnits order) @ ''.'' @ twoDigits (uo_SuffixCents order))"

section \<open>The suffix\<close>

text \<open>
  The Fisher-Yates shuffle of 1 to 99: \<open>draw n\<close> is what \<open>rand.Int\<close> gives below \<open>n\<close>, or an
  error. The counter runs from the last index down to 1.
\<close>

fun shuffleFrom :: "(nat \<Rightarrow> nat option) \<Rightarrow> nat \<Rightarrow> int list \<Rightarrow> err + int list" where
  "shuffleFrom draw 0 xs = Inr xs"
| "shuffleFrom draw (Suc i) xs =
     (case draw (Suc i + 1) of
        None \<Rightarrow> Inl ErrRandom
      | Some j \<Rightarrow> shuffleFrom draw i (xs[Suc i := xs ! j, j := xs ! Suc i]))"

definition shuffledUSDTSuffixes :: "(nat \<Rightarrow> nat option) \<Rightarrow> err + int list" where
  "shuffledUSDTSuffixes draw = shuffleFrom draw 98 [1..99]"

definition usedSuffixes :: "USDTTopUpOrder list \<Rightarrow> int set" where
  "usedSuffixes reserved = {x \<in> uo_SuffixCents ` set reserved. 1 \<le> x \<and> x \<le> 99}"

definition selectSuffix :: "int set \<Rightarrow> int list \<Rightarrow> int" where
  "selectSuffix used suffixes =
     (case List.find (\<lambda>x. x \<notin> used) suffixes of None \<Rightarrow> 0 | Some x \<Rightarrow> x)"

section \<open>Creating an order\<close>

definition validateUSDTTopUpOrderInput :: "int \<Rightarrow> int \<Rightarrow> USDTTopUpConfig \<Rightarrow> err option" where
  "validateUSDTTopUpOrderInput userID creditUnits config =
     (if \<not> uc_Enabled config then Some ErrUSDTTopUpDisabled
      else if userID \<le> 0 \<or> creditUnits < uc_MinTopUp config \<or> uc_MinTopUp config < 10
      then Some ErrUSDTTopUpInvalidAmount
      else if TrimSpace (uc_ReceivingAddress config) = [] \<or> TrimSpace (uc_TronGridAPIKey config) = [] \<or>
              uc_OrderTTL config \<le> 0 \<or> uc_SuffixCooldown config < uc_OrderTTL config
      then Some (ErrMsg ''incomplete USDT topup configuration'')
      else None)"

definition lockUSDTTopUpAmount :: "int \<Rightarrow> int \<Rightarrow> (store, unit) act" where
  "lockUSDTTopUpAmount creditUnits nowUnix =
     bindE (exec (\<lambda>s. if creditUnits \<in> ul_CreditUnits ` set (usdtLocks s) then s
       else s\<lparr>usdtLocks := usdtLocks s @ [\<lparr>ul_CreditUnits = creditUnits, ul_UpdatedAt = nowUnix\<rparr>]\<rparr>)) (\<lambda>_.
     bindE (firstRow usdtLocks (\<lambda>l. ul_CreditUnits l = creditUnits)) (\<lambda>_. ret ()))"

definition createUSDTOrder :: "USDTTopUpOrder \<Rightarrow> (store, USDTTopUpOrder) act" where
  "createUSDTOrder order = stmt (\<lambda>s.
     if uo_TopUpID order \<in> uo_TopUpID ` set (usdtOrders s) \<or>
        uo_TradeNo order \<in> uo_TradeNo ` set (usdtOrders s) then Inl ErrDuplicatedKey
     else let order' = order\<lparr>uo_ID := freshId uo_ID (usdtOrders s)\<rparr>
          in Inr (order', s\<lparr>usdtOrders := usdtOrders s @ [order']\<rparr>))"

definition newUSDTOrder ::
  "int \<Rightarrow> int \<Rightarrow> string \<Rightarrow> int \<Rightarrow> int \<Rightarrow> USDTTopUpConfig \<Rightarrow> USDTTopUpOrder" where
  "newUSDTOrder userID creditUnits tradeNo selected now config =
     \<lparr>uo_ID = 0, uo_TopUpID = 0, uo_UserID = userID, uo_TradeNo = tradeNo,
      uo_Network = USDTTopUpNetworkTronMainnet, uo_Asset = USDTTopUpAssetUSDT,
      uo_ContractAddress = USDTTopUpContractAddress,
      uo_ReceivingAddress = TrimSpace (uc_ReceivingAddress config), uo_CreditUnits = creditUnits,
      uo_PayAmountMicros = 0, uo_SuffixCents = selected, uo_Status = USDTTopUpStatusPending,
      uo_ExpiresAt = unixOf (now + uc_OrderTTL config),
      uo_CooldownUntil = unixOf (now + uc_SuffixCooldown config),
      uo_TxID = None, uo_TxFrom = None, uo_BlockTimestampMS = None, uo_SettledAt = None,
      uo_ReviewReason = [], uo_CreatedAt = unixOf now, uo_UpdatedAt = unixOf now\<rparr>"

text \<open>The end of the transaction: the amount, the top-up row and the order itself.\<close>

definition insertUSDTOrder ::
  "(int \<Rightarrow> float64) \<Rightarrow> int \<Rightarrow> USDTTopUpConfig \<Rightarrow> USDTTopUpOrder \<Rightarrow> (store, USDTTopUpOrder) act" where
  "insertUSDTOrder moneyOf nowUnix config order =
     (case ValidateExactPayAmount order (uc_MinTopUp config) of
        Inl err \<Rightarrow> fail err
      | Inr payAmountMicros \<Rightarrow>
          bindE (createTopUp
            \<lparr>tu_Id = 0, tu_UserId = uo_UserID order, tu_Amount = uo_CreditUnits order,
             tu_Money = moneyOf payAmountMicros, tu_TradeNo = uo_TradeNo order,
             tu_PaymentMethod = PaymentMethodUSDTTRC20, tu_PaymentProvider = PaymentProviderUSDTTRC20,
             tu_CreateTime = nowUnix, tu_CompleteTime = 0, tu_Status = TopUpStatusPending\<rparr>) (\<lambda>topUp.
          createUSDTOrder (order\<lparr>uo_PayAmountMicros := payAmountMicros, uo_TopUpID := tu_Id topUp\<rparr>)))"

definition createUSDTOrderTx ::
  "(int \<Rightarrow> float64) \<Rightarrow> (nat \<Rightarrow> nat option) \<Rightarrow> string \<Rightarrow> int \<Rightarrow> int \<Rightarrow> int \<Rightarrow> USDTTopUpConfig \<Rightarrow>
   (store, USDTTopUpOrder) act" where
  "createUSDTOrderTx moneyOf draw uuid userID creditUnits now config =
     bindE (lockUSDTTopUpAmount creditUnits (unixOf now)) (\<lambda>_.
     bindE (query (\<lambda>s. Inr (filter (\<lambda>x. uo_CreditUnits x = creditUnits \<and> uo_CooldownUntil x > unixOf now)
       (usdtOrders s)))) (\<lambda>reserved.
     case shuffledUSDTSuffixes draw of
       Inl err \<Rightarrow> fail err
     | Inr suffixes \<Rightarrow>
         let selected = selectSuffix (usedSuffixes reserved) suffixes in
         if selected = 0 then fail ErrUSDTTopUpCapacity
         else insertUSDTOrder moneyOf (unixOf now) config
           (newUSDTOrder userID creditUnits (''USDT'' @ showInt userID @ uuid) selected now config)))"

definition CreateUSDTTopUpOrder ::
  "(int \<Rightarrow> float64) \<Rightarrow> (nat \<Rightarrow> nat option) \<Rightarrow> string \<Rightarrow> int \<Rightarrow> int \<Rightarrow> int \<Rightarrow> USDTTopUpConfig \<Rightarrow>
   (store, USDTTopUpOrder) act" where
  "CreateUSDTTopUpOrder moneyOf draw uuid userID creditUnits now config =
     (case validateUSDTTopUpOrderInput userID creditUnits config of
        Some err \<Rightarrow> fail err
      | None \<Rightarrow> transaction (createUSDTOrderTx moneyOf draw uuid userID creditUnits now config))"

section \<open>Looking up, cancelling and expiring orders\<close>

definition userUSDTOrder :: "int \<Rightarrow> string \<Rightarrow> (store, USDTTopUpOrder) act" where
  "userUSDTOrder userID tradeNo =
     bindE (attempt (firstRow usdtOrders (\<lambda>x. uo_UserID x = userID \<and> uo_TradeNo x = TrimSpace tradeNo))) (\<lambda>found.
       case found of
         Inl err \<Rightarrow> fail (if err = ErrRecordNotFound then ErrUSDTTopUpNotFound else err)
       | Inr order \<Rightarrow> ret order)"

definition GetUserUSDTTopUpOrder :: "int \<Rightarrow> string \<Rightarrow> (store, USDTTopUpOrder) act" where
  "GetUserUSDTTopUpOrder userID tradeNo =
     (if userID \<le> 0 \<or> TrimSpace tradeNo = [] then fail ErrUSDTTopUpNotFound
      else userUSDTOrder userID tradeNo)"

definition updateUSDTOrders ::
  "(USDTTopUpOrder \<Rightarrow> bool) \<Rightarrow> (USDTTopUpOrder \<Rightarrow> USDTTopUpOrder) \<Rightarrow> (store, nat) act" where
  "updateUSDTOrders P f = updateRows usdtOrders usdtOrders_update P f"

definition withStatus :: "string \<Rightarrow> int \<Rightarrow> USDTTopUpOrder \<Rightarrow> USDTTopUpOrder" where
  "withStatus status nowUnix order = order\<lparr>uo_Status := status, uo_UpdatedAt := nowUnix\<rparr>"

definition expireTopUps :: "int set \<Rightarrow> (store, nat) act" where
  "expireTopUps ids =
     updateRows topups topups_update (\<lambda>t. tu_Id t \<in> ids \<and> tu_Status t = TopUpStatusPending)
       (\<lambda>t. t\<lparr>tu_Status := TopUpStatusExpired\<rparr>)"

definition cancelTx :: "int \<Rightarrow> string \<Rightarrow> int \<Rightarrow> (store, USDTTopUpOrder) act" where
  "cancelTx userID tradeNo updatedAt =
     bindE (userUSDTOrder userID tradeNo) (\<lambda>order.
       if uo_Status order \<noteq> USDTTopUpStatusPending then fail ErrUSDTTopUpStateConflict
       else bindE (updateUSDTOrders (\<lambda>x. uo_ID x = uo_ID order \<and> uo_Status x = USDTTopUpStatusPending)
           (withStatus USDTTopUpStatusExpired updatedAt)) (\<lambda>rows.
         if rows \<noteq> 1 then fail ErrUSDTTopUpStateConflict
         else bindE (expireTopUps {uo_TopUpID order}) (\<lambda>rows.
           if rows \<noteq> 1 then fail ErrUSDTTopUpStateConflict
           else ret (withStatus USDTTopUpStatusExpired updatedAt order))))"

definition CancelUSDTTopUpOrder :: "int \<Rightarrow> string \<Rightarrow> int \<Rightarrow> (store, USDTTopUpOrder) act" where
  "CancelUSDTTopUpOrder userID tradeNo now =
     (if userID \<le> 0 \<or> TrimSpace tradeNo = [] then fail ErrUSDTTopUpNotFound
      else transaction (cancelTx userID tradeNo (unixOf now)))"

definition usdtOpen :: "USDTTopUpOrder \<Rightarrow> bool" where
  "usdtOpen order \<longleftrightarrow> uo_Status order \<in> {USDTTopUpStatusPending, USDTTopUpStatusConfirming}"

text \<open>The two halves of the sweep; each reports the rows it changed.\<close>

definition expireOrders :: "USDTTopUpOrder list \<Rightarrow> int \<Rightarrow> (store, int) act" where
  "expireOrders expired nowUnix =
     (if expired = [] then ret 0
      else bindE (updateUSDTOrders (\<lambda>x. uo_ID x \<in> uo_ID ` set expired \<and> usdtOpen x)
          (withStatus USDTTopUpStatusExpired nowUnix)) (\<lambda>rows.
        if rows \<noteq> length expired then fail ErrUSDTTopUpStateConflict
        else bindE (expireTopUps (uo_TopUpID ` set expired)) (\<lambda>_. ret (int rows))))"

definition confirmOrders :: "USDTTopUpOrder list \<Rightarrow> int \<Rightarrow> (store, int) act" where
  "confirmOrders confirming nowUnix =
     (if confirming = [] then ret 0
      else bindE (updateUSDTOrders
          (\<lambda>x. uo_ID x \<in> uo_ID ` set confirming \<and> uo_Status x = USDTTopUpStatusPending)
          (withStatus USDTTopUpStatusConfirming nowUnix)) (\<lambda>rows.
        if rows \<noteq> length confirming then fail ErrUSDTTopUpStateConflict else ret (int rows)))"

definition advanceTx :: "int \<Rightarrow> int \<Rightarrow> (store, int \<times> int) act" where
  "advanceTx nowUnix finalExpiryCutoff =
     bindE (query (\<lambda>s. Inr (filter (\<lambda>x. usdtOpen x \<and> uo_ExpiresAt x \<le> nowUnix) (usdtOrders s)))) (\<lambda>orders.
     bindE (expireOrders (filter (\<lambda>x. uo_ExpiresAt x \<le> finalExpiryCutoff) orders) nowUnix) (\<lambda>expired.
     bindE (confirmOrders (filter (\<lambda>x. \<not> uo_ExpiresAt x \<le> finalExpiryCutoff \<and>
         uo_Status x = USDTTopUpStatusPending) orders) nowUnix) (\<lambda>confirming.
     ret (confirming, expired))))"

definition AdvanceUSDTTopUpExpiryStates :: "int \<Rightarrow> int \<Rightarrow> (store, int \<times> int) act" where
  "AdvanceUSDTTopUpExpiryStates now confirmationGrace =
     (if confirmationGrace \<le> 0 then fail (ErrMsg ''USDT confirmation grace must be positive'')
      else transaction (advanceTx (unixOf now) (unixOf (now - confirmationGrace))))"

definition ExpireUSDTTopUpOrders :: "int \<Rightarrow> (store, int) act" where
  "ExpireUSDTTopUpOrders now =
     transaction (
       bindE (query (\<lambda>s. Inr (filter (\<lambda>x. uo_Status x = USDTTopUpStatusPending \<and>
         uo_ExpiresAt x \<le> unixOf now) (usdtOrders s)))) (\<lambda>orders.
       if orders = [] then ret 0
       else bindE (updateUSDTOrders (\<lambda>x. uo_ID x \<in> uo_ID ` set orders \<and> uo_Status x = USDTTopUpStatusPending)
           (withStatus USDTTopUpStatusExpired (unixOf now))) (\<lambda>expired.
         if expired = 0 then ret 0
         else bindE (expireTopUps (uo_TopUpID ` set orders)) (\<lambda>_. ret (int expired)))))"

definition CountPendingUSDTTopUpOrders :: "int \<Rightarrow> (store, int) act" where
  "CountPendingUSDTTopUpOrders now =
     query (\<lambda>s. Inr (int (countWhere (\<lambda>x. uo_Status x = USDTTopUpStatusPending \<and>
       uo_ExpiresAt x > unixOf now) (usdtOrders s))))"

section \<open>The watcher\<close>

definition ListReconcilableUSDTTopUpOrders :: "int \<Rightarrow> (store, USDTTopUpOrder list) act" where
  "ListReconcilableUSDTTopUpOrders cutoff =
     query (\<lambda>s. Inr (sort_key uo_CreatedAt (sort_key uo_ID
       (filter (\<lambda>x. usdtOpen x \<and> uo_ExpiresAt x > unixOf cutoff) (usdtOrders s)))))"

definition acquireLeaseTx :: "string \<Rightarrow> string \<Rightarrow> int \<Rightarrow> int \<Rightarrow> (store, bool) act" where
  "acquireLeaseTx name holderID now ttl =
     bindE (exec (\<lambda>s. if name \<in> wl_Name ` set (usdtLeases s) then s
       else s\<lparr>usdtLeases := usdtLeases s @ [\<lparr>wl_Name = name, wl_HolderID = holderID,
         wl_ExpiresAt = unixOf now, wl_UpdatedAt = unixOf now\<rparr>]\<rparr>)) (\<lambda>_.
     bindE (firstRow usdtLeases (\<lambda>l. wl_Name l = name)) (\<lambda>lease.
       if wl_HolderID lease \<noteq> holderID \<and> wl_ExpiresAt lease > unixOf now then ret False
       else bindE (updateRows usdtLeases usdtLeases_update (\<lambda>l. wl_Name l = name)
           (\<lambda>l. l\<lparr>wl_HolderID := holderID, wl_ExpiresAt := unixOf (now + ttl), wl_UpdatedAt := unixOf now\<rparr>)) (\<lambda>rows.
         ret (rows = 1))))"

definition AcquireUSDTWatcherLease :: "string \<Rightarrow> string \<Rightarrow> int \<Rightarrow> int \<Rightarrow> (store, bool) act" where
  "AcquireUSDTWatcherLease name0 holderID0 now ttl =
     (let name = TrimSpace name0; holderID = TrimSpace holderID0 in
      if name = [] \<or> holderID = [] \<or> ttl \<le> 0 then fail (ErrMsg ''invalid USDT watcher lease'')
      else transaction (acquireLeaseTx name holderID now ttl))"

end
