(* ===== verification/UsdtOrders.thy ===== *)
theory UsdtOrders
  imports Usdt
begin

text \<open>
  What the USDT orders guarantee: the amount fits \<open>int64\<close> and tells units and suffix, the
  shuffle is a permutation, the table stays well formed with disjoint reservations of an
  amount, an unpaid order ends as expired, and the watcher's lease has one holder.
\<close>

section \<open>Amounts\<close>

lemma sint64_mult:
  "- (2 ^ 63) \<le> sint a * sint b \<Longrightarrow> sint a * sint b < 2 ^ 63 \<Longrightarrow> sint (a * b) = sint a * sint (b :: int64)"
  by (simp add: sint_word_ariths signed_take_bit_int_eq_self)

lemma ValidateExactPayAmount_Inr:
  assumes "ValidateExactPayAmount order m = Inr a"
  shows "a = uo_CreditUnits order * 1000000 + uo_SuffixCents order * 10000" "a \<le> MaxInt64"
    "0 < uo_CreditUnits order" "m \<le> uo_CreditUnits order" "1 \<le> uo_SuffixCents order" "uo_SuffixCents order \<le> 99"
proof -
  from assms have bounds: "0 < m" "m \<le> uo_CreditUnits order" "1 \<le> uo_SuffixCents order" "uo_SuffixCents order \<le> 99"
    and le: "uo_CreditUnits order \<le> goDiv (MaxInt64 - uo_SuffixCents order * 10000) 1000000"
    and a: "a = uo_CreditUnits order * 1000000 + uo_SuffixCents order * 10000"
    by (auto simp: ValidateExactPayAmount_def Let_def split: if_splits)
  have "goDiv (MaxInt64 - uo_SuffixCents order * 10000) 1000000 = (MaxInt64 - uo_SuffixCents order * 10000) div 1000000"
    using bounds by (intro goDiv_nonneg) (simp_all add: MaxInt64_def)
  with le have "uo_CreditUnits order * 1000000 \<le> MaxInt64 - uo_SuffixCents order * 10000"
    using mult_div_mod_eq [of 1000000 "MaxInt64 - uo_SuffixCents order * 10000"]
      pos_mod_sign [of 1000000 "MaxInt64 - uo_SuffixCents order * 10000"] by linarith
  with a bounds show "a = uo_CreditUnits order * 1000000 + uo_SuffixCents order * 10000" "a \<le> MaxInt64"
    "0 < uo_CreditUnits order" "m \<le> uo_CreditUnits order" "1 \<le> uo_SuffixCents order" "uo_SuffixCents order \<le> 99"
    by simp_all
qed

lemma exact_amount_inject:
  fixes u v :: int
  assumes "u * 1000000 + i * 10000 = v * 1000000 + j * 10000" "0 \<le> i" "i < 100" "0 \<le> j" "j < 100"
  shows "u = v \<and> i = j"
proof -
  have "u * 100 + i = v * 100 + j" using assms(1) by simp
  then have "(u * 100 + i) div 100 = (v * 100 + j) div 100" "(u * 100 + i) mod 100 = (v * 100 + j) mod 100"
    by simp_all
  with assms show ?thesis by simp
qed

section \<open>The shuffle\<close>

lemma shuffleFrom_mset:
  assumes "\<And>n j. draw n = Some j \<Longrightarrow> j < n"
  shows "i < length xs \<Longrightarrow> shuffleFrom draw i xs = Inr ys \<Longrightarrow> mset ys = mset xs"
proof (induction i arbitrary: xs)
  case (Suc i)
  from Suc.prems(2) obtain j where j: "draw (Suc i + 1) = Some j"
    and rest: "shuffleFrom draw i (xs[Suc i := xs ! j, j := xs ! Suc i]) = Inr ys"
    by (auto split: option.splits)
  have "j < length xs" using assms [OF j] Suc.prems(1) by simp
  then have "mset (xs[Suc i := xs ! j, j := xs ! Suc i]) = mset xs"
    using Suc.prems(1) by (intro mset_swap) simp_all
  with Suc.IH [OF _ rest] Suc.prems(1) show ?case by simp
qed simp

lemma shuffled_suffixes:
  assumes "\<And>n j. draw n = Some j \<Longrightarrow> j < n" "shuffledUSDTSuffixes draw = Inr ys"
  shows "mset ys = mset [1..99]" "set ys = {1..99}"
proof -
  show m: "mset ys = mset [1..99]"
    using assms(2) unfolding shuffledUSDTSuffixes_def
    by (rule shuffleFrom_mset [OF assms(1), rotated 2]) simp_all
  from arg_cong [OF m, of set_mset] show "set ys = {1..99}" by simp
qed

lemma selectSuffix_cases:
  assumes "selectSuffix used suffixes = x" "x \<noteq> 0"
  shows "x \<in> set suffixes" "x \<notin> used"
  using assms by (auto simp: selectSuffix_def find_Some_iff split: option.splits)

section \<open>The table of orders\<close>

definition usdtRow :: "USDTTopUpOrder \<Rightarrow> bool" where
  "usdtRow x \<longleftrightarrow>
     uo_Status x \<in> {USDTTopUpStatusPending, USDTTopUpStatusConfirming, USDTTopUpStatusSettled,
                   USDTTopUpStatusExpired, USDTTopUpStatusManualReview} \<and>
     0 < uo_CreditUnits x \<and> 1 \<le> uo_SuffixCents x \<and> uo_SuffixCents x \<le> 99 \<and>
     uo_PayAmountMicros x = uo_CreditUnits x * 1000000 + uo_SuffixCents x * 10000 \<and>
     uo_PayAmountMicros x \<le> MaxInt64 \<and>
     uo_CreatedAt x \<le> uo_ExpiresAt x \<and> uo_ExpiresAt x \<le> uo_CooldownUntil x \<and>
     (uo_Status x = USDTTopUpStatusSettled \<longleftrightarrow> uo_TxID x \<noteq> None)"

text \<open>An earlier order has given its amount up before a later one with the same amount is made.\<close>

definition usdtApart :: "USDTTopUpOrder \<Rightarrow> USDTTopUpOrder \<Rightarrow> bool" where
  "usdtApart x y \<longleftrightarrow>
     (uo_CreditUnits x = uo_CreditUnits y \<and> uo_SuffixCents x = uo_SuffixCents y \<longrightarrow>
      uo_CooldownUntil x \<le> uo_CreatedAt y)"

definition txIDs :: "USDTTopUpOrder list \<Rightarrow> string list" where
  "txIDs rows = concat (map (\<lambda>x. case uo_TxID x of None \<Rightarrow> [] | Some t \<Rightarrow> [t]) rows)"

definition usdtOk :: "store \<Rightarrow> bool" where
  "usdtOk s \<longleftrightarrow>
     (\<forall>x \<in> set (usdtOrders s). usdtRow x) \<and> sorted_wrt usdtApart (usdtOrders s) \<and>
     distinct (map uo_ID (usdtOrders s)) \<and> distinct (map uo_TopUpID (usdtOrders s)) \<and>
     distinct (map uo_TradeNo (usdtOrders s)) \<and> distinct (txIDs (usdtOrders s))"

text \<open>Updates that leave what identifies an order and its reservation alone.\<close>

definition sameOrder :: "USDTTopUpOrder \<Rightarrow> USDTTopUpOrder \<Rightarrow> bool" where
  "sameOrder x y \<longleftrightarrow>
     uo_ID y = uo_ID x \<and> uo_TopUpID y = uo_TopUpID x \<and> uo_TradeNo y = uo_TradeNo x \<and>
     uo_CreditUnits y = uo_CreditUnits x \<and> uo_SuffixCents y = uo_SuffixCents x \<and>
     uo_CooldownUntil y = uo_CooldownUntil x \<and> uo_CreatedAt y = uo_CreatedAt x"

lemma sameOrder_refl [simp]: "sameOrder x x"
  by (simp add: sameOrder_def)

lemma sameOrder_maps:
  assumes "list_all2 sameOrder xs ys"
  shows "map uo_ID ys = map uo_ID xs" "map uo_TopUpID ys = map uo_TopUpID xs"
    "map uo_TradeNo ys = map uo_TradeNo xs" "sorted_wrt usdtApart ys = sorted_wrt usdtApart xs"
proof -
  have "map uo_ID ys = map uo_ID xs \<and> map uo_TopUpID ys = map uo_TopUpID xs \<and>
      map uo_TradeNo ys = map uo_TradeNo xs \<and>
      (\<forall>x. (\<forall>y \<in> set ys. usdtApart x y) = (\<forall>y \<in> set xs. usdtApart x y)) \<and>
      sorted_wrt usdtApart ys = sorted_wrt usdtApart xs"
    using assms
  proof (induction rule: list_all2_induct)
    case (Cons x xs y ys)
    then have "usdtApart z y = usdtApart z x" "usdtApart y z = usdtApart x z" for z
      by (simp_all add: usdtApart_def sameOrder_def)
    with Cons show ?case by (auto simp: sameOrder_def)
  qed simp
  then show "map uo_ID ys = map uo_ID xs" "map uo_TopUpID ys = map uo_TopUpID xs"
    "map uo_TradeNo ys = map uo_TradeNo xs" "sorted_wrt usdtApart ys = sorted_wrt usdtApart xs" by auto
qed

lemma usdtOk_same:
  assumes "usdtOk s" "list_all2 sameOrder (usdtOrders s) (usdtOrders t)"
    "\<And>x. x \<in> set (usdtOrders t) \<Longrightarrow> usdtRow x" "distinct (txIDs (usdtOrders t))"
  shows "usdtOk t"
  using assms sameOrder_maps [OF assms(2)] by (simp add: usdtOk_def)

lemma txIDs_relabelled:
  "(\<And>x. uo_TxID (f x) = uo_TxID x) \<Longrightarrow> txIDs (updateWhere P f rows) = txIDs rows"
  by (simp add: txIDs_def updateWhere_def comp_def if_distrib cong: if_cong)

lemma usdtOk_relabelled:
  assumes ok: "usdtOk s"
    and t: "usdtOrders t = updateWhere P (withStatus status now) (usdtOrders s)"
    and P: "\<And>x. P x \<Longrightarrow> usdtOpen x" and status: "status \<in> {USDTTopUpStatusConfirming, USDTTopUpStatusExpired}"
  shows "usdtOk t"
proof (rule usdtOk_same [OF ok])
  show "list_all2 sameOrder (usdtOrders s) (usdtOrders t)"
    unfolding t by (rule list_all2_updateWhere) (simp_all add: sameOrder_def withStatus_def)
  show "usdtRow x" if x: "x \<in> set (usdtOrders t)" for x
  proof -
    obtain w where "w \<in> set (usdtOrders s)" "x = (if P w then withStatus status now w else w)"
      using x unfolding t by (rule in_updateWhereE)
    moreover from this ok have "usdtRow w" by (simp add: usdtOk_def)
    ultimately show ?thesis
      using P [of w] status by (auto simp: usdtRow_def withStatus_def usdtOpen_def)
  qed
  show "distinct (txIDs (usdtOrders t))"
    using ok unfolding t by (subst txIDs_relabelled) (simp_all add: withStatus_def usdtOk_def)
qed

lemma usdtOk_frame: "usdtOk s \<Longrightarrow> usdtOrders t = usdtOrders s \<Longrightarrow> usdtOk t"
  by (simp add: usdtOk_def)

lemma usdtOk_other_tables [simp]:
  "usdtOk (s\<lparr>topups := ts\<rparr>) = usdtOk s" "usdtOk (s\<lparr>usdtLocks := ls\<rparr>) = usdtOk s"
  "usdtOk (s\<lparr>users := us\<rparr>) = usdtOk s" "usdtOk (s\<lparr>ledgers := es\<rparr>) = usdtOk s"
  by (simp_all add: usdtOk_def)

lemma usdtOk_created:
  assumes ok: "usdtOk s" and row: "usdtRow x" "uo_TxID x = None"
    and new: "uo_TopUpID x \<notin> uo_TopUpID ` set (usdtOrders s)" "uo_TradeNo x \<notin> uo_TradeNo ` set (usdtOrders s)"
    and apart: "\<And>y. y \<in> set (usdtOrders s) \<Longrightarrow> usdtApart y x"
    and t: "usdtOrders t = usdtOrders s @ [x\<lparr>uo_ID := freshId uo_ID (usdtOrders s)\<rparr>]"
  shows "usdtOk t"
proof -
  let ?x = "x\<lparr>uo_ID := freshId uo_ID (usdtOrders s)\<rparr>"
  have "usdtRow ?x" using row by (auto simp: usdtRow_def)
  moreover have "usdtApart y ?x" if "y \<in> set (usdtOrders s)" for y
    using apart [OF that] by (simp add: usdtApart_def)
  moreover have "txIDs (usdtOrders t) = txIDs (usdtOrders s)"
    by (simp add: t txIDs_def row(2))
  ultimately show ?thesis
    using ok new by (auto simp: usdtOk_def t sorted_wrt_append)
qed

section \<open>Every operation keeps the table well formed\<close>

lemma keeps_usdt_topups:
  "keeps usdtOk (createTopUp t)" "keeps usdtOk (expireTopUps ids)" "keeps usdtOk (lockUSDTTopUpAmount u n)"
  unfolding createTopUp_def expireTopUps_def lockUSDTTopUpAmount_def
  by (auto intro!: keepsI wp_intro simp: Let_def)

lemma keeps_usdt_relabel:
  assumes "\<And>x. P x \<Longrightarrow> usdtOpen x" "status \<in> {USDTTopUpStatusConfirming, USDTTopUpStatusExpired}"
  shows "keeps usdtOk (updateUSDTOrders P (withStatus status now))"
  unfolding updateUSDTOrders_def
  by (rule keepsI) (auto intro: usdtOk_relabelled [OF _ _ assms])

text \<open>
  Cancelling and expiring keep whatever their two statements keep: giving open orders a state
  without a transfer, and expiring pending top-ups.
\<close>

lemma keeps_order_states:
  assumes relabel: "\<And>P status now. (\<And>x. P x \<Longrightarrow> usdtOpen x) \<Longrightarrow>
      status \<in> {USDTTopUpStatusConfirming, USDTTopUpStatusExpired} \<Longrightarrow>
      keeps I (updateUSDTOrders P (withStatus status now))"
    and expire: "\<And>ids. keeps I (expireTopUps ids)"
  shows "keeps I (CancelUSDTTopUpOrder userID tradeNo now)"
    "keeps I (AdvanceUSDTTopUpExpiryStates now grace)"
    "keeps I (ExpireUSDTTopUpOrders now)"
proof -
  have user: "keeps I (userUSDTOrder userID tradeNo)"
    unfolding userUSDTOrder_def by (intro keeps_intro)
  have pending: "keeps I (updateUSDTOrders (\<lambda>x. P x \<and> uo_Status x = USDTTopUpStatusPending) (withStatus st now))"
    if "st \<in> {USDTTopUpStatusConfirming, USDTTopUpStatusExpired}" for P now st
    by (rule relabel) (use that in \<open>auto simp: usdtOpen_def\<close>)
  have opened: "keeps I (updateUSDTOrders (\<lambda>x. P x \<and> usdtOpen x) (withStatus USDTTopUpStatusExpired now))"
    for P now
    by (rule relabel) auto
  show "keeps I (CancelUSDTTopUpOrder userID tradeNo now)"
    unfolding CancelUSDTTopUpOrder_def cancelTx_def
    by (intro keeps_intro user expire pending) simp_all
  show "keeps I (AdvanceUSDTTopUpExpiryStates now grace)"
    unfolding AdvanceUSDTTopUpExpiryStates_def advanceTx_def expireOrders_def confirmOrders_def
    by (intro keeps_intro expire pending opened) simp_all
  show "keeps I (ExpireUSDTTopUpOrders now)"
    unfolding ExpireUSDTTopUpOrders_def
    by (intro keeps_intro expire pending) simp_all
qed

lemmas keeps_usdt_states = keeps_order_states [OF keeps_usdt_relabel keeps_usdt_topups(2)]

text \<open>A new order: its suffix is in no reservation of the amount that is still running.\<close>

lemma unixOf_mono: "a \<le> b \<Longrightarrow> unixOf a \<le> unixOf b"
  by (simp add: unixOf_def second_def zdiv_mono1)

lemma apart_selected:
  assumes "\<forall>y \<in> set rows. usdtRow y" "y \<in> set rows"
    "uo_SuffixCents x \<notin> usedSuffixes (filter (\<lambda>y. uo_CreditUnits y = uo_CreditUnits x \<and>
        uo_CooldownUntil y > uo_CreatedAt x) rows)"
  shows "usdtApart y x"
proof (rule ccontr)
  assume "\<not> usdtApart y x"
  then have "uo_CreditUnits y = uo_CreditUnits x" "uo_SuffixCents y = uo_SuffixCents x"
    "uo_CooldownUntil y > uo_CreatedAt x" by (auto simp: usdtApart_def)
  moreover from assms(1,2) have "1 \<le> uo_SuffixCents y" "uo_SuffixCents y \<le> 99" by (auto simp: usdtRow_def)
  ultimately have "uo_SuffixCents y \<in> usedSuffixes (filter (\<lambda>y. uo_CreditUnits y = uo_CreditUnits x \<and>
        uo_CooldownUntil y > uo_CreatedAt x) rows)"
    using assms(2) by (auto simp: usedSuffixes_def intro: rev_image_eqI [of y])
  with assms(3) \<open>uo_SuffixCents y = uo_SuffixCents x\<close> show False by simp
qed

lemma wp_lockUSDTTopUpAmount:
  "wp (lockUSDTTopUpAmount units n)
     (\<lambda>_ t. usdtOrders t = usdtOrders s \<and> topups t = topups s \<and> users t = users s \<and>
        ledgers t = ledgers s \<and> usdtOk t = usdtOk s) s"
  unfolding lockUSDTTopUpAmount_def by (auto intro!: wp_intro)

lemma wp_insertUSDTOrder:
  assumes ok: "usdtOk s" and apart: "\<And>y. y \<in> set (usdtOrders s) \<Longrightarrow> usdtApart y x"
    and x: "uo_Status x = USDTTopUpStatusPending" "uo_TxID x = None"
      "uo_CreatedAt x \<le> uo_ExpiresAt x" "uo_ExpiresAt x \<le> uo_CooldownUntil x"
  shows "wp (insertUSDTOrder moneyOf n config x) (\<lambda>_. usdtOk) s"
proof (cases "ValidateExactPayAmount x (uc_MinTopUp config)")
  case (Inl e)
  with ok show ?thesis by (simp add: insertUSDTOrder_def)
next
  case (Inr a)
  note amount = ValidateExactPayAmount_Inr [OF Inr]
  have row: "usdtRow (x\<lparr>uo_PayAmountMicros := a, uo_TopUpID := i\<rparr>)" for i
    using amount x by (simp add: usdtRow_def)
  have "usdtApart y (x\<lparr>uo_PayAmountMicros := a, uo_TopUpID := i\<rparr>)" if "y \<in> set (usdtOrders s)" for y i
    using apart [OF that] by (simp add: usdtApart_def)
  then have created: "usdtOk t" if "usdtOrders t = usdtOrders s @
      [x\<lparr>uo_PayAmountMicros := a, uo_TopUpID := i, uo_ID := freshId uo_ID (usdtOrders s)\<rparr>]"
    "i \<notin> uo_TopUpID ` set (usdtOrders s)" "uo_TradeNo x \<notin> uo_TradeNo ` set (usdtOrders s)" for t i
    using that x by (intro usdtOk_created [OF ok row [of i]]) simp_all
  show ?thesis
    unfolding insertUSDTOrder_def Inr createTopUp_def createUSDTOrder_def Let_def
    using ok by (auto intro!: wp_intro created)
qed

lemma keeps_usdt_create:
  "keeps usdtOk (CreateUSDTTopUpOrder moneyOf draw uuid userID units now config)"
proof -
  have "wp (createUSDTOrderTx moneyOf draw uuid userID units now config) (\<lambda>_. usdtOk) s"
    if ok: "usdtOk s" and ttl: "0 < uc_OrderTTL config" "uc_OrderTTL config \<le> uc_SuffixCooldown config" for s
  proof -
    have rest: "wp (insertUSDTOrder moneyOf (unixOf now) config
        (newUSDTOrder userID units tradeNo (selectSuffix (usedSuffixes reserved) ys) now config)) (\<lambda>_. usdtOk) t"
      if t: "usdtOk t" "usdtOrders t = usdtOrders s"
        and reserved: "reserved = filter (\<lambda>x. uo_CreditUnits x = units \<and> uo_CooldownUntil x > unixOf now) (usdtOrders s)"
        and sel: "selectSuffix (usedSuffixes reserved) ys \<noteq> 0" for t tradeNo reserved ys
    proof (rule wp_insertUSDTOrder [OF t(1)])
      let ?x = "newUSDTOrder userID units tradeNo (selectSuffix (usedSuffixes reserved) ys) now config"
      show "usdtApart y ?x" if "y \<in> set (usdtOrders t)" for y
        by (rule apart_selected [OF _ that])
           (use t selectSuffix_cases(2) [OF refl sel] in
             \<open>auto simp: newUSDTOrder_def usdtOk_def reserved conj_commute\<close>)
      show "uo_CreatedAt ?x \<le> uo_ExpiresAt ?x" "uo_ExpiresAt ?x \<le> uo_CooldownUntil ?x"
        using ttl by (simp_all add: newUSDTOrder_def unixOf_mono)
    qed (simp_all add: newUSDTOrder_def)
    show ?thesis
      unfolding createUSDTOrderTx_def Let_def
      by (rule wp_bindI [OF wp_lockUSDTTopUpAmount])
         (use ok in \<open>auto intro!: wp_intro rest [OF _ _ refl] split: sum.splits\<close>)
  qed
  then have "keeps usdtOk (createUSDTOrderTx moneyOf draw uuid userID units now config)"
    if "0 < uc_OrderTTL config" "uc_OrderTTL config \<le> uc_SuffixCooldown config"
    using that by (auto intro: keepsI)
  then show ?thesis
    unfolding CreateUSDTTopUpOrder_def validateUSDTTopUpOrderInput_def
    by (auto intro!: keeps_intro)
qed

section \<open>Order tables as a run of operations\<close>

datatype usdtCall =
    CallCreate "nat \<Rightarrow> nat option" string int int int USDTTopUpConfig
  | CallCancel int string int
  | CallAdvance int int
  | CallExpire int

fun runUSDT :: "(int \<Rightarrow> float64) \<Rightarrow> usdtCall \<Rightarrow> (store, unit) act" where
  "runUSDT moneyOf (CallCreate draw uuid userID units now config) =
     bindE (CreateUSDTTopUpOrder moneyOf draw uuid userID units now config) (\<lambda>_. ret ())"
| "runUSDT moneyOf (CallCancel userID tradeNo now) =
     bindE (CancelUSDTTopUpOrder userID tradeNo now) (\<lambda>_. ret ())"
| "runUSDT moneyOf (CallAdvance now grace) = bindE (AdvanceUSDTTopUpExpiryStates now grace) (\<lambda>_. ret ())"
| "runUSDT moneyOf (CallExpire now) = bindE (ExpireUSDTTopUpOrders now) (\<lambda>_. ret ())"

lemma keeps_runUSDT: "keeps usdtOk (runUSDT moneyOf call)"
  by (cases call) (auto intro!: keeps_bindE keeps_usdt_states keeps_usdt_create keeps_ret)

section \<open>The sweep\<close>

lemma countWhere_ids:
  assumes "distinct (map key rows)"
  shows "countWhere (\<lambda>x. key x \<in> key ` set (filter P rows) \<and> Q x) rows = countWhere (\<lambda>x. P x \<and> Q x) rows"
proof -
  have "(key x \<in> key ` set (filter P rows) \<and> Q x) = (P x \<and> Q x)" if "x \<in> set rows" for x
    using distinct_key_unique [OF assms] that by force
  then have "filter (\<lambda>x. key x \<in> key ` set (filter P rows) \<and> Q x) rows = filter (\<lambda>x. P x \<and> Q x) rows"
    by (rule filter_cong [OF refl])
  then show ?thesis by (simp add: countWhere_def)
qed

lemma updateWhere_ids:
  assumes "distinct (map key rows)"
  shows "updateWhere (\<lambda>x. key x \<in> key ` set (filter P rows) \<and> Q x) f rows = updateWhere (\<lambda>x. P x \<and> Q x) f rows"
proof -
  have "(key x \<in> key ` set (filter P rows) \<and> Q x) = (P x \<and> Q x)" if "x \<in> set rows" for x
    using distinct_key_unique [OF assms] that by force
  then show ?thesis by (auto simp: updateWhere_def)
qed

text \<open>What the sweep makes of one order.\<close>

definition advanced :: "int \<Rightarrow> int \<Rightarrow> USDTTopUpOrder \<Rightarrow> USDTTopUpOrder" where
  "advanced nowUnix cutoff x =
     (if usdtOpen x \<and> uo_ExpiresAt x \<le> nowUnix then
        if uo_ExpiresAt x \<le> cutoff then withStatus USDTTopUpStatusExpired nowUnix x
        else if uo_Status x = USDTTopUpStatusPending then withStatus USDTTopUpStatusConfirming nowUnix x
        else x
      else x)"

lemma run_expireOrders:
  assumes ids: "distinct (map uo_ID (usdtOrders s))" and P: "\<And>x. P x \<Longrightarrow> usdtOpen x"
  shows "\<exists>n ts. expireOrders (filter P (usdtOrders s)) now \<lparr>db = s, faults = []\<rparr> =
     (Inr n, \<lparr>db = s\<lparr>usdtOrders := updateWhere P (withStatus USDTTopUpStatusExpired now) (usdtOrders s),
                     topups := ts\<rparr>, faults = []\<rparr>)"
proof -
  have "(\<lambda>x. P x \<and> usdtOpen x) = P" using P by auto
  then have upd: "updateWhere (\<lambda>x. uo_ID x \<in> uo_ID ` set (filter P (usdtOrders s)) \<and> usdtOpen x) f (usdtOrders s) =
      updateWhere P f (usdtOrders s)"
    and cnt: "countWhere (\<lambda>x. uo_ID x \<in> uo_ID ` set (filter P (usdtOrders s)) \<and> usdtOpen x) (usdtOrders s) =
      length (filter P (usdtOrders s))" for f
    using updateWhere_ids [OF ids, of P usdtOpen f] countWhere_ids [OF ids, of P usdtOpen]
    by (simp_all add: countWhere_def)
  show ?thesis
  proof (cases "filter P (usdtOrders s) = []")
    case True
    then have "updateWhere P (withStatus USDTTopUpStatusExpired now) (usdtOrders s) = usdtOrders s"
      by (intro updateWhere_id) (auto simp: filter_empty_conv)
    then show ?thesis
      unfolding True expireOrders_def by (intro exI [of _ 0] exI [of _ "topups s"]) (simp add: ret_def)
  next
    case False
    then show ?thesis
      by (auto simp: expireOrders_def updateUSDTOrders_def expireTopUps_def upd cnt store_ops simp del: set_filter)
  qed
qed

lemma run_confirmOrders:
  assumes ids: "distinct (map uo_ID (usdtOrders s))" and P: "\<And>x. P x \<Longrightarrow> uo_Status x = USDTTopUpStatusPending"
  shows "\<exists>n. confirmOrders (filter P (usdtOrders s)) now \<lparr>db = s, faults = []\<rparr> =
     (Inr n, \<lparr>db = s\<lparr>usdtOrders := updateWhere P (withStatus USDTTopUpStatusConfirming now) (usdtOrders s)\<rparr>,
              faults = []\<rparr>)"
proof -
  have "(\<lambda>x. P x \<and> uo_Status x = USDTTopUpStatusPending) = P" using P by auto
  then have upd: "updateWhere (\<lambda>x. uo_ID x \<in> uo_ID ` set (filter P (usdtOrders s)) \<and>
        uo_Status x = USDTTopUpStatusPending) f (usdtOrders s) = updateWhere P f (usdtOrders s)"
    and cnt: "countWhere (\<lambda>x. uo_ID x \<in> uo_ID ` set (filter P (usdtOrders s)) \<and>
        uo_Status x = USDTTopUpStatusPending) (usdtOrders s) = length (filter P (usdtOrders s))" for f
    using updateWhere_ids [OF ids, of P "\<lambda>x. uo_Status x = USDTTopUpStatusPending" f]
      countWhere_ids [OF ids, of P "\<lambda>x. uo_Status x = USDTTopUpStatusPending"]
    by (simp_all add: countWhere_def)
  show ?thesis
  proof (cases "filter P (usdtOrders s) = []")
    case True
    then have "updateWhere P (withStatus USDTTopUpStatusConfirming now) (usdtOrders s) = usdtOrders s"
      by (intro updateWhere_id) (auto simp: filter_empty_conv)
    then show ?thesis
      unfolding True confirmOrders_def by (intro exI [of _ 0]) (simp add: ret_def)
  next
    case False
    then show ?thesis
      by (simp add: confirmOrders_def updateUSDTOrders_def upd cnt store_ops del: set_filter)
  qed
qed

lemma filter_sweep:
  "filter (\<lambda>x. uo_ExpiresAt x \<le> cutoff) (filter (\<lambda>x. usdtOpen x \<and> uo_ExpiresAt x \<le> n) rows) =
     filter (\<lambda>x. usdtOpen x \<and> uo_ExpiresAt x \<le> n \<and> uo_ExpiresAt x \<le> cutoff) rows"
  "filter (\<lambda>x. \<not> uo_ExpiresAt x \<le> cutoff \<and> uo_Status x = USDTTopUpStatusPending)
       (filter (\<lambda>x. usdtOpen x \<and> uo_ExpiresAt x \<le> n) rows) =
     filter (\<lambda>x. uo_Status x = USDTTopUpStatusPending \<and> uo_ExpiresAt x \<le> n \<and> \<not> uo_ExpiresAt x \<le> cutoff) rows"
  by (auto simp: usdtOpen_def intro!: filter_cong)

lemma filter_updateWhere:
  "(\<And>x. P x \<Longrightarrow> \<not> Q (f x) \<and> \<not> Q x) \<Longrightarrow> filter Q (updateWhere P f rows) = filter Q rows"
  by (induction rows) auto

lemma run_advanceTx:
  assumes ids: "distinct (map uo_ID (usdtOrders s))"
  shows "\<exists>n ts. advanceTx now cutoff \<lparr>db = s, faults = []\<rparr> =
     (Inr n, \<lparr>db = s\<lparr>topups := ts, usdtOrders := map (advanced now cutoff) (usdtOrders s)\<rparr>, faults = []\<rparr>)"
proof -
  let ?E = "\<lambda>x. usdtOpen x \<and> uo_ExpiresAt x \<le> now \<and> uo_ExpiresAt x \<le> cutoff"
  let ?C = "\<lambda>x. uo_Status x = USDTTopUpStatusPending \<and> uo_ExpiresAt x \<le> now \<and> \<not> uo_ExpiresAt x \<le> cutoff"
  let ?rows = "updateWhere ?E (withStatus USDTTopUpStatusExpired now) (usdtOrders s)"
  obtain n ts where expire: "expireOrders (filter ?E (usdtOrders s)) now \<lparr>db = s, faults = []\<rparr> =
      (Inr n, \<lparr>db = s\<lparr>usdtOrders := ?rows, topups := ts\<rparr>, faults = []\<rparr>)"
    using run_expireOrders [OF ids, of ?E now] by auto
  let ?s = "s\<lparr>usdtOrders := ?rows, topups := ts\<rparr>"
  have "map uo_ID ?rows = map uo_ID (usdtOrders s)"
    by (rule map_updateWhere) (simp add: withStatus_def)
  then have ids': "distinct (map uo_ID (usdtOrders ?s))" using ids by simp
  have "filter ?C (usdtOrders ?s) = filter ?C (usdtOrders s)"
    using filter_updateWhere [of ?E ?C "withStatus USDTTopUpStatusExpired now" "usdtOrders s"]
    by (simp add: withStatus_def)
  then obtain m where confirm: "confirmOrders (filter ?C (usdtOrders s)) now \<lparr>db = ?s, faults = []\<rparr> =
      (Inr m, \<lparr>db = ?s\<lparr>usdtOrders := updateWhere ?C (withStatus USDTTopUpStatusConfirming now) ?rows\<rparr>, faults = []\<rparr>)"
    using run_confirmOrders [OF ids', of ?C now] by auto
  have "updateWhere ?C (withStatus USDTTopUpStatusConfirming now) ?rows = map (advanced now cutoff) (usdtOrders s)"
    by (auto simp: updateWhere_def advanced_def withStatus_def usdtOpen_def)
  with expire confirm show ?thesis
    by (auto simp: advanceTx_def filter_sweep run_simps simp del: filter_filter)
qed

section \<open>Properties\<close>

text \<open>
  C31. The exact amount on Go's \<open>int64\<close>: the method with wrapping arithmetic gives the amount of
  unbounded arithmetic, and an amount it accepts is positive and at most the largest \<open>int64\<close>.
\<close>

theorem exact_amount_on_int64:
  "map_sum id sint (ValidateExactPayAmount64 units suffix m) =
     ValidateExactPayAmount (x\<lparr>uo_CreditUnits := sint units, uo_SuffixCents := sint suffix\<rparr>) (sint m) \<and>
   (case ValidateExactPayAmount (x\<lparr>uo_CreditUnits := sint units, uo_SuffixCents := sint suffix\<rparr>) (sint m) of
      Inl err \<Rightarrow> err = ErrUSDTTopUpInvalidAmount | Inr a \<Rightarrow> 0 < a \<and> a \<le> MaxInt64)"
proof -
  let ?x = "x\<lparr>uo_CreditUnits := sint units, uo_SuffixCents := sint suffix\<rparr>"
  have whole: "sint (units * 1000000 + suffix * 10000) = sint units * 1000000 + sint suffix * 10000"
    if ok: "ValidateExactPayAmount ?x (sint m) = Inr a" for a
  proof -
    note b = ValidateExactPayAmount_Inr [OF ok, simplified]
    have "sint (units * 1000000) = sint units * 1000000" "sint (suffix * 10000) = sint suffix * 10000"
      using b by (subst sint64_mult; simp add: MaxInt64_def)+
    then show ?thesis using b by (subst sint64_add) (simp_all add: MaxInt64_def)
  qed
  have bound: "sint (9223372036854775807 - suffix * 10000 :: int64) = MaxInt64 - sint suffix * 10000"
    if "1 \<le> sint suffix" "sint suffix \<le> 99"
  proof -
    have "sint (suffix * 10000) = sint suffix * 10000" using that by (subst sint64_mult) simp_all
    then show ?thesis using that by (subst sint64_diff) (simp_all add: MaxInt64_def)
  qed
  have "map_sum id sint (ValidateExactPayAmount64 units suffix m) = ValidateExactPayAmount ?x (sint m)"
  proof (cases "sint m \<le> 0 \<or> sint units < sint m \<or> sint suffix < 1 \<or> sint suffix > 99")
    case True
    then show ?thesis by (simp add: ValidateExactPayAmount64_def ValidateExactPayAmount_def)
  next
    case False
    then have big: "sint (9223372036854775807 - suffix * 10000 :: int64) = MaxInt64 - sint suffix * 10000"
      by (intro bound) simp_all
    show ?thesis
    proof (cases "sint units > goDiv (MaxInt64 - sint suffix * 10000) 1000000")
      case True
      with False big show ?thesis
        by (simp add: ValidateExactPayAmount64_def ValidateExactPayAmount_def Let_def)
    next
      case small: False
      with False have "ValidateExactPayAmount ?x (sint m) = Inr (sint units * 1000000 + sint suffix * 10000)"
        by (simp add: ValidateExactPayAmount_def Let_def)
      moreover from this have "sint (units * 1000000 + suffix * 10000) = sint units * 1000000 + sint suffix * 10000"
        by (rule whole)
      moreover from False small big have "ValidateExactPayAmount64 units suffix m = Inr (units * 1000000 + suffix * 10000)"
        by (simp add: ValidateExactPayAmount64_def Let_def)
      ultimately show ?thesis by simp
    qed
  qed
  moreover have "case ValidateExactPayAmount ?x (sint m) of
      Inl err \<Rightarrow> err = ErrUSDTTopUpInvalidAmount | Inr a \<Rightarrow> 0 < a \<and> a \<le> MaxInt64"
  proof (cases "ValidateExactPayAmount ?x (sint m)")
    case (Inl err)
    then have "err = ErrUSDTTopUpInvalidAmount"
      unfolding ValidateExactPayAmount_def Let_def by (simp split: if_splits)
    with Inl show ?thesis by simp
  next
    case (Inr a)
    from ValidateExactPayAmount_Inr [OF Inr] have "0 < a" "a \<le> MaxInt64" by linarith+
    with Inr show ?thesis by simp
  qed
  ultimately show ?thesis by blast
qed

text \<open>
  C32. The amount a payer is told to send identifies what it pays for: the credit units and the
  suffix can be read back from it.
\<close>

theorem exact_amount_identifies:
  assumes "ValidateExactPayAmount x m = Inr a"
  shows "a div 1000000 = uo_CreditUnits x \<and> a mod 1000000 div 10000 = uo_SuffixCents x"
proof -
  from ValidateExactPayAmount_Inr [OF assms] have a: "a = uo_SuffixCents x * 10000 + uo_CreditUnits x * 1000000"
    and s: "1 \<le> uo_SuffixCents x" "uo_SuffixCents x \<le> 99" by simp_all
  from s have "uo_SuffixCents x * 10000 div 1000000 = 0" "uo_SuffixCents x * 10000 mod 1000000 = uo_SuffixCents x * 10000"
    by (simp_all add: div_pos_pos_trivial mod_pos_pos_trivial)
  then show ?thesis unfolding a by simp
qed

definition demoUSDT :: USDTTopUpOrder where
  "demoUSDT =
     \<lparr>uo_ID = 1, uo_TopUpID = 4, uo_UserID = 7, uo_TradeNo = ''USDT7a'', uo_Network = ''tron-mainnet'',
      uo_Asset = ''USDT'', uo_ContractAddress = ''C'', uo_ReceivingAddress = ''A'', uo_CreditUnits = 10,
      uo_PayAmountMicros = 10420000, uo_SuffixCents = 42, uo_Status = ''pending'', uo_ExpiresAt = 700,
      uo_CooldownUntil = 900, uo_TxID = None, uo_TxFrom = None, uo_BlockTimestampMS = None,
      uo_SettledAt = None, uo_ReviewReason = [], uo_CreatedAt = 100, uo_UpdatedAt = 100\<rparr>"

theorem exact_amount_identifies_witness:
  "(10420000 :: int) div 1000000 = uo_CreditUnits demoUSDT \<and> (10420000 :: int) mod 1000000 div 10000 = uo_SuffixCents demoUSDT"
proof -
  have "ValidateExactPayAmount demoUSDT 10 = Inr 10420000"
    by (simp add: ValidateExactPayAmount_def demoUSDT_def MaxInt64_def goDiv_def)
  from exact_amount_identifies [OF this] show ?thesis .
qed

text \<open>
  C33. No order stays open for ever: on a working database the sweep maps every order to its
  next state, and afterwards no order is open whose expiry lies more than the grace back.
\<close>

theorem sweep_expires_unpaid:
  assumes "usdtOk s" "0 < grace"
  shows "case AdvanceUSDTTopUpExpiryStates now grace \<lparr>db = s, faults = []\<rparr> of (r, c) \<Rightarrow>
     (\<exists>n. r = Inr n) \<and> usdtOrders (db c) = map (advanced (unixOf now) (unixOf (now - grace))) (usdtOrders s) \<and>
     (\<forall>x \<in> set (usdtOrders (db c)). usdtOpen x \<longrightarrow> unixOf (now - grace) < uo_ExpiresAt x)"
proof -
  have ids: "distinct (map uo_ID (usdtOrders s))" using assms(1) by (simp add: usdtOk_def)
  have "unixOf (now - grace) \<le> unixOf now" using assms(2) by (simp add: unixOf_mono)
  then have "\<not> usdtOpen (advanced (unixOf now) (unixOf (now - grace)) x)"
    if "uo_ExpiresAt x \<le> unixOf (now - grace)" for x
    using that by (auto simp: advanced_def usdtOpen_def withStatus_def)
  moreover have "uo_ExpiresAt (advanced n k x) = uo_ExpiresAt x" for n k x
    by (simp add: advanced_def withStatus_def)
  ultimately have "\<forall>x \<in> set (map (advanced (unixOf now) (unixOf (now - grace))) (usdtOrders s)).
      usdtOpen x \<longrightarrow> unixOf (now - grace) < uo_ExpiresAt x"
    by (auto simp: not_le [symmetric])
  with run_advanceTx [OF ids, of "unixOf now" "unixOf (now - grace)"] assms(2) show ?thesis
    by (auto simp: AdvanceUSDTTopUpExpiryStates_def transaction_def nextOutcome_def)
qed

lemma usdtOk_demo: "usdtOk (demoStore\<lparr>usdtOrders := [demoUSDT]\<rparr>)"
  by (simp add: usdtOk_def usdtRow_def demoUSDT_def MaxInt64_def txIDs_def)

theorem sweep_expires_unpaid_witness:
  "map uo_Status (usdtOrders (db (snd (AdvanceUSDTTopUpExpiryStates 900000000000 120000000000
     \<lparr>db = demoStore\<lparr>usdtOrders := [demoUSDT]\<rparr>, faults = []\<rparr>)))) = [USDTTopUpStatusExpired]"
  using sweep_expires_unpaid [OF usdtOk_demo, of 120000000000 900000000000]
  by (simp add: split_beta advanced_def usdtOpen_def withStatus_def unixOf_def second_def)
     (simp add: demoUSDT_def)

section \<open>The lease\<close>

definition leased :: "string \<Rightarrow> string \<Rightarrow> int \<Rightarrow> store \<Rightarrow> bool" where
  "leased name holder expires s \<longleftrightarrow>
     (case findRow (\<lambda>l. wl_Name l = name) (usdtLeases s) of
        None \<Rightarrow> False | Some l \<Rightarrow> wl_HolderID l = holder \<and> wl_ExpiresAt l = expires)"

lemma findRow_leased:
  "findRow (\<lambda>l. wl_Name l = name) (updateWhere (\<lambda>l. wl_Name l = name)
     (\<lambda>l. l\<lparr>wl_HolderID := h, wl_ExpiresAt := e, wl_UpdatedAt := n\<rparr>) rows) =
   map_option (\<lambda>l. l\<lparr>wl_HolderID := h, wl_ExpiresAt := e, wl_UpdatedAt := n\<rparr>) (findRow (\<lambda>l. wl_Name l = name) rows)"
  by (induction rows) auto

lemma leased_updated:
  "findRow (\<lambda>l. wl_Name l = name) (usdtLeases s) = Some l \<Longrightarrow>
   leased name holder e (s\<lparr>usdtLeases := updateWhere (\<lambda>l. wl_Name l = name)
      (\<lambda>l. l\<lparr>wl_HolderID := holder, wl_ExpiresAt := e, wl_UpdatedAt := n\<rparr>) (usdtLeases s)\<rparr>)"
  by (simp add: leased_def findRow_leased)

lemma wp_acquireLeaseTx:
  "wp (acquireLeaseTx name holder now ttl)
     (\<lambda>r t. r = Inr True \<longrightarrow> leased name holder (unixOf (now + ttl)) t) s"
proof -
  have tail: "wp (bindE (firstRow usdtLeases (\<lambda>l. wl_Name l = name)) (\<lambda>lease.
       if wl_HolderID lease \<noteq> holder \<and> wl_ExpiresAt lease > unixOf now then ret False
       else bindE (updateRows usdtLeases usdtLeases_update (\<lambda>l. wl_Name l = name)
           (\<lambda>l. l\<lparr>wl_HolderID := holder, wl_ExpiresAt := unixOf (now + ttl), wl_UpdatedAt := unixOf now\<rparr>)) (\<lambda>rows.
         ret (rows = 1))))
     (\<lambda>r t. r = Inr True \<longrightarrow> leased name holder (unixOf (now + ttl)) t) u" for u
    by (auto intro!: wp_intro leased_updated)
  show ?thesis
    unfolding acquireLeaseTx_def by (rule wp_bindE) (simp add: tail)
qed

lemma wp_lease_refused:
  assumes "leased name other expires s" "other \<noteq> holder" "unixOf now < expires"
  shows "wp (acquireLeaseTx name holder now ttl) (\<lambda>r t. r \<noteq> Inr True \<and> t = s) s"
proof -
  from assms(1) obtain l where l: "findRow (\<lambda>l. wl_Name l = name) (usdtLeases s) = Some l"
    "wl_HolderID l = other" "wl_ExpiresAt l = expires"
    by (auto simp: leased_def split: option.splits)
  with findRow_Some [OF l(1)] have "name \<in> wl_Name ` set (usdtLeases s)" by auto
  with l assms show ?thesis
    unfolding acquireLeaseTx_def by (auto intro!: wp_intro)
qed

text \<open>
  C34. The watcher's lease excludes others: from tables in which one holder has just acquired the
  lease, no other holder acquires it before it expires, whatever statements and commits fail.
\<close>

theorem lease_exclusive:
  "wp (AcquireUSDTWatcherLease name holder now ttl)
     (\<lambda>r t. r = Inr True \<longrightarrow>
        (\<forall>other now' ttl'. TrimSpace other \<noteq> TrimSpace holder \<and> unixOf now' < unixOf (now + ttl) \<longrightarrow>
           wp (AcquireUSDTWatcherLease name other now' ttl') (\<lambda>r' u. r' \<noteq> Inr True \<and> u = t) t)) s"
proof -
  have refused: "wp (AcquireUSDTWatcherLease name other now' ttl') (\<lambda>r' u. r' \<noteq> Inr True \<and> u = t) t"
    if "leased (TrimSpace name) (TrimSpace holder) e t" "TrimSpace other \<noteq> TrimSpace holder" "unixOf now' < e"
    for other now' ttl' t e
    unfolding AcquireUSDTWatcherLease_def Let_def
    by (intro wp_if wp_transactionI [OF wp_lease_refused [OF that(1) _ that(3)]]) (use that(2) in auto)
  show ?thesis
    unfolding AcquireUSDTWatcherLease_def [of name holder] Let_def
    by (intro wp_if wp_transactionI [OF wp_acquireLeaseTx]) (auto intro: refused)
qed

theorem lease_exclusive_witness:
  "case AcquireUSDTWatcherLease ''w'' ''a'' 0 5000000000 \<lparr>db = demoStore, faults = []\<rparr> of (r, c) \<Rightarrow>
     r = Inr True \<and>
     wp (AcquireUSDTWatcherLease ''w'' ''b'' 4000000000 1) (\<lambda>r' u. r' \<noteq> Inr True \<and> u = db c) (db c)"
proof -
  let ?c = "\<lparr>db = demoStore, faults = []\<rparr> :: store conn"
  have trim: "TrimSpace ''a'' = ''a''" "TrimSpace ''b'' = ''b''" "TrimSpace ''w'' = ''w''" by code_simp+
  obtain r c where run: "AcquireUSDTWatcherLease ''w'' ''a'' 0 5000000000 ?c = (r, c)" by fastforce
  then have "r = Inr True"
    by (auto simp: AcquireUSDTWatcherLease_def acquireLeaseTx_def trim store_ops demoStore_def Let_def)
  moreover have "unixOf 4000000000 < unixOf (0 + 5000000000)" by (simp add: unixOf_def second_def)
  ultimately show ?thesis
    using wpD [OF lease_exclusive run] trim by (simp add: run)
qed

end
