(* ===== verification/UsdtSettle.thy ===== *)
theory UsdtSettle
  imports UsdtOrders
begin

text \<open>
  Settling a confirmed TRC-20 transfer, \<open>server/model/usdt_topup_settlement.go\<close>: the search
  for the one open order with the exact amount, the paid and the bonus ledger entry, the
  order's and the top-up's new state, and the replay of a transfer that was settled before.
\<close>

abbreviation BalanceLedgerSourceUSDTTopUp :: string where
  "BalanceLedgerSourceUSDTTopUp \<equiv> ''usdt_topup_settlement''"
abbreviation BalanceLedgerSourceUSDTTopUpBonus :: string where
  "BalanceLedgerSourceUSDTTopUpBonus \<equiv> ''usdt_topup_bonus''"

definition usdtTopUpBonusDivisor :: int where "usdtTopUpBonusDivisor = 20"

record TRC20Transfer =
  tr_TxID :: string
  tr_From :: string
  tr_To :: string
  tr_ContractAddress :: string
  tr_AmountMicros :: int
  tr_BlockTimestampMS :: int

record USDTSettlementResult =
  se_Order :: USDTTopUpOrder
  se_TopUp :: TopUp
  se_Ledger :: BalanceLedger
  se_BonusLedger :: "BalanceLedger option"
  se_PaidQuota :: int
  se_BonusQuota :: int
  se_QuotaAdded :: int
  se_Applied :: bool

definition transferValid :: "TRC20Transfer \<Rightarrow> bool" where
  "transferValid tr \<longleftrightarrow>
     \<not> (TrimSpace (tr_TxID tr) = [] \<or> TrimSpace (tr_From tr) = [] \<or> TrimSpace (tr_To tr) = [] \<or>
        TrimSpace (tr_ContractAddress tr) = [] \<or> tr_AmountMicros tr \<le> 0 \<or> tr_BlockTimestampMS tr \<le> 0)"

definition settlementEvidenceMatches :: "USDTTopUpOrder \<Rightarrow> TRC20Transfer \<Rightarrow> bool" where
  "settlementEvidenceMatches order tr =
     (if uo_TxID order \<noteq> Some (tr_TxID tr) then False
      else uo_PayAmountMicros order = tr_AmountMicros tr \<and>
           uo_ReceivingAddress order = tr_To tr \<and> uo_ContractAddress order = tr_ContractAddress tr \<and>
           uo_BlockTimestampMS order = Some (tr_BlockTimestampMS tr))"

definition usdtPaidKey :: "string \<Rightarrow> string" where "usdtPaidKey txID = ''usdt-trc20:'' @ txID"
definition usdtBonusKey :: "int \<Rightarrow> string" where "usdtBonusKey i = ''usdt-trc20-bonus:'' @ showInt i"

definition loadUSDTSettlementByTx :: "string \<Rightarrow> (store, USDTSettlementResult) act" where
  "loadUSDTSettlementByTx txID =
     bindE (firstRow usdtOrders (\<lambda>x. uo_TxID x = Some txID)) (\<lambda>order.
     bindE (firstRow topups (\<lambda>t. tu_Id t = uo_TopUpID order)) (\<lambda>topUp.
     bindE (ledgerByKey (usdtPaidKey txID)) (\<lambda>ledger.
     bindE (attempt (ledgerByKey (usdtBonusKey (uo_ID order)))) (\<lambda>found.
       case found of
         Inl err \<Rightarrow>
           if err \<noteq> ErrRecordNotFound then fail err
           else ret \<lparr>se_Order = order, se_TopUp = topUp, se_Ledger = ledger, se_BonusLedger = None,
                     se_PaidQuota = bl_Delta ledger, se_BonusQuota = 0,
                     se_QuotaAdded = bl_Delta ledger, se_Applied = False\<rparr>
       | Inr bonus \<Rightarrow>
           ret \<lparr>se_Order = order, se_TopUp = topUp, se_Ledger = ledger, se_BonusLedger = Some bonus,
                se_PaidQuota = bl_Delta ledger, se_BonusQuota = bl_Delta bonus,
                se_QuotaAdded = bl_Delta ledger + bl_Delta bonus, se_Applied = False\<rparr>))))"

definition transferCandidate :: "TRC20Transfer \<Rightarrow> USDTTopUpOrder \<Rightarrow> bool" where
  "transferCandidate tr x \<longleftrightarrow>
     usdtOpen x \<and> uo_PayAmountMicros x = tr_AmountMicros tr \<and> uo_ReceivingAddress x = tr_To tr \<and>
     uo_ContractAddress x = tr_ContractAddress tr \<and>
     uo_CreatedAt x * 1000 \<le> tr_BlockTimestampMS tr \<and> uo_ExpiresAt x * 1000 \<ge> tr_BlockTimestampMS tr"

text \<open>The order's last state; the unique index on the transaction id rejects a second order of it.\<close>

definition settledOrder :: "TRC20Transfer \<Rightarrow> int \<Rightarrow> USDTTopUpOrder \<Rightarrow> USDTTopUpOrder" where
  "settledOrder tr n x =
     x\<lparr>uo_Status := USDTTopUpStatusSettled, uo_TxID := Some (tr_TxID tr), uo_TxFrom := Some (tr_From tr),
       uo_BlockTimestampMS := Some (tr_BlockTimestampMS tr), uo_SettledAt := Some n, uo_UpdatedAt := n\<rparr>"

definition updateSettledOrder :: "int \<Rightarrow> TRC20Transfer \<Rightarrow> int \<Rightarrow> (store, nat) act" where
  "updateSettledOrder i tr n = stmt (\<lambda>s.
     let rows = updateWhere (\<lambda>x. uo_ID x = i \<and> usdtOpen x) (settledOrder tr n) (usdtOrders s) in
     if distinct (txIDs rows)
     then Inr (countWhere (\<lambda>x. uo_ID x = i \<and> usdtOpen x) (usdtOrders s), s\<lparr>usdtOrders := rows\<rparr>)
     else Inl ErrDuplicatedKey)"

text \<open>The two postings: the paid quota, the bonus, and the user's row for both.\<close>

definition postUSDTCredit ::
  "int \<Rightarrow> TRC20Transfer \<Rightarrow> USDTTopUpOrder \<Rightarrow> User \<Rightarrow> int \<Rightarrow> int \<Rightarrow> (store, BalanceLedger \<times> BalanceLedger) act" where
  "postUSDTCredit settledAt tr order user paidQuota bonusQuota =
     (case checkedBalanceLedgerSum (u_Quota user) paidQuota of
         Inl err \<Rightarrow> fail err
       | Inr paidBalance \<Rightarrow>
           (case checkedBalanceLedgerSum paidBalance bonusQuota of
              Inl err \<Rightarrow> fail err
            | Inr nextBalance \<Rightarrow>
                if length (usdtPaidKey (tr_TxID tr)) > BalanceLedgerIdempotencyKeyMaxLength
                then fail ErrBalanceLedgerIdempotencyKeyTooLong
                else bindE (createLedger
                    \<lparr>bl_ID = 0, bl_UserID = u_Id user, bl_OperatorID = 0, bl_Delta = paidQuota,
                     bl_BalanceBefore = u_Quota user, bl_BalanceAfter = paidBalance,
                     bl_Reason = ''confirmed USDT TRC-20 service-credit topup'',
                     bl_IdempotencyKey = usdtPaidKey (tr_TxID tr), bl_RequestID = uo_TradeNo order,
                     bl_SourceType = BalanceLedgerSourceUSDTTopUp, bl_CreatedAt = settledAt\<rparr>) (\<lambda>ledger.
                  bindE (createLedger
                    \<lparr>bl_ID = 0, bl_UserID = u_Id user, bl_OperatorID = 0, bl_Delta = bonusQuota,
                     bl_BalanceBefore = paidBalance, bl_BalanceAfter = nextBalance,
                     bl_Reason = ''5% USDT topup promotional bonus'',
                     bl_IdempotencyKey = usdtBonusKey (uo_ID order), bl_RequestID = uo_TradeNo order,
                     bl_SourceType = BalanceLedgerSourceUSDTTopUpBonus, bl_CreatedAt = settledAt\<rparr>) (\<lambda>bonus.
                  bindE (updateUser (u_Id user)
                    (applyUserUpdates (balanceLedgerUserUpdates user nextBalance False))) (\<lambda>_.
                  ret (ledger, bonus))))))"

text \<open>The postings, then the top-up and the order.\<close>

definition creditUSDTOrder ::
  "int \<Rightarrow> TRC20Transfer \<Rightarrow> USDTTopUpOrder \<Rightarrow> TopUp \<Rightarrow> User \<Rightarrow> int \<Rightarrow> int \<Rightarrow> (store, USDTSettlementResult) act" where
  "creditUSDTOrder settledAt tr order topUp user paidQuota bonusQuota =
     (let n = unixOf settledAt in
      bindE (postUSDTCredit settledAt tr order user paidQuota bonusQuota) (\<lambda>(ledger, bonus).
      bindE (setTopUpStatus (tu_Id topUp) TopUpStatusPending TopUpStatusSuccess n) (\<lambda>rows.
        if rows \<noteq> 1 then fail ErrUSDTTopUpStateConflict
        else bindE (updateSettledOrder (uo_ID order) tr n) (\<lambda>rows.
          if rows \<noteq> 1 then fail ErrUSDTTopUpStateConflict
          else ret \<lparr>se_Order = settledOrder tr n order,
                    se_TopUp = topUp\<lparr>tu_Status := TopUpStatusSuccess, tu_CompleteTime := n\<rparr>,
                    se_Ledger = ledger, se_BonusLedger = Some bonus, se_PaidQuota = paidQuota,
                    se_BonusQuota = bonusQuota, se_QuotaAdded = paidQuota + bonusQuota,
                    se_Applied = True\<rparr>))))"

definition settleCandidate ::
  "quotaRates \<Rightarrow> int \<Rightarrow> TRC20Transfer \<Rightarrow> USDTTopUpOrder \<Rightarrow> (store, USDTSettlementResult) act" where
  "settleCandidate rates settledAt tr order =
     bindE (firstRow topups (\<lambda>t. tu_Id t = uo_TopUpID order)) (\<lambda>topUp.
       if tu_Status topUp \<noteq> TopUpStatusPending \<or> tu_PaymentProvider topUp \<noteq> PaymentProviderUSDTTRC20 \<or>
          tu_UserId topUp \<noteq> uo_UserID order
       then fail ErrUSDTTopUpStateConflict
       else bindE (firstUser (uo_UserID order)) (\<lambda>user.
         let paidQuota = adminTopUpQuota rates topUp; bonusQuota = goDiv paidQuota usdtTopUpBonusDivisor in
         if paidQuota \<le> 0 then fail ErrUSDTTopUpInvalidAmount
         else if bonusQuota \<le> 0 then fail ErrUSDTTopUpInvalidAmount
         else creditUSDTOrder settledAt tr order topUp user paidQuota bonusQuota))"

definition settleUSDTTx ::
  "quotaRates \<Rightarrow> int \<Rightarrow> TRC20Transfer \<Rightarrow> (store, USDTSettlementResult) act" where
  "settleUSDTTx rates settledAt tr =
     bindE (attempt (loadUSDTSettlementByTx (tr_TxID tr))) (\<lambda>found.
       case found of
         Inr existing \<Rightarrow>
           if \<not> settlementEvidenceMatches (se_Order existing) tr then fail ErrUSDTTopUpTransferMismatch
           else ret existing
       | Inl err \<Rightarrow>
           if err \<noteq> ErrRecordNotFound then fail err
           else bindE (query (\<lambda>s. Inr (take 2 (filter (transferCandidate tr) (usdtOrders s))))) (\<lambda>candidates.
             case candidates of
               [] \<Rightarrow> fail ErrUSDTTopUpTransferMismatch
             | [order] \<Rightarrow> settleCandidate rates settledAt tr order
             | _ \<Rightarrow> fail ErrUSDTTopUpTransferAmbiguous))"

text \<open>What follows the transaction; an error is first checked against a settlement in the table.\<close>

definition recoverUSDT :: "TRC20Transfer \<Rightarrow> err \<Rightarrow> (store, USDTSettlementResult) act" where
  "recoverUSDT tr err =
     bindE (attempt (loadUSDTSettlementByTx (tr_TxID tr))) (\<lambda>found.
       case found of
         Inl _ \<Rightarrow> fail err
       | Inr recovered \<Rightarrow>
           if \<not> settlementEvidenceMatches (se_Order recovered) tr then fail ErrUSDTTopUpTransferMismatch
           else ret recovered)"

definition SettleUSDTTopUp ::
  "quotaRates \<Rightarrow> int \<Rightarrow> TRC20Transfer \<Rightarrow> (store, USDTSettlementResult \<times> err option) act" where
  "SettleUSDTTopUp rates settledAt tr =
     (if \<not> transferValid tr then fail ErrUSDTTopUpTransferMismatch
      else bindE (attempt (transaction (settleUSDTTx rates settledAt tr))) (\<lambda>outcome.
        bindE (case outcome of Inl err \<Rightarrow> recoverUSDT tr err | Inr result \<Rightarrow> ret result) (\<lambda>result.
          bindE (attempt (extern ErrCache)) (\<lambda>sync.
            case sync of
              Inl _ \<Rightarrow> ret (result, Some ErrUSDTTopUpCacheSync)
            | Inr _ \<Rightarrow> ret (result, None)))))"

section \<open>The two postings\<close>

definition twicePosted :: "int \<Rightarrow> int \<Rightarrow> int \<Rightarrow> store \<Rightarrow> store \<Rightarrow> bool" where
  "twicePosted uid a b s t \<longleftrightarrow>
     (\<exists>e1 e2 s1. posted s e1 s1 \<and> posted s1 e2 t \<and> bl_UserID e1 = uid \<and> bl_UserID e2 = uid \<and>
        bl_Delta e1 = a \<and> bl_Delta e2 = b)"

lemma updateWhere_twice:
  "(\<And>x. P (g x) = P x) \<Longrightarrow> updateWhere P f (updateWhere P g rows) = updateWhere P (\<lambda>x. f (g x)) rows"
  by (induction rows) auto

lemma twicePostedI:
  assumes u: "findRow (\<lambda>u. u_Id u = uid \<and> \<not> u_DeletedAt u) (users s) = Some u"
    and sums: "checkedBalanceLedgerSum (u_Quota u) a = Inr p" "checkedBalanceLedgerSum p b = Inr n"
    and e1: "bl_UserID e1 = uid" "bl_Delta e1 = a" "bl_BalanceBefore e1 = u_Quota u" "bl_BalanceAfter e1 = p"
      "bl_IdempotencyKey e1 \<notin> bl_IdempotencyKey ` set (ledgers s)"
    and e2: "bl_UserID e2 = uid" "bl_Delta e2 = b" "bl_BalanceBefore e2 = p" "bl_BalanceAfter e2 = n"
      "bl_IdempotencyKey e2 \<notin> bl_IdempotencyKey ` set (ledgers s @ [e1])"
    and t: "ledgers t = ledgers s @ [e1, e2]"
      "users t = updateWhere (\<lambda>u. u_Id u = uid \<and> \<not> u_DeletedAt u)
        (applyUserUpdates (balanceLedgerUserUpdates u n False)) (users s)"
  shows "twicePosted uid a b s t"
proof -
  let ?P = "\<lambda>u. u_Id u = uid \<and> \<not> u_DeletedAt u"
  let ?g = "\<lambda>v. v\<lparr>u_Quota := p\<rparr>"
  let ?f = "applyUserUpdates (balanceLedgerUserUpdates u n False)"
  let ?s = "s\<lparr>users := updateWhere ?P ?g (users s), ledgers := ledgers s @ [e1]\<rparr>"
  have first: "posted s e1 ?s"
    by (rule posted_update [where i = uid]) (use u sums e1 in \<open>auto dest: checkedSum_Inr_sum\<close>)
  have found: "findRow ?P (users ?s) = Some (?g u)"
    using findRow_Some [OF u] by (simp add: findRow_updateWhere u)
  have fg: "?f (?g v) = ?f v" for v
    by (simp add: applyUserUpdates_def split: option.splits)
  have "users t = updateWhere ?P ?f (users ?s)"
    by (simp add: t updateWhere_twice fg)
  then have "posted ?s e2 t"
    unfolding posted_def using found sums e2 t(1)
    by (intro conjI exI [of _ ?f]) (auto dest: checkedSum_Inr_sum)
  with first e1 e2 show ?thesis unfolding twicePosted_def by blast
qed

lemma twicePosted_rows:
  assumes "findRow (\<lambda>u. u_Id u = uid \<and> \<not> u_DeletedAt u) (users s) = Some u"
    "checkedBalanceLedgerSum (u_Quota u) a = Inr (bl_BalanceAfter e1)"
    "checkedBalanceLedgerSum (bl_BalanceAfter e1) b = Inr n"
    "bl_UserID e1 = uid" "bl_Delta e1 = a" "bl_BalanceBefore e1 = u_Quota u"
    "bl_IdempotencyKey e1 \<notin> bl_IdempotencyKey ` set (ledgers s)"
    "bl_UserID e2 = uid" "bl_Delta e2 = b" "bl_BalanceBefore e2 = bl_BalanceAfter e1" "bl_BalanceAfter e2 = n"
    "bl_IdempotencyKey e2 \<notin> bl_IdempotencyKey ` set (ledgers s)"
    "bl_IdempotencyKey e2 \<noteq> bl_IdempotencyKey e1"
  shows "twicePosted uid a b s (s\<lparr>ledgers := ledgers s @ [e1, e2],
      users := updateWhere (\<lambda>u. u_Id u = uid \<and> \<not> u_DeletedAt u)
        (applyUserUpdates (balanceLedgerUserUpdates u n False)) (users s)\<rparr>)"
  using assms by (intro twicePostedI [OF assms(1-6) refl assms(7-11)]) simp_all

lemma wp_postUSDTCredit:
  assumes "findRow (\<lambda>u. u_Id u = uo_UserID x \<and> \<not> u_DeletedAt u) (users s) = Some u"
  shows "wp (postUSDTCredit at' tr x u a b)
     (\<lambda>r t. case r of Inl _ \<Rightarrow> True | Inr _ \<Rightarrow>
        twicePosted (uo_UserID x) a b s t \<and> topups t = topups s \<and> usdtOrders t = usdtOrders s) s"
proof -
  from findRow_Some [OF assms] have uid: "u_Id u = uo_UserID x" by simp
  show ?thesis
    unfolding postUSDTCredit_def updateUser_def uid
    by (auto intro!: wp_intro twicePosted_rows [OF assms] split: sum.splits)
qed

lemma balanceOf_twicePosted:
  assumes "twicePosted uid a b s t"
  shows "balanceOf v t = map_option (\<lambda>q. q + (if v = uid then a + b else 0)) (balanceOf v s)"
proof -
  from assms obtain e1 e2 s1 where "posted s e1 s1" "posted s1 e2 t" "bl_UserID e1 = uid" "bl_UserID e2 = uid"
    "bl_Delta e1 = a" "bl_Delta e2 = b" unfolding twicePosted_def by blast
  with balanceOf_posted [of s e1 s1 v] balanceOf_posted [of s1 e2 t v] show ?thesis
    by (cases "balanceOf v s") simp_all
qed

lemma ledger_ok_twicePosted: "ledger_ok base s \<Longrightarrow> twicePosted uid a b s t \<Longrightarrow> ledger_ok base t"
  unfolding twicePosted_def by (blast intro: ledger_ok_posted)

lemma twicePosted_cong:
  "twicePosted uid a b s t \<Longrightarrow> users t' = users t \<Longrightarrow> ledgers t' = ledgers t \<Longrightarrow> twicePosted uid a b s t'"
  unfolding twicePosted_def using posted_cong [of s1 s1 t' t for s1] by blast

section \<open>USDT orders are vouchers\<close>

text \<open>Every order names its top-up row, which repeats the units it credits.\<close>

definition usdtLinked :: "store \<Rightarrow> bool" where
  "usdtLinked s \<longleftrightarrow>
     (\<forall>x \<in> set (usdtOrders s). \<exists>t \<in> set (topups s). tu_Id t = uo_TopUpID x \<and>
        tu_Amount t = uo_CreditUnits x \<and> tu_PaymentProvider t = PaymentProviderUSDTTRC20)"

definition usdtBooks :: "store \<Rightarrow> bool" where
  "usdtBooks s \<longleftrightarrow> usdtOk s \<and> keysApart topups tu_Id s \<and> usdtLinked s"

definition usdtCredit :: "quotaRates \<Rightarrow> int \<Rightarrow> int" where
  "usdtCredit rates units = qr_Units rates units + qr_Units rates units div usdtTopUpBonusDivisor"

definition usdtWorth :: "quotaRates \<Rightarrow> string set \<Rightarrow> USDTTopUpOrder \<Rightarrow> int \<Rightarrow> int \<Rightarrow> bool" where
  "usdtWorth rates T x u a \<longleftrightarrow>
     uo_Status x = USDTTopUpStatusSettled \<and> (\<exists>tx \<in> T. uo_TxID x = Some tx) \<and> u = uo_UserID x \<and>
     a = usdtCredit rates (uo_CreditUnits x)"

abbreviation usdtVouchers :: "quotaRates \<Rightarrow> string set \<Rightarrow> vouchers" where
  "usdtVouchers rates T \<equiv> tableVouchers usdtOrders uo_ID usdtOpen (usdtWorth rates T)"

lemma linked_topup:
  assumes "usdtBooks s" "x \<in> set (usdtOrders s)" "t \<in> set (topups s)" "tu_Id t = uo_TopUpID x"
  shows "tu_Amount t = uo_CreditUnits x" "tu_PaymentProvider t = PaymentProviderUSDTTRC20"
proof -
  from assms obtain t' where t': "t' \<in> set (topups s)" "tu_Id t' = uo_TopUpID x"
    "tu_Amount t' = uo_CreditUnits x" "tu_PaymentProvider t' = PaymentProviderUSDTTRC20"
    by (auto simp: usdtBooks_def usdtLinked_def)
  with assms have "t' = t"
    by (intro distinct_key_unique [of tu_Id "topups s"]) (auto simp: usdtBooks_def keysApart_def)
  with t' show "tu_Amount t = uo_CreditUnits x" "tu_PaymentProvider t = PaymentProviderUSDTTRC20" by auto
qed

text \<open>Updates of order and top-up states keep the links.\<close>

lemma usdtLinked_updates:
  assumes "usdtLinked s"
    "\<And>x. x \<in> set (usdtOrders t) \<Longrightarrow> \<exists>y \<in> set (usdtOrders s). uo_TopUpID x = uo_TopUpID y \<and> uo_CreditUnits x = uo_CreditUnits y"
    "\<And>y. y \<in> set (topups s) \<Longrightarrow> \<exists>z \<in> set (topups t). tu_Id z = tu_Id y \<and> tu_Amount z = tu_Amount y \<and>
       tu_PaymentProvider z = tu_PaymentProvider y"
  shows "usdtLinked t"
  unfolding usdtLinked_def
proof
  fix x assume "x \<in> set (usdtOrders t)"
  then obtain y where y: "y \<in> set (usdtOrders s)" "uo_TopUpID x = uo_TopUpID y" "uo_CreditUnits x = uo_CreditUnits y"
    using assms(2) by blast
  then obtain z where "z \<in> set (topups s)" "tu_Id z = uo_TopUpID y" "tu_Amount z = uo_CreditUnits y"
    "tu_PaymentProvider z = PaymentProviderUSDTTRC20"
    using assms(1) by (auto simp: usdtLinked_def)
  with assms(3) y show "\<exists>t' \<in> set (topups t). tu_Id t' = uo_TopUpID x \<and> tu_Amount t' = uo_CreditUnits x \<and>
      tu_PaymentProvider t' = PaymentProviderUSDTTRC20"
    by metis
qed

lemma updateWhere_image:
  "y \<in> set rows \<Longrightarrow> (\<And>w. R (f w) w) \<Longrightarrow> (\<And>w. R w w) \<Longrightarrow> \<exists>z \<in> set (updateWhere P f rows). R z y"
  by (induction rows) auto

definition settledPost :: "quotaRates \<Rightarrow> int \<Rightarrow> TRC20Transfer \<Rightarrow> USDTTopUpOrder \<Rightarrow> store \<Rightarrow> store \<Rightarrow> bool" where
  "settledPost rates n tr x s t \<longleftrightarrow>
     twicePosted (uo_UserID x) (qr_Units rates (uo_CreditUnits x))
       (qr_Units rates (uo_CreditUnits x) div usdtTopUpBonusDivisor) s t \<and>
     usdtOrders t = updateWhere (\<lambda>y. uo_ID y = uo_ID x \<and> usdtOpen y) (settledOrder tr n) (usdtOrders s) \<and>
     distinct (txIDs (usdtOrders t)) \<and>
     topups t = updateWhere (\<lambda>y. tu_Id y = uo_TopUpID x \<and> tu_Status y = TopUpStatusPending)
       (\<lambda>y. y\<lparr>tu_Status := TopUpStatusSuccess, tu_CompleteTime := n\<rparr>) (topups s)"

lemma settledPost_books:
  assumes ok: "usdtBooks s" and x: "x \<in> set (usdtOrders s)" and post: "settledPost rates n tr x s t"
  shows "usdtBooks t"
proof -
  have rows: "usdtOrders t = updateWhere (\<lambda>y. uo_ID y = uo_ID x \<and> usdtOpen y) (settledOrder tr n) (usdtOrders s)"
    and tops: "topups t = updateWhere (\<lambda>y. tu_Id y = uo_TopUpID x \<and> tu_Status y = TopUpStatusPending)
       (\<lambda>y. y\<lparr>tu_Status := TopUpStatusSuccess, tu_CompleteTime := n\<rparr>) (topups s)"
    using post by (simp_all add: settledPost_def)
  have "usdtOk t"
  proof (rule usdtOk_same [of s])
    show "usdtOk s" using ok by (simp add: usdtBooks_def)
    show "list_all2 sameOrder (usdtOrders s) (usdtOrders t)"
      unfolding rows by (rule list_all2_updateWhere) (simp_all add: sameOrder_def settledOrder_def)
    show "usdtRow y" if y: "y \<in> set (usdtOrders t)" for y
    proof -
      obtain w where "w \<in> set (usdtOrders s)"
          "y = (if uo_ID w = uo_ID x \<and> usdtOpen w then settledOrder tr n w else w)"
        using y unfolding rows by (rule in_updateWhereE)
      moreover from this ok have "usdtRow w" by (simp add: usdtBooks_def usdtOk_def)
      ultimately show ?thesis by (auto simp: usdtRow_def settledOrder_def)
    qed
    show "distinct (txIDs (usdtOrders t))" using post unfolding settledPost_def by blast
  qed
  moreover have "map tu_Id (topups t) = map tu_Id (topups s)"
    unfolding tops by (rule map_updateWhere) simp
  moreover have "usdtLinked t"
  proof (rule usdtLinked_updates [of s])
    show "usdtLinked s" using ok by (simp add: usdtBooks_def)
    show "\<exists>z \<in> set (topups t). tu_Id z = tu_Id y \<and> tu_Amount z = tu_Amount y \<and>
        tu_PaymentProvider z = tu_PaymentProvider y" if "y \<in> set (topups s)" for y
      unfolding tops by (rule updateWhere_image [OF that]) simp_all
  qed (auto simp: rows set_updateWhere settledOrder_def)
  ultimately show ?thesis using ok by (simp add: usdtBooks_def keysApart_def)
qed

lemma settledPost_paying:
  assumes ok: "usdtBooks s" and x: "x \<in> set (usdtOrders s)" "usdtOpen x"
    and post: "settledPost rates n tr x s t" and T: "tr_TxID tr \<in> T"
  shows "paying (usdtVouchers rates T) usdtBooks s t"
proof (rule payingI [OF table_pays_one [where r = x and r' = "settledOrder tr n x" and u = "uo_UserID x"
      and a = "usdtCredit rates (uo_CreditUnits x)" and T = usdtOrders and key = uo_ID and P = usdtOpen]])
  have rows: "usdtOrders t = updateWhere (\<lambda>y. uo_ID y = uo_ID x \<and> usdtOpen y) (settledOrder tr n) (usdtOrders s)"
    using post by (simp add: settledPost_def)
  show "list_all2 (rowStep uo_ID usdtOpen (usdtWorth rates T)) (usdtOrders s) (usdtOrders t)"
    unfolding rows by (rule rowStep_update) (auto simp: rowStep_def settledOrder_def usdtOpen_def usdtWorth_def)
  show "settledOrder tr n x \<in> set (usdtOrders t)"
    unfolding rows using x by (auto intro!: in_updateWhere)
  show "distinct (map uo_ID (usdtOrders s))" using ok by (simp add: usdtBooks_def usdtOk_def)
  show "usdtBooks t" by (rule settledPost_books [OF ok x(1) post])
  show "balanceOf v t = map_option (\<lambda>b. b + (if v = uo_UserID x then usdtCredit rates (uo_CreditUnits x) else 0))
      (balanceOf v s)" for v
  proof -
    have "twicePosted (uo_UserID x) (qr_Units rates (uo_CreditUnits x))
       (qr_Units rates (uo_CreditUnits x) div usdtTopUpBonusDivisor) s t"
      using post unfolding settledPost_def by blast
    from balanceOf_twicePosted [OF this, of v] show ?thesis by (simp only: usdtCredit_def)
  qed
qed (use x T in \<open>simp_all add: settledOrder_def usdtOpen_def usdtWorth_def\<close>)

lemma wp_finishUSDT:
  assumes "twicePosted (uo_UserID x) (qr_Units rates (uo_CreditUnits x))
       (qr_Units rates (uo_CreditUnits x) div usdtTopUpBonusDivisor) s u"
    "topups u = topups s" "usdtOrders u = usdtOrders s" "i = uo_TopUpID x"
  shows "wp (bindE (setTopUpStatus i TopUpStatusPending TopUpStatusSuccess n) (\<lambda>rows.
             if rows \<noteq> 1 then fail ErrUSDTTopUpStateConflict
             else bindE (updateSettledOrder (uo_ID x) tr n) (\<lambda>rows.
               if rows \<noteq> 1 then fail ErrUSDTTopUpStateConflict else ret res)))
      (\<lambda>r t. case r of Inl _ \<Rightarrow> True | Inr _ \<Rightarrow> settledPost rates n tr x s t) u"
  unfolding setTopUpStatus_def updateSettledOrder_def Let_def
  using twicePosted_cong [OF assms(1)] assms(2-4) by (auto intro!: wp_intro simp: settledPost_def)

lemma wp_creditUSDTOrder:
  assumes "findRow (\<lambda>u. u_Id u = uo_UserID x \<and> \<not> u_DeletedAt u) (users s) = Some u"
    "tu_Id t0 = uo_TopUpID x" "a = qr_Units rates (uo_CreditUnits x)" "b = a div usdtTopUpBonusDivisor"
  shows "wp (creditUSDTOrder at' tr x t0 u a b)
     (\<lambda>r t. case r of Inl _ \<Rightarrow> True | Inr _ \<Rightarrow> settledPost rates (unixOf at') tr x s t) s"
  unfolding creditUSDTOrder_def Let_def
proof (rule wp_bindI [OF wp_postUSDTCredit [OF assms(1)]], goal_cases)
  case (2 p t)
  then show ?case
    unfolding assms(3,4) by (cases p) (simp only: prod.case, rule wp_finishUSDT, simp_all add: assms(2))
qed simp

lemma wp_settleCandidate:
  assumes ok: "usdtBooks s" and x: "x \<in> set (usdtOrders s)"
  shows "wp (settleCandidate rates at' tr x)
     (\<lambda>r t. case r of Inl _ \<Rightarrow> True | Inr _ \<Rightarrow> settledPost rates (unixOf at') tr x s t) s"
proof -
  have quota: "adminTopUpQuota rates t = qr_Units rates (uo_CreditUnits x)"
    if "t \<in> set (topups s)" "tu_Id t = uo_TopUpID x" for t
    using linked_topup [OF ok x that] by (simp add: adminTopUpQuota_def)
  have div: "goDiv q usdtTopUpBonusDivisor = q div usdtTopUpBonusDivisor" if "\<not> q \<le> 0" for q
    using that by (intro goDiv_nonneg) (simp_all add: usdtTopUpBonusDivisor_def)
  show ?thesis
    unfolding settleCandidate_def Let_def
    by (auto intro!: wp_intro wp_creditUSDTOrder simp: quota div)
qed

lemma keeps_loadUSDT: "keeps I (loadUSDTSettlementByTx tx)"
  unfolding loadUSDTSettlementByTx_def by (intro keeps_intro)

lemma take_2_single:
  assumes "take 2 xs = [x]"
  shows "xs = [x]"
  using assms by (cases xs rule: remdups_adj.cases) auto

lemma wp_candidates:
  assumes "\<And>x. filter (transferCandidate tr) (usdtOrders s) = [x] \<Longrightarrow> wp (settleCandidate rates now tr x) Q s"
    "Q (Inl ErrDriver) s" "Q (Inl ErrUSDTTopUpTransferMismatch) s"
    "2 \<le> length (filter (transferCandidate tr) (usdtOrders s)) \<Longrightarrow> Q (Inl ErrUSDTTopUpTransferAmbiguous) s"
  shows "wp (bindE (query (\<lambda>s. Inr (take 2 (filter (transferCandidate tr) (usdtOrders s))))) (\<lambda>candidates.
             case candidates of
               [] \<Rightarrow> fail ErrUSDTTopUpTransferMismatch
             | [order] \<Rightarrow> settleCandidate rates now tr order
             | _ \<Rightarrow> fail ErrUSDTTopUpTransferAmbiguous)) Q s"
proof -
  have "Q (Inl ErrUSDTTopUpTransferAmbiguous) s"
    if "take 2 (filter (transferCandidate tr) (usdtOrders s)) = x # y # zs" for x y zs
    using arg_cong [OF that, of length] by (intro assms(4)) simp
  moreover have "wp (settleCandidate rates now tr x) Q s"
    if "take 2 (filter (transferCandidate tr) (usdtOrders s)) = [x]" for x
    by (rule assms(1)) (rule take_2_single [OF that])
  ultimately show ?thesis
    using assms(2,3) by (auto intro!: wp_bindE split: list.splits)
qed

text \<open>The postcondition of an action that may fail anywhere and pays when it succeeds.\<close>

definition onSuccess :: "(store \<Rightarrow> bool) \<Rightarrow> err + 'a \<Rightarrow> store \<Rightarrow> bool" where
  "onSuccess P r t \<longleftrightarrow> (case r of Inl _ \<Rightarrow> True | Inr _ \<Rightarrow> P t)"

lemma onSuccess_simps [simp]: "onSuccess P (Inl e) t" "onSuccess P (Inr a) t = P t"
  by (simp_all add: onSuccess_def)

lemma onSuccess_case: "onSuccess P = (\<lambda>r t. case r of Inl _ \<Rightarrow> True | Inr _ \<Rightarrow> P t)"
  by (simp add: onSuccess_def fun_eq_iff)

lemma wp_candidatesOf:
  assumes "\<And>x. filter (transferCandidate tr) (usdtOrders s) = [x] \<Longrightarrow>
      wp (settleCandidate rates now tr x) (onSuccess P) s"
  shows "wp (bindE (query (\<lambda>s. Inr (take 2 (filter (transferCandidate tr) (usdtOrders s))))) (\<lambda>candidates.
             case candidates of
               [] \<Rightarrow> fail ErrUSDTTopUpTransferMismatch
             | [order] \<Rightarrow> settleCandidate rates now tr order
             | _ \<Rightarrow> fail ErrUSDTTopUpTransferAmbiguous)) (onSuccess P) s"
  by (rule wp_candidates [OF assms]) simp_all

lemma wp_settleUSDTTx:
  assumes ok: "usdtBooks s" and T: "tr_TxID tr \<in> T"
  shows "wp (settleUSDTTx rates now tr)
     (\<lambda>r t. case r of Inl _ \<Rightarrow> True | Inr _ \<Rightarrow> paying (usdtVouchers rates T) usdtBooks s t) s"
proof -
  note stay = paying_refl [where ok = usdtBooks, OF ok]
  have settle: "wp (settleCandidate rates now tr x) (onSuccess (paying (usdtVouchers rates T) usdtBooks s)) s"
    if "filter (transferCandidate tr) (usdtOrders s) = [x]" for x
  proof -
    from that have "x \<in> set (filter (transferCandidate tr) (usdtOrders s))" by simp
    then have x: "x \<in> set (usdtOrders s)" "usdtOpen x" by (auto simp: transferCandidate_def)
    show ?thesis
      unfolding onSuccess_case
      by (rule wp_mono [OF wp_settleCandidate [OF ok x(1)]])
         (auto intro: settledPost_paying [OF ok x _ T] split: sum.splits)
  qed
  have "wp (attempt (loadUSDTSettlementByTx (tr_TxID tr))) (\<lambda>r t. t = s) s"
    using keeps_wp [OF keeps_loadUSDT [of "\<lambda>t. t = s"]] by simp
  then show ?thesis
    unfolding settleUSDTTx_def onSuccess_case [symmetric]
  proof (rule wp_bindI)
    fix found t assume "t = s"
    then show "wp (case found of
         Inr existing \<Rightarrow>
           if \<not> settlementEvidenceMatches (se_Order existing) tr then fail ErrUSDTTopUpTransferMismatch
           else ret existing
       | Inl err \<Rightarrow>
           if err \<noteq> ErrRecordNotFound then fail err
           else bindE (query (\<lambda>s. Inr (take 2 (filter (transferCandidate tr) (usdtOrders s))))) (\<lambda>candidates.
             case candidates of
               [] \<Rightarrow> fail ErrUSDTTopUpTransferMismatch
             | [order] \<Rightarrow> settleCandidate rates now tr order
             | _ \<Rightarrow> fail ErrUSDTTopUpTransferAmbiguous)) (onSuccess (paying (usdtVouchers rates T) usdtBooks s)) t"
      by (cases found) (simp_all add: stay wp_candidatesOf [OF settle])
  qed simp
qed

lemma wp_SettleUSDTTopUp:
  assumes ok: "usdtBooks s" and T: "tr_TxID tr \<in> T"
  shows "wp (SettleUSDTTopUp rates now tr) (\<lambda>_. paying (usdtVouchers rates T) usdtBooks s) s"
proof (cases "transferValid tr")
  case True
  let ?I = "paying (usdtVouchers rates T) usdtBooks s"
  have after: "keeps ?I (bindE (case r of Inl err \<Rightarrow> recoverUSDT tr err | Inr result \<Rightarrow> ret result) (\<lambda>result.
          bindE (attempt (extern ErrCache)) (\<lambda>sync.
            case sync of
              Inl _ \<Rightarrow> ret (result, Some ErrUSDTTopUpCacheSync)
            | Inr _ \<Rightarrow> ret (result, None))))" for r
    unfolding recoverUSDT_def by (intro keeps_intro keeps_loadUSDT)
  have "wp (transaction (settleUSDTTx rates now tr)) (\<lambda>_. ?I) s"
    by (rule wp_transaction_paying [OF wp_settleUSDTTx [OF ok T] ok])
  then show ?thesis
    unfolding SettleUSDTTopUp_def
    by (simp only: True not_True_eq_False if_False) (rule wp_attempt_paying, assumption, rule keeps_wp [OF after])
qed (use paying_refl [where ok = usdtBooks, OF ok] in \<open>simp add: SettleUSDTTopUp_def\<close>)

end
