(* ===== verification/UsdtRuns.thy ===== *)
theory UsdtRuns
  imports UsdtSettle
begin

text \<open>
  Runs that mix every operation on USDT orders with settlements: the books stay linked, a
  transfer pays at most one order and an order is paid by at most one transfer, the ledger
  stays a true record, and no transfer is ambiguous when the cooldown outlasts the expiry.
\<close>

section \<open>The operations on orders pay nothing\<close>

abbreviation usdtPaid :: "quotaRates \<Rightarrow> string set \<Rightarrow> store \<Rightarrow> store \<Rightarrow> bool" where
  "usdtPaid rates T \<equiv> paying (usdtVouchers rates T) usdtBooks"

lemma usdtPaid_none:
  assumes "usdtBooks t" "list_all2 (rowStep uo_ID usdtOpen (usdtWorth rates T)) (usdtOrders s) (usdtOrders t)"
    "users t = users s"
  shows "usdtPaid rates T s t"
  by (rule payingI [OF table_pays_none]) (fact assms | rule balanceOf_users [OF assms(3)])+

lemma rowStep_all: "list_all2 (rowStep key P worth) rows rows"
  by (simp add: list_all2_same)

lemma usdtPaid_relabelled:
  assumes ok: "usdtBooks s" and P: "\<And>x. P x \<Longrightarrow> usdtOpen x"
    and st: "st \<in> {USDTTopUpStatusConfirming, USDTTopUpStatusExpired}"
  shows "usdtPaid rates T s (s\<lparr>usdtOrders := updateWhere P (withStatus st now) (usdtOrders s)\<rparr>)" (is "usdtPaid _ _ _ ?t")
proof (rule usdtPaid_none)
  have "usdtOk ?t" by (rule usdtOk_relabelled [OF _ _ P st]) (use ok in \<open>simp_all add: usdtBooks_def\<close>)
  moreover have "usdtLinked ?t"
  proof (rule usdtLinked_updates [of s])
    show "usdtLinked s" using ok by (simp add: usdtBooks_def)
    show "\<exists>z \<in> set (topups ?t). tu_Id z = tu_Id y \<and> tu_Amount z = tu_Amount y \<and>
        tu_PaymentProvider z = tu_PaymentProvider y" if "y \<in> set (topups s)" for y
      by (rule bexI [of _ y]) (use that in simp_all)
  qed (auto simp: set_updateWhere withStatus_def)
  ultimately show "usdtBooks ?t" using ok by (simp add: usdtBooks_def keysApart_def)
  show "list_all2 (rowStep uo_ID usdtOpen (usdtWorth rates T)) (usdtOrders s) (usdtOrders ?t)"
    by (simp, rule rowStep_update) (auto simp: rowStep_def withStatus_def usdtWorth_def usdtOpen_def
      dest!: P)
qed simp

lemma usdtPaid_topups:
  assumes ok: "usdtBooks s" and f: "\<And>y. tu_Id (f y) = tu_Id y \<and> tu_Amount (f y) = tu_Amount y \<and>
      tu_PaymentProvider (f y) = tu_PaymentProvider y"
  shows "usdtPaid rates T s (s\<lparr>topups := updateWhere P f (topups s)\<rparr>)" (is "usdtPaid _ _ _ ?t")
proof (rule usdtPaid_none)
  have "usdtLinked ?t"
  proof (rule usdtLinked_updates [of s])
    show "\<exists>z \<in> set (topups ?t). tu_Id z = tu_Id y \<and> tu_Amount z = tu_Amount y \<and>
        tu_PaymentProvider z = tu_PaymentProvider y" if "y \<in> set (topups s)" for y
      by (simp, rule updateWhere_image [OF that]) (simp_all add: f)
  qed (use ok in \<open>auto simp: usdtBooks_def\<close>)
  moreover have "map tu_Id (topups ?t) = map tu_Id (topups s)"
    by (simp, rule map_updateWhere) (simp add: f)
  ultimately show "usdtBooks ?t" using ok by (simp add: usdtBooks_def keysApart_def)
qed (simp_all add: rowStep_all)

lemma keeps_usdtPaid_states:
  "keeps (usdtPaid rates T s0) (CancelUSDTTopUpOrder userID tradeNo now)"
  "keeps (usdtPaid rates T s0) (AdvanceUSDTTopUpExpiryStates now grace)"
  "keeps (usdtPaid rates T s0) (ExpireUSDTTopUpOrders now)"
proof -
  have relabel: "keeps (usdtPaid rates T s0) (updateUSDTOrders P (withStatus st now))"
    if "\<And>x. P x \<Longrightarrow> usdtOpen x" "st \<in> {USDTTopUpStatusConfirming, USDTTopUpStatusExpired}" for P st now
    unfolding updateUSDTOrders_def
    by (rule keeps_payingI)
       (auto intro!: wp_intro paying_refl [where ok = usdtBooks] usdtPaid_relabelled [OF _ that])
  have expire: "keeps (usdtPaid rates T s0) (expireTopUps ids)" for ids
    unfolding expireTopUps_def
    by (rule keeps_payingI)
       (auto intro!: wp_intro paying_refl [where ok = usdtBooks] usdtPaid_topups)
  note all = keeps_order_states [of "usdtPaid rates T s0", OF relabel expire]
  show "keeps (usdtPaid rates T s0) (CancelUSDTTopUpOrder userID tradeNo now)"
    "keeps (usdtPaid rates T s0) (AdvanceUSDTTopUpExpiryStates now grace)"
    "keeps (usdtPaid rates T s0) (ExpireUSDTTopUpOrders now)"
    by (rule all; assumption)+
qed

text \<open>Creating an order: the top-up row, then the order that names it.\<close>

definition createdOrder :: "store \<Rightarrow> store \<Rightarrow> bool" where
  "createdOrder s t \<longleftrightarrow>
     users t = users s \<and> ledgers t = ledgers s \<and>
     (\<exists>tp x. topups t = topups s @ [tp] \<and> usdtOrders t = usdtOrders s @ [x] \<and>
        tu_Id tp \<notin> tu_Id ` set (topups s) \<and> uo_ID x \<notin> uo_ID ` set (usdtOrders s) \<and>
        tu_Id tp = uo_TopUpID x \<and> tu_Amount tp = uo_CreditUnits x \<and>
        tu_PaymentProvider tp = PaymentProviderUSDTTRC20)"

lemma wp_insertUSDTOrder_rows:
  "wp (insertUSDTOrder moneyOf n config x) (\<lambda>r t. case r of Inl _ \<Rightarrow> True | Inr _ \<Rightarrow> createdOrder s t) s"
  unfolding insertUSDTOrder_def createTopUp_def createUSDTOrder_def Let_def
  by (auto intro!: wp_intro simp: createdOrder_def split: sum.splits)

lemma createdOrder_cong:
  "createdOrder s t \<Longrightarrow> users s' = users s \<Longrightarrow> ledgers s' = ledgers s \<Longrightarrow> topups s' = topups s \<Longrightarrow>
   usdtOrders s' = usdtOrders s \<Longrightarrow> createdOrder s' t"
  by (simp add: createdOrder_def)

lemma wp_createUSDTOrderTx_rows:
  "wp (createUSDTOrderTx moneyOf draw uuid userID units now config)
     (\<lambda>r t. case r of Inl _ \<Rightarrow> True | Inr _ \<Rightarrow> createdOrder s t) s"
  unfolding createUSDTOrderTx_def Let_def onSuccess_case [symmetric]
proof (rule wp_bindI [OF wp_lockUSDTTopUpAmount], goal_cases)
  case (2 a t)
  have "wp (insertUSDTOrder moneyOf n config x) (onSuccess (createdOrder s)) t" for n config x
    unfolding onSuccess_case
    by (rule wp_mono [OF wp_insertUSDTOrder_rows]) (use 2 createdOrder_cong in \<open>auto split: sum.splits\<close>)
  then show ?case by (auto intro!: wp_intro split: sum.splits)
qed simp

lemma wp_conj: "wp m Q s \<Longrightarrow> wp m R s \<Longrightarrow> wp m (\<lambda>r t. Q r t \<and> R r t) s"
  by (auto simp: wp_def split: prod.splits)

lemma createdOrder_paid:
  assumes ok: "usdtBooks s" "usdtOk t" and new: "createdOrder s t"
  shows "usdtPaid rates T s t"
proof (rule payingI [where ps = "[]"])
  from new obtain tp x where rows: "topups t = topups s @ [tp]" "usdtOrders t = usdtOrders s @ [x]"
    and fresh: "tu_Id tp \<notin> tu_Id ` set (topups s)" "uo_ID x \<notin> uo_ID ` set (usdtOrders s)"
    and link: "tu_Id tp = uo_TopUpID x" "tu_Amount tp = uo_CreditUnits x"
      "tu_PaymentProvider tp = PaymentProviderUSDTTRC20"
    and us: "users t = users s"
    unfolding createdOrder_def by blast
  show "usdtBooks t"
    using ok rows fresh link by (auto simp: usdtBooks_def keysApart_def usdtLinked_def)
  show "paidOut (usdtVouchers rates T) s [] t"
    by (rule paidOut_none) (use rows fresh balanceOf_users [OF us] in
      \<open>auto simp: rowKnown_def rowsWhere_def rowWorth_def\<close>)
qed

lemma keeps_usdtPaid_create:
  "keeps (usdtPaid rates T s0) (CreateUSDTTopUpOrder moneyOf draw uuid userID units now config)"
proof (rule keeps_payingI)
  fix s assume ok: "usdtBooks s"
  let ?create = "CreateUSDTTopUpOrder moneyOf draw uuid userID units now config"
  have "wp ?create (\<lambda>_ t. t = s \<or> createdOrder s t) s"
    unfolding CreateUSDTTopUpOrder_def
    by (auto intro!: wp_transactionI [OF wp_createUSDTOrderTx_rows] split: option.splits)
  moreover have "wp ?create (\<lambda>_. usdtOk) s"
    by (rule keeps_wp [OF keeps_usdt_create]) (use ok in \<open>simp add: usdtBooks_def\<close>)
  ultimately have "wp ?create (\<lambda>r t. (t = s \<or> createdOrder s t) \<and> usdtOk t) s"
    by (rule wp_conj)
  then show "wp ?create (\<lambda>_. usdtPaid rates T s) s"
    by (rule wp_mono) (auto intro: createdOrder_paid [OF ok] paying_refl [where ok = usdtBooks] ok)
qed

section \<open>Mixed runs\<close>

datatype settlementCall = CallOrder usdtCall | CallSettle int TRC20Transfer

fun runSettlement :: "(int \<Rightarrow> float64) \<Rightarrow> quotaRates \<Rightarrow> settlementCall \<Rightarrow> (store, unit) act" where
  "runSettlement moneyOf rates (CallOrder call) = runUSDT moneyOf call"
| "runSettlement moneyOf rates (CallSettle now tr) = bindE (SettleUSDTTopUp rates now tr) (\<lambda>_. ret ())"

fun settlesIn :: "string set \<Rightarrow> settlementCall \<Rightarrow> bool" where
  "settlesIn T (CallOrder call) \<longleftrightarrow> True"
| "settlesIn T (CallSettle now tr) \<longleftrightarrow> tr_TxID tr \<in> T"

lemma wp_runSettlement:
  assumes ok: "usdtBooks s" and T: "settlesIn T call"
  shows "wp (runSettlement moneyOf rates call) (\<lambda>_. usdtPaid rates T s) s"
proof (cases call)
  case (CallOrder c)
  have "keeps (usdtPaid rates T s) (runUSDT moneyOf c)"
    by (cases c) (auto intro!: keeps_bindE keeps_usdtPaid_states keeps_usdtPaid_create keeps_ret)
  then show ?thesis
    unfolding CallOrder runSettlement.simps by (rule keeps_payingD) (rule ok)
next
  case (CallSettle now tr)
  with wp_SettleUSDTTopUp [OF ok, of tr T rates now] T show ?thesis
    unfolding CallSettle runSettlement.simps by (intro wp_then_paying) auto
qed

interpretation transfers: voucher_book "usdtVouchers rates T" usdtBooks "settlesIn T" "runSettlement moneyOf rates"
  by unfold_locales (rule wp_runSettlement)

section \<open>Settlements and the ledger\<close>

lemma wp_settleCandidate_ledger:
  assumes "ledger_ok base s"
  shows "wp (settleCandidate rates at' tr x) (onSuccess (ledger_ok base)) s"
proof -
  have credit: "wp (creditUSDTOrder at' tr x tp u a b) (onSuccess (ledger_ok base)) s"
    if u: "findRow (\<lambda>u. u_Id u = uo_UserID x \<and> \<not> u_DeletedAt u) (users s) = Some u" for tp u a b
    unfolding creditUSDTOrder_def Let_def
  proof (rule wp_bindI [OF wp_postUSDTCredit [OF u]], goal_cases)
    case (2 p t)
    then have "ledger_ok base t" by (auto intro: ledger_ok_twicePosted [OF assms])
    then have "ledger_ok base (t\<lparr>topups := ts, usdtOrders := xs\<rparr>)" for ts xs by (simp add: ledger_ok_def)
    then show ?case
      by (cases p) (auto intro!: wp_intro simp: setTopUpStatus_def updateSettledOrder_def Let_def)
  qed simp
  show ?thesis
    unfolding settleCandidate_def Let_def by (auto intro!: wp_intro credit)
qed

lemma keeps_ledger_settle: "keeps (ledger_ok base) (SettleUSDTTopUp rates now tr)"
proof -
  have "keeps (ledger_ok base) (transaction (settleUSDTTx rates now tr))"
  proof (rule keepsI, rule wp_transactionI [where P = "onSuccess (ledger_ok base)"])
    fix s assume ok: "ledger_ok base s"
    have "wp (attempt (loadUSDTSettlementByTx (tr_TxID tr))) (\<lambda>r t. t = s) s"
      using keeps_wp [OF keeps_loadUSDT [of "\<lambda>t. t = s"]] by simp
    then show "wp (settleUSDTTx rates now tr) (onSuccess (ledger_ok base)) s"
      unfolding settleUSDTTx_def
    proof (rule wp_bindI, goal_cases)
      case (2 found t)
      with ok show ?case
        by (cases found) (simp_all add: wp_candidatesOf [OF wp_settleCandidate_ledger])
    qed simp
  qed simp_all
  then show ?thesis
    unfolding SettleUSDTTopUp_def recoverUSDT_def
    by (intro keeps_if keeps_bindE keeps_fail keeps_ret keeps_attempt keeps_extern keeps_case_sum keeps_loadUSDT)
qed

lemma keeps_ledger_usdt:
  "keeps (ledger_ok base) (CancelUSDTTopUpOrder userID tradeNo now)"
  "keeps (ledger_ok base) (AdvanceUSDTTopUpExpiryStates now grace)"
  "keeps (ledger_ok base) (ExpireUSDTTopUpOrders now)"
  "keeps (ledger_ok base) (CreateUSDTTopUpOrder moneyOf draw uuid userID units now config)"
proof -
  have relabel: "keeps (ledger_ok base) (updateUSDTOrders P (withStatus st now))" for P st now
    unfolding updateUSDTOrders_def by (rule keepsI) (auto intro!: wp_intro simp: ledger_ok_def)
  have expire: "keeps (ledger_ok base) (expireTopUps ids)" for ids
    unfolding expireTopUps_def by (rule keepsI) (auto intro!: wp_intro simp: ledger_ok_def)
  show "keeps (ledger_ok base) (CancelUSDTTopUpOrder userID tradeNo now)"
    "keeps (ledger_ok base) (AdvanceUSDTTopUpExpiryStates now grace)"
    "keeps (ledger_ok base) (ExpireUSDTTopUpOrders now)"
    by (rule keeps_order_states [OF relabel expire])+
  show "keeps (ledger_ok base) (CreateUSDTTopUpOrder moneyOf draw uuid userID units now config)"
  proof (rule keepsI)
    fix s assume ok: "ledger_ok base s"
    have "wp (transaction (createUSDTOrderTx moneyOf draw uuid userID units now config)) (\<lambda>_ t. t = s \<or> createdOrder s t) s"
      by (rule wp_transactionI [OF wp_createUSDTOrderTx_rows]) auto
    then have "wp (transaction (createUSDTOrderTx moneyOf draw uuid userID units now config)) (\<lambda>_. ledger_ok base) s"
      by (rule wp_mono) (use ok in \<open>auto simp: createdOrder_def ledger_ok_def\<close>)
    with ok show "wp (CreateUSDTTopUpOrder moneyOf draw uuid userID units now config) (\<lambda>_. ledger_ok base) s"
      by (simp add: CreateUSDTTopUpOrder_def split: option.splits)
  qed
qed

lemma keeps_ledger_runUSDT: "keeps (ledger_ok base) (runUSDT moneyOf call)"
  by (cases call) (auto intro!: keeps_bindE keeps_ret keeps_ledger_usdt)

lemma keeps_ledger_runSettlement: "keeps (ledger_ok base) (runSettlement moneyOf rates call)"
  by (cases call) (auto intro!: keeps_bindE keeps_ret keeps_ledger_settle keeps_ledger_runUSDT)

section \<open>Properties\<close>

definition transferIDs :: "settlementCall list \<Rightarrow> string set" where
  "transferIDs calls = {tr_TxID tr |now tr. CallSettle now tr \<in> set calls}"

lemma settlesIn_transferIDs: "list_all (settlesIn (transferIDs calls)) calls"
proof -
  have "settlesIn (transferIDs calls) call" if "call \<in> set calls" for call
  proof (cases call)
    case (CallSettle now tr)
    then have "tr_TxID tr \<in> transferIDs calls" using that unfolding transferIDs_def by blast
    with CallSettle show ?thesis by simp
  qed simp
  then show ?thesis by (simp add: list_all_iff)
qed

lemma finite_transferIDs: "finite (transferIDs calls)"
proof (rule finite_subset)
  show "transferIDs calls \<subseteq> (\<lambda>call. case call of CallSettle now tr \<Rightarrow> tr_TxID tr) ` set calls"
    by (force simp: transferIDs_def)
qed simp

lemma txIDs_mem: "x \<in> set rows \<Longrightarrow> uo_TxID x = Some tx \<Longrightarrow> tx \<in> set (txIDs rows)"
  by (force simp: txIDs_def)

lemma txIDs_unique:
  "distinct (txIDs rows) \<Longrightarrow> x \<in> set rows \<Longrightarrow> y \<in> set rows \<Longrightarrow> uo_TxID x = Some tx \<Longrightarrow> uo_TxID y = Some tx \<Longrightarrow> x = y"
proof (induction rows)
  case (Cons r rows)
  have "txIDs (r # rows) = (case uo_TxID r of None \<Rightarrow> [] | Some t \<Rightarrow> [t]) @ txIDs rows"
    by (simp add: txIDs_def)
  with Cons show ?case by (auto dest: txIDs_mem)
qed simp

text \<open>Payments of a well-formed table name different transfers.\<close>

lemma payments_le_transfers:
  assumes "paidOut (usdtVouchers rates T) s ps t" "usdtBooks t" "finite T"
  shows "length ps \<le> card T"
proof -
  let ?row = "\<lambda>v x. x \<in> set (usdtOrders t) \<and> uo_ID x = v \<and> (\<exists>tx \<in> T. uo_TxID x = Some tx)"
  have row: "\<exists>x. ?row v x" if v: "v \<in> fst ` set ps" for v
  proof -
    from v obtain u a where "(v, u, a) \<in> set ps" by force
    then have "vo_worth (usdtVouchers rates T) t v u a"
      using assms(1) unfolding paidOut_def by blast
    then have "rowWorth uo_ID (usdtWorth rates T) (usdtOrders t) v u a" by simp
    then show ?thesis unfolding rowWorth_def usdtWorth_def by blast
  qed
  then obtain f where "\<forall>v \<in> fst ` set ps. ?row v (f v)"
    using bchoice [of "fst ` set ps" ?row] by blast
  then have f: "f v \<in> set (usdtOrders t)" "uo_ID (f v) = v" "\<exists>tx \<in> T. uo_TxID (f v) = Some tx"
    if "v \<in> fst ` set ps" for v
    using that by blast+
  have "inj_on (\<lambda>v. the (uo_TxID (f v))) (fst ` set ps)"
  proof (rule inj_onI)
    fix v w assume v: "v \<in> fst ` set ps" and w: "w \<in> fst ` set ps"
      and eq: "the (uo_TxID (f v)) = the (uo_TxID (f w))"
    obtain tx where tx: "uo_TxID (f v) = Some tx" using f(3) [OF v] by blast
    obtain tx' where tx': "uo_TxID (f w) = Some tx'" using f(3) [OF w] by blast
    have "distinct (txIDs (usdtOrders t))" using assms(2) by (simp add: usdtBooks_def usdtOk_def)
    moreover from eq tx tx' have "uo_TxID (f w) = Some tx" by simp
    ultimately have "f v = f w" using txIDs_unique [OF _ f(1) [OF v] f(1) [OF w] tx] by blast
    then show "v = w" by (metis f(2) v w)
  qed
  moreover have "(\<lambda>v. the (uo_TxID (f v))) ` fst ` set ps \<subseteq> T"
  proof (rule image_subsetI)
    fix v assume "v \<in> fst ` set ps"
    from f(3) [OF this] obtain tx where "tx \<in> T" "uo_TxID (f v) = Some tx" by blast
    then show "the (uo_TxID (f v)) \<in> T" by simp
  qed
  ultimately have "card (fst ` set ps) \<le> card T" using assms(3) by (rule card_inj_on_le)
  moreover have "card (fst ` set ps) = length ps"
    using assms(1) distinct_card [of "map fst ps"] by (simp add: paidOut_def)
  ultimately show ?thesis by simp
qed

text \<open>
  C28. A transfer is settled at most once and an order is paid by at most one transfer: whatever
  creations, cancellations, sweeps and settlements follow one another, in any order and with any
  failures, the balances move exactly by a list of payments for different orders, each the units
  of the order plus the bonus to the order's user, and there are at most as many payments as
  different transfers were presented, however often each was.
\<close>

theorem transfers_settle_once:
  assumes "usdtBooks (db c)"
  shows "\<exists>ps. length ps \<le> card (transferIDs calls) \<and>
      paidOut (usdtVouchers rates (transferIDs calls)) (db c) ps
        (db (snd (runAll (map (runSettlement moneyOf rates) calls) c)))"
  using transfers.runs_pay [OF assms settlesIn_transferIDs] transfers.runs_keep [OF assms settlesIn_transferIDs]
    payments_le_transfers [OF _ _ finite_transferIDs] by blast

text \<open>
  C29. The tables stay well typed: after any such run every order has one of the five states, a
  suffix between 1 and 99, the exact amount its units and suffix give within \<open>int64\<close>, a transfer
  id exactly when it is settled and a top-up row of its own with the same units, and no two
  orders share an id, a trade number or a transfer.
\<close>

theorem usdt_tables_well_typed:
  assumes "usdtBooks (db c)"
  shows "usdtBooks (db (snd (runAll (map (runSettlement moneyOf rates) calls) c)))"
  by (rule transfers.runs_keep [OF assms settlesIn_transferIDs])

text \<open>Two open orders with a transfer's amount: only at the instant the first one's expiry and cooldown meet.\<close>

lemma candidates_boundary:
  assumes rows: "\<forall>x \<in> set rows. usdtRow x" and apart: "sorted_wrt usdtApart rows"
    and two: "2 \<le> length (filter (transferCandidate tr) rows)"
  shows "\<exists>x \<in> set rows. uo_CooldownUntil x = uo_ExpiresAt x \<and> tr_BlockTimestampMS tr = uo_ExpiresAt x * 1000"
proof -
  obtain x y zs where f: "filter (transferCandidate tr) rows = x # y # zs"
    using two by (cases "filter (transferCandidate tr) rows" rule: remdups_adj.cases) auto
  have mem: "x \<in> set rows" "y \<in> set rows" "transferCandidate tr x" "transferCandidate tr y"
    using arg_cong [OF f, of set] by auto
  have "sorted_wrt usdtApart (x # y # zs)"
    using sorted_wrt_filter [OF apart, of "transferCandidate tr"] by (simp only: f)
  then have ap: "usdtApart x y" by simp
  have "uo_CreditUnits x * 1000000 + uo_SuffixCents x * 10000 = uo_CreditUnits y * 1000000 + uo_SuffixCents y * 10000"
    using mem rows by (auto simp: transferCandidate_def usdtRow_def)
  then have "uo_CreditUnits x = uo_CreditUnits y \<and> uo_SuffixCents x = uo_SuffixCents y"
    by (rule exact_amount_inject) (use mem rows in \<open>auto simp: usdtRow_def\<close>)
  with ap have "uo_CooldownUntil x \<le> uo_CreatedAt y" by (simp add: usdtApart_def)
  with mem rows have "uo_CooldownUntil x = uo_ExpiresAt x \<and> tr_BlockTimestampMS tr = uo_ExpiresAt x * 1000"
    by (auto simp: transferCandidate_def usdtRow_def)
  with mem show ?thesis by blast
qed

text \<open>
  C30. A transfer meets at most one open order: in every table the operations can reach, two
  orders qualify for one transfer only if an earlier one was made with a cooldown no longer than
  its lifetime and the transfer's block has exactly the second of that expiry.
\<close>

theorem transfers_unambiguous:
  assumes "usdtBooks (db c)"
    "2 \<le> length (filter (transferCandidate tr)
      (usdtOrders (db (snd (runAll (map (runSettlement moneyOf rates) calls) c)))))"
  shows "\<exists>x \<in> set (usdtOrders (db (snd (runAll (map (runSettlement moneyOf rates) calls) c)))).
      uo_CooldownUntil x = uo_ExpiresAt x \<and> tr_BlockTimestampMS tr = uo_ExpiresAt x * 1000"
  using transfers.runs_keep [OF assms(1) settlesIn_transferIDs] assms(2)
  by (intro candidates_boundary) (simp_all add: usdtBooks_def usdtOk_def)

definition demoTransfer :: TRC20Transfer where
  "demoTransfer =
     \<lparr>tr_TxID = ''tx'', tr_From = ''F'', tr_To = ''A'', tr_ContractAddress = ''C'', tr_AmountMicros = 10420000,
      tr_BlockTimestampMS = 500000\<rparr>"

definition demoUsdtConn :: "store conn" where
  "demoUsdtConn =
     \<lparr>db = demoStore\<lparr>usdtOrders := [demoUSDT],
        topups := [demoTopUp\<lparr>tu_Amount := 10, tu_PaymentProvider := ''usdt_trc20''\<rparr>]\<rparr>, faults = []\<rparr>"

lemma usdtBooks_demo: "usdtBooks (db demoUsdtConn)"
  by (simp add: usdtBooks_def usdtOk_def usdtRow_def usdtLinked_def keysApart_def demoUsdtConn_def demoUSDT_def
      demoTopUp_def MaxInt64_def txIDs_def)

lemma demoTransfer_simps:
  "transferValid demoTransfer" "tr_TxID demoTransfer = ''tx''" "tr_From demoTransfer = ''F''"
  "tr_To demoTransfer = ''A''" "tr_ContractAddress demoTransfer = ''C''"
  "tr_AmountMicros demoTransfer = 10420000" "tr_BlockTimestampMS demoTransfer = 500000"
  by (code_simp, simp_all add: demoTransfer_def)

theorem transfers_settle_once_witness:
  "\<exists>ps. length ps \<le> card (transferIDs [CallSettle 600000000000 demoTransfer, CallSettle 601000000000 demoTransfer]) \<and>
      paidOut (usdtVouchers demoRates (transferIDs [CallSettle 600000000000 demoTransfer, CallSettle 601000000000 demoTransfer]))
        (db demoUsdtConn) ps
        (db (snd (runAll (map (runSettlement (\<lambda>_. 0) demoRates)
          [CallSettle 600000000000 demoTransfer, CallSettle 601000000000 demoTransfer]) demoUsdtConn)))"
  by (rule transfers_settle_once [OF usdtBooks_demo])

theorem usdt_tables_well_typed_witness:
  "usdtBooks (db (snd (runAll (map (runSettlement (\<lambda>_. 0) demoRates)
      [CallSettle 600000000000 demoTransfer, CallOrder (CallExpire 900000000000)]) demoUsdtConn)))"
  by (rule usdt_tables_well_typed [OF usdtBooks_demo])

text \<open>Two orders of 10.42 whose reservations touch at second 700.\<close>

definition touchingOrders :: "store conn" where
  "touchingOrders =
     \<lparr>db = demoStore\<lparr>
        usdtOrders := [demoUSDT\<lparr>uo_CooldownUntil := 700\<rparr>,
          demoUSDT\<lparr>uo_ID := 2, uo_TopUpID := 5, uo_TradeNo := ''USDT7b'', uo_CreatedAt := 700,
            uo_ExpiresAt := 1300, uo_CooldownUntil := 1300\<rparr>],
        topups := [demoTopUp\<lparr>tu_Amount := 10, tu_PaymentProvider := ''usdt_trc20''\<rparr>,
          demoTopUp\<lparr>tu_Id := 5, tu_Amount := 10, tu_PaymentProvider := ''usdt_trc20'', tu_TradeNo := ''USDT7b''\<rparr>]\<rparr>,
      faults = []\<rparr>"

lemma usdtBooks_touching: "usdtBooks (db touchingOrders)"
  by (simp add: usdtBooks_def usdtOk_def usdtRow_def usdtLinked_def keysApart_def touchingOrders_def demoUSDT_def
      demoTopUp_def MaxInt64_def txIDs_def usdtApart_def)

theorem transfers_unambiguous_witness:
  "length (filter (transferCandidate (demoTransfer\<lparr>tr_BlockTimestampMS := 700000\<rparr>)) (usdtOrders (db touchingOrders))) = 2 \<and>
   (\<exists>x \<in> set (usdtOrders (db touchingOrders)). uo_CooldownUntil x = uo_ExpiresAt x \<and> 700000 = uo_ExpiresAt x * 1000)"
proof -
  have two: "length (filter (transferCandidate (demoTransfer\<lparr>tr_BlockTimestampMS := 700000\<rparr>)) (usdtOrders (db touchingOrders))) = 2"
    by (simp add: touchingOrders_def demoUSDT_def demoTransfer_def transferCandidate_def usdtOpen_def)
  with transfers_unambiguous [OF usdtBooks_touching, of "demoTransfer\<lparr>tr_BlockTimestampMS := 700000\<rparr>" "\<lambda>_. 0" demoRates "[]"]
  show ?thesis by simp
qed

end
