(* ===== verification/RefundPlan.thy ===== *)
theory RefundPlan
  imports Database "HOL-Library.List_Lexorder" "HOL-Library.Char_ord" "HOL-Library.Multiset"
begin

text \<open>
  The amount of a supplier refund, \<open>server/model/ztapi_supplier_refund_amount.go\<close>: what a full
  or a partial reversal of a charge gives back, dimension by dimension, from the units of the
  original charge, the units reversed so far and those reversed now.

  A \<open>big.Rat\<close> is a \<open>rat\<close>. The maps by dimension name are the lists they are built from, whose
  names are checked to be distinct; every failure is the same error, so the order in which a
  map is walked does not matter, and the progress is sorted in the end.
\<close>

record ZTAPISupplierRefundDimension =
  sd_Dimension :: string
  sd_Units :: string
  sd_UnitQuota :: string
  sd_ChargedQuota :: int
  sd_TokenChargedQuota :: int

record ZTAPISupplierRefundUnits =
  su_Dimension :: string
  su_Units :: string

record ZTAPISupplierRefundProgress =
  sg_Dimension :: string
  sg_Units :: string
  sg_Quota :: int
  sg_TokenQuota :: int

record ztapiSupplierRefundPlan =
  pl_Quota :: int
  pl_TokenQuota :: int
  pl_Progress :: "ZTAPISupplierRefundProgress list"

section \<open>Numbers\<close>

text \<open>\<open>^[0-9]{1,30}(\.[0-9]{1,18})?$\<close>: the integer digits and, after a point, the fraction.\<close>

definition integerPart :: "string \<Rightarrow> string" where "integerPart s = takeWhile (\<lambda>c. c \<noteq> CHR ''.'') s"
definition afterInteger :: "string \<Rightarrow> string" where "afterInteger s = dropWhile (\<lambda>c. c \<noteq> CHR ''.'') s"

definition ztapiSupplierRefundDecimal :: "string \<Rightarrow> bool" where
  "ztapiSupplierRefundDecimal s \<longleftrightarrow>
     decimalDigits (integerPart s) \<and> length (integerPart s) \<le> 30 \<and>
     (afterInteger s = [] \<or> decimalDigits (tl (afterInteger s)) \<and> length (tl (afterInteger s)) \<le> 18)"

definition ztapiSupplierRefundNumber :: "string \<Rightarrow> rat option" where
  "ztapiSupplierRefundNumber s =
     (if \<not> ztapiSupplierRefundDecimal s then None
      else let fraction = tl (afterInteger s) in
        Some (of_nat (readNat (integerPart s @ fraction)) / 10 ^ length fraction))"

definition ztapiSupplierRefundTarget :: "rat \<Rightarrow> rat \<Rightarrow> rat \<Rightarrow> int \<Rightarrow> int" where
  "ztapiSupplierRefundTarget units original rate allocated =
     (if units = original then allocated
      else let whole = \<lfloor>units * rate\<rfloor> in
        if \<not> int64Range whole \<or> whole > allocated then allocated else whole)"

text \<open>\<open>FloatString(18)\<close> of a number with at most 18 decimals.\<close>

definition floatString18 :: "rat \<Rightarrow> string" where
  "floatString18 r =
     (let scaled = nat \<lfloor>r * 10 ^ 18\<rfloor>;
          fraction = showNat (scaled mod 10 ^ 18)
      in showNat (scaled div 10 ^ 18) @ ''.'' @ replicate (18 - length fraction) (CHR ''0'') @ fraction)"

section \<open>The plan\<close>

definition refundDimensionOk :: "int \<Rightarrow> ZTAPISupplierRefundDimension \<Rightarrow> bool" where
  "refundDimensionOk charge d \<longleftrightarrow>
     (case (ztapiSupplierRefundNumber (sd_Units d), ztapiSupplierRefundNumber (sd_UnitQuota d)) of
        (Some units, Some rate) \<Rightarrow>
          sd_Dimension d \<noteq> [] \<and> length (sd_Dimension d) \<le> 128 \<and> units > 0 \<and>
          0 \<le> sd_ChargedQuota d \<and> sd_ChargedQuota d \<le> charge \<and>
          0 \<le> sd_TokenChargedQuota d \<and> sd_TokenChargedQuota d \<le> sd_ChargedQuota d \<and>
          (let whole = \<lfloor>units * rate\<rfloor> in
           int64Range whole \<and> whole \<le> sd_ChargedQuota d \<and> sd_ChargedQuota d - whole \<le> 1)
      | _ \<Rightarrow> False)"

definition dimensionOf :: "ZTAPISupplierRefundDimension list \<Rightarrow> string \<Rightarrow> ZTAPISupplierRefundDimension option" where
  "dimensionOf dims name = List.find (\<lambda>d. sd_Dimension d = name) dims"

definition refundProgressOk ::
  "ZTAPISupplierRefundDimension list \<Rightarrow> ZTAPISupplierRefundProgress \<Rightarrow> bool" where
  "refundProgressOk dims p \<longleftrightarrow>
     (case (dimensionOf dims (sg_Dimension p), ztapiSupplierRefundNumber (sg_Units p)) of
        (Some d, Some units) \<Rightarrow>
          (case (ztapiSupplierRefundNumber (sd_Units d), ztapiSupplierRefundNumber (sd_UnitQuota d)) of
             (Some original, Some rate) \<Rightarrow>
               units \<le> original \<and> 0 \<le> sg_Quota p \<and> sg_Quota p \<le> sd_ChargedQuota d \<and>
               0 \<le> sg_TokenQuota p \<and> sg_TokenQuota p \<le> sd_TokenChargedQuota d \<and>
               sg_Quota p = ztapiSupplierRefundTarget units original rate (sd_ChargedQuota d) \<and>
               \<not> (sd_TokenChargedQuota d = sd_ChargedQuota d \<and> sg_TokenQuota p \<noteq> sg_Quota p \<or>
                  sd_TokenChargedQuota d = 0 \<and> sg_TokenQuota p \<noteq> 0)
           | _ \<Rightarrow> False)
      | _ \<Rightarrow> False)"

definition refundLineOk :: "ZTAPISupplierRefundDimension list \<Rightarrow> ZTAPISupplierRefundUnits \<Rightarrow> bool" where
  "refundLineOk dims line \<longleftrightarrow>
     dimensionOf dims (su_Dimension line) \<noteq> None \<and>
     (case ztapiSupplierRefundNumber (su_Units line) of None \<Rightarrow> False | Some units \<Rightarrow> units > 0)"

definition progressOf :: "ZTAPISupplierRefundProgress list \<Rightarrow> string \<Rightarrow> ZTAPISupplierRefundProgress" where
  "progressOf previous name =
     (case List.find (\<lambda>p. sg_Dimension p = name) previous of
        Some p \<Rightarrow> p
      | None \<Rightarrow> \<lparr>sg_Dimension = name, sg_Units = ''0'', sg_Quota = 0, sg_TokenQuota = 0\<rparr>)"

definition requestedUnits :: "ZTAPISupplierRefundUnits list \<Rightarrow> string \<Rightarrow> rat option" where
  "requestedUnits lines name =
     (case List.find (\<lambda>l. su_Dimension l = name) lines of
        None \<Rightarrow> None | Some l \<Rightarrow> ztapiSupplierRefundNumber (su_Units l))"

text \<open>One dimension of the plan: its progress after the refund, or no plan at all.\<close>

definition planDimension ::
  "bool \<Rightarrow> rat option \<Rightarrow> ZTAPISupplierRefundProgress \<Rightarrow> ZTAPISupplierRefundDimension \<Rightarrow>
   ZTAPISupplierRefundProgress option" where
  "planDimension full requested old d =
     (case (ztapiSupplierRefundNumber (sg_Units old), ztapiSupplierRefundNumber (sd_Units d),
            ztapiSupplierRefundNumber (sd_UnitQuota d)) of
        (Some sofar, Some original, Some rate) \<Rightarrow>
          (let units = (if full then original
                        else case requested of Some delta \<Rightarrow> sofar + delta | None \<Rightarrow> sofar);
               quota = ztapiSupplierRefundTarget units original rate (sd_ChargedQuota d)
           in if units > original then None
              else case (if sd_TokenChargedQuota d = sd_ChargedQuota d then Some quota
                         else if units = original then Some (sd_TokenChargedQuota d)
                         else if sd_TokenChargedQuota d \<noteq> 0 \<and> requested \<noteq> None then None
                         else Some (sg_TokenQuota old)) of
                  None \<Rightarrow> None
                | Some tokenQuota \<Rightarrow>
                    if quota < sg_Quota old \<or> tokenQuota < sg_TokenQuota old then None
                    else Some \<lparr>sg_Dimension = sd_Dimension d, sg_Units = floatString18 units,
                               sg_Quota = quota, sg_TokenQuota = tokenQuota\<rparr>)
      | _ \<Rightarrow> None)"

text \<open>The checks of the arguments, of the evidence, and all dimensions together.\<close>

definition refundArgumentsOk :: "int \<Rightarrow> int \<Rightarrow> string \<Rightarrow> ZTAPISupplierRefundUnits list \<Rightarrow> bool" where
  "refundArgumentsOk charge tokenCharge mode lines \<longleftrightarrow>
     \<not> (charge < 0 \<or> charge > MaxInt32 \<or> tokenCharge < 0 \<or> tokenCharge > charge \<or>
        (mode \<noteq> ''full'' \<and> mode \<noteq> ''partial'') \<or> (mode = ''full'' \<and> lines \<noteq> []) \<or>
        (mode = ''partial'' \<and> lines = []))"

definition refundEvidenceOk ::
  "int \<Rightarrow> int \<Rightarrow> ZTAPISupplierRefundDimension list \<Rightarrow> ZTAPISupplierRefundProgress list \<Rightarrow>
   ZTAPISupplierRefundUnits list \<Rightarrow> bool" where
  "refundEvidenceOk charge tokenCharge dimensions previous lines \<longleftrightarrow>
     list_all (refundDimensionOk charge) dimensions \<and> distinct (map sd_Dimension dimensions) \<and>
     sum_list (map sd_ChargedQuota dimensions) = charge \<and>
     sum_list (map sd_TokenChargedQuota dimensions) = tokenCharge \<and>
     list_all (refundProgressOk dimensions) previous \<and> distinct (map sg_Dimension previous) \<and>
     list_all (refundLineOk dimensions) lines \<and> distinct (map su_Dimension lines)"

definition planDimensions ::
  "ZTAPISupplierRefundDimension list \<Rightarrow> ZTAPISupplierRefundProgress list \<Rightarrow> string \<Rightarrow>
   ZTAPISupplierRefundUnits list \<Rightarrow> ZTAPISupplierRefundProgress list option" where
  "planDimensions dimensions previous mode lines =
     those (map (\<lambda>d. planDimension (mode = ''full'') (requestedUnits lines (sd_Dimension d))
                        (progressOf previous (sd_Dimension d)) d) dimensions)"

definition planOf ::
  "ZTAPISupplierRefundProgress list \<Rightarrow> ZTAPISupplierRefundProgress list \<Rightarrow> ztapiSupplierRefundPlan" where
  "planOf previous progress =
     \<lparr>pl_Quota = sum_list (map (\<lambda>p. sg_Quota p - sg_Quota (progressOf previous (sg_Dimension p))) progress),
      pl_TokenQuota =
        sum_list (map (\<lambda>p. sg_TokenQuota p - sg_TokenQuota (progressOf previous (sg_Dimension p))) progress),
      pl_Progress = sort_key sg_Dimension progress\<rparr>"

definition planZTAPISupplierRefund ::
  "int \<Rightarrow> int \<Rightarrow> ZTAPISupplierRefundDimension list \<Rightarrow> ZTAPISupplierRefundProgress list \<Rightarrow> string \<Rightarrow>
   ZTAPISupplierRefundUnits list \<Rightarrow> err + ztapiSupplierRefundPlan" where
  "planZTAPISupplierRefund charge tokenCharge dimensions previous mode lines =
     (if \<not> refundArgumentsOk charge tokenCharge mode lines then Inl ErrZTAPISupplierRefundEvidence
      else if dimensions = [] then
        (if charge = 0 \<and> tokenCharge = 0 \<and> mode = ''full'' \<and> previous = []
         then Inr \<lparr>pl_Quota = 0, pl_TokenQuota = 0, pl_Progress = []\<rparr>
         else Inl ErrZTAPISupplierRefundEvidence)
      else if \<not> refundEvidenceOk charge tokenCharge dimensions previous lines
      then Inl ErrZTAPISupplierRefundEvidence
      else
        case planDimensions dimensions previous mode lines of
          None \<Rightarrow> Inl ErrZTAPISupplierRefundEvidence
        | Some progress \<Rightarrow> Inr (planOf previous progress))"

section \<open>What a plan adds up to\<close>

lemma those_map_Some:
  "those (map f xs) = Some ys \<Longrightarrow> list_all2 (\<lambda>x y. f x = Some y) xs ys"
  by (induction xs arbitrary: ys) (auto split: option.splits)

lemma planDimension_Some:
  assumes "planDimension full req old d = Some p"
  shows "sg_Dimension p = sd_Dimension d" "sg_Quota old \<le> sg_Quota p" "sg_TokenQuota old \<le> sg_TokenQuota p"
    "sg_Quota p \<le> sd_ChargedQuota d"
    "sg_TokenQuota old \<le> sd_TokenChargedQuota d \<Longrightarrow> sd_TokenChargedQuota d \<le> sd_ChargedQuota d \<Longrightarrow>
       sg_TokenQuota p \<le> sd_TokenChargedQuota d"
    "full \<Longrightarrow> sg_Quota p = sd_ChargedQuota d \<and> sg_TokenQuota p = sd_TokenChargedQuota d"
  using assms
  by (auto simp: planDimension_def Let_def ztapiSupplierRefundTarget_def split: option.splits if_splits)

text \<open>The previous progress, summed by dimension.\<close>

lemma progressOf_Cons:
  "progressOf (p # ps) n = (if sg_Dimension p = n then p else progressOf ps n)"
  by (simp add: progressOf_def)

lemma progressOf_missing:
  "n \<notin> sg_Dimension ` set ps \<Longrightarrow>
   progressOf ps n = \<lparr>sg_Dimension = n, sg_Units = ''0'', sg_Quota = 0, sg_TokenQuota = 0\<rparr>"
  by (induction ps) (auto simp: progressOf_def)

lemma sum_progressOf:
  assumes "distinct (map sg_Dimension ps)" "sg_Dimension ` set ps \<subseteq> set names" "distinct names"
    and f: "\<And>n. f \<lparr>sg_Dimension = n, sg_Units = ''0'', sg_Quota = 0, sg_TokenQuota = 0\<rparr> = (0 :: int)"
  shows "sum_list (map (\<lambda>n. f (progressOf ps n)) names) = sum_list (map f ps)"
  using assms(1,2)
proof (induction ps)
  case Nil
  then show ?case by (simp add: progressOf_def f)
next
  case (Cons p ps)
  let ?n = "sg_Dimension p" and ?g = "\<lambda>n. f (progressOf ps n)"
  have missing: "?g ?n = 0" using Cons.prems(1) by (simp add: progressOf_missing f)
  have n: "?n \<in> set names" using Cons.prems(2) by simp
  have "sum_list (map (\<lambda>n. f (progressOf (p # ps) n)) names) = (\<Sum>n\<in>set names. f (progressOf (p # ps) n))"
    using assms(3) by (rule sum_list_distinct_conv_sum_set)
  also have "\<dots> = f p + (\<Sum>n\<in>set names - {?n}. f (progressOf (p # ps) n))"
    by (subst sum.remove [OF _ n]) (simp_all add: progressOf_Cons)
  also have "(\<Sum>n\<in>set names - {?n}. f (progressOf (p # ps) n)) = (\<Sum>n\<in>set names - {?n}. ?g n)"
    by (rule sum.cong) (auto simp: progressOf_Cons)
  also have "\<dots> = (\<Sum>n\<in>set names. ?g n)"
    using sum.remove [OF finite_set n, of ?g] missing by simp
  also have "\<dots> = sum_list (map ?g names)"
    using assms(3) by (rule sum_list_distinct_conv_sum_set [symmetric])
  finally show ?case using Cons by simp
qed

text \<open>An accepted request, taken apart.\<close>

lemma planE:
  assumes "planZTAPISupplierRefund charge tok dims prev mode lines = Inr plan" "dims \<noteq> []"
  obtains progress where "refundEvidenceOk charge tok dims prev lines" "plan = planOf prev progress"
    "list_all2 (\<lambda>d p. planDimension (mode = ''full'') (requestedUnits lines (sd_Dimension d))
        (progressOf prev (sd_Dimension d)) d = Some p) dims progress"
proof -
  from assms have ok: "refundEvidenceOk charge tok dims prev lines"
    by (simp add: planZTAPISupplierRefund_def split: if_splits)
  with assms obtain progress where "planDimensions dims prev mode lines = Some progress" "plan = planOf prev progress"
    by (auto simp: planZTAPISupplierRefund_def split: if_splits option.splits)
  with that [OF ok] those_map_Some show thesis unfolding planDimensions_def by blast
qed

lemma sum_diff_list:
  "sum_list (map (\<lambda>x. f x - g x) xs) = sum_list (map f xs) - (sum_list (map g xs) :: int)"
  by (induction xs) auto

lemma sum_list_all2_le:
  "list_all2 R xs ys \<Longrightarrow> (\<And>x y. x \<in> set xs \<Longrightarrow> R x y \<Longrightarrow> g y \<le> (f x :: int)) \<Longrightarrow>
   sum_list (map g ys) \<le> sum_list (map f xs)"
  by (induction rule: list_all2_induct) (auto intro!: add_mono)

lemma sum_list_all2_eq:
  "list_all2 R xs ys \<Longrightarrow> (\<And>x y. x \<in> set xs \<Longrightarrow> R x y \<Longrightarrow> g y = (f x :: int)) \<Longrightarrow>
   sum_list (map g ys) = sum_list (map f xs)"
  by (induction rule: list_all2_induct) auto

lemma sum_list_perm: "mset xs = mset ys \<Longrightarrow> sum_list (map f xs) = (sum_list (map f ys) :: int)"
  by (metis mset_map sum_mset_sum_list)

definition quotaOf :: "ZTAPISupplierRefundProgress list \<Rightarrow> int" where
  "quotaOf ps = sum_list (map sg_Quota ps)"

definition tokenQuotaOf :: "ZTAPISupplierRefundProgress list \<Rightarrow> int" where
  "tokenQuotaOf ps = sum_list (map sg_TokenQuota ps)"

lemma progressOk_dimension:
  "list_all (refundProgressOk dims) prev \<Longrightarrow> sg_Dimension ` set prev \<subseteq> set (map sd_Dimension dims)"
proof
  fix n assume ok: "list_all (refundProgressOk dims) prev" and "n \<in> sg_Dimension ` set prev"
  then obtain p where p: "n = sg_Dimension p" "refundProgressOk dims p" by (auto simp: list_all_iff)
  then obtain d where "List.find (\<lambda>d. sd_Dimension d = n) dims = Some d"
    by (auto simp: refundProgressOk_def dimensionOf_def split: option.splits)
  then show "n \<in> set (map sd_Dimension dims)" by (auto simp: find_Some_iff)
qed

text \<open>
  What a plan gives back is the difference between the totals after and before it, and the
  totals after it are within the charge.
\<close>

lemma plan_totals:
  assumes "planZTAPISupplierRefund charge tok dims prev mode lines = Inr plan" "dims \<noteq> []"
  shows "pl_Quota plan = quotaOf (pl_Progress plan) - quotaOf prev"
    "pl_TokenQuota plan = tokenQuotaOf (pl_Progress plan) - tokenQuotaOf prev"
    "0 \<le> pl_Quota plan" "quotaOf (pl_Progress plan) \<le> charge"
    "mode = ''full'' \<Longrightarrow> quotaOf (pl_Progress plan) = charge \<and> tokenQuotaOf (pl_Progress plan) = tok"
proof -
  obtain progress where ev: "refundEvidenceOk charge tok dims prev lines" and plan: "plan = planOf prev progress"
    and each: "list_all2 (\<lambda>d p. planDimension (mode = ''full'') (requestedUnits lines (sd_Dimension d))
        (progressOf prev (sd_Dimension d)) d = Some p) dims progress"
    using planE [OF assms] .
  let ?old = "\<lambda>p. progressOf prev (sg_Dimension p)"
  from ev have sums: "sum_list (map sd_ChargedQuota dims) = charge" "sum_list (map sd_TokenChargedQuota dims) = tok"
    and dist: "distinct (map sd_Dimension dims)" "distinct (map sg_Dimension prev)"
    and prev: "list_all (refundProgressOk dims) prev"
    by (simp_all add: refundEvidenceOk_def)
  have names: "map sg_Dimension progress = map sd_Dimension dims"
    using each by (induction rule: list_all2_induct) (auto dest: planDimension_Some(1))
  have old: "sum_list (map (\<lambda>p. f (?old p)) progress) = sum_list (map f prev)"
    if "\<And>n. f \<lparr>sg_Dimension = n, sg_Units = ''0'', sg_Quota = 0, sg_TokenQuota = 0\<rparr> = (0 :: int)" for f
  proof -
    have "sum_list (map (\<lambda>p. f (?old p)) progress) = sum_list (map (\<lambda>n. f (progressOf prev n)) (map sg_Dimension progress))"
      by (simp add: comp_def)
    also have "\<dots> = sum_list (map f prev)"
      unfolding names by (rule sum_progressOf) (use dist progressOk_dimension [OF prev] that in simp_all)
    finally show ?thesis .
  qed
  have sorted: "quotaOf (pl_Progress plan) = sum_list (map sg_Quota progress)"
    "tokenQuotaOf (pl_Progress plan) = sum_list (map sg_TokenQuota progress)"
    unfolding quotaOf_def tokenQuotaOf_def plan planOf_def by (rule sum_list_perm, simp)+
  show "pl_Quota plan = quotaOf (pl_Progress plan) - quotaOf prev"
    "pl_TokenQuota plan = tokenQuotaOf (pl_Progress plan) - tokenQuotaOf prev"
    using old [of sg_Quota] old [of sg_TokenQuota]
    by (simp_all add: plan planOf_def sum_diff_list sorted [unfolded plan planOf_def, simplified]
        quotaOf_def [of prev] tokenQuotaOf_def [of prev])
  have "sg_Quota (?old p) \<le> sg_Quota p" if "p \<in> set progress" for p
    using list_all2_in [OF each that] planDimension_Some(1,2) by metis
  then show "0 \<le> pl_Quota plan"
    unfolding plan planOf_def by (auto intro!: sum_list_nonneg)
  show "quotaOf (pl_Progress plan) \<le> charge"
    unfolding sorted sums(1) [symmetric]
    by (rule sum_list_all2_le [OF each]) (rule planDimension_Some(4))
  show "quotaOf (pl_Progress plan) = charge \<and> tokenQuotaOf (pl_Progress plan) = tok" if "mode = ''full''"
    unfolding sorted sums [symmetric]
    by (intro conjI sum_list_all2_eq [OF each]) (use that planDimension_Some(6) in auto)
qed

section \<open>Numbers with eighteen decimals\<close>

text \<open>The numbers the code reads and prints: at most thirty integer digits and eighteen decimals.\<close>

definition refundNumber :: "rat \<Rightarrow> bool" where
  "refundNumber r \<longleftrightarrow> (\<exists>n. n < 10 ^ 48 \<and> r = of_nat n / 10 ^ 18)"

lemma readNat_append: "readNat (xs @ ys) = readNat xs * 10 ^ length ys + readNat ys"
proof (induction ys rule: rev_induct)
  case (snoc y ys)
  then show ?case by (simp add: readNat_def algebra_simps)
qed (simp add: readNat_def)

lemma digitVal_le: "48 \<le> (of_char c :: nat) \<and> (of_char c :: nat) \<le> 57 \<Longrightarrow> digitVal c \<le> 9"
  unfolding digitVal_def by auto

lemma readNat_less: "decimalDigits s \<or> s = [] \<Longrightarrow> readNat s < 10 ^ length s"
proof (induction s rule: rev_induct)
  case (snoc c s)
  then have "readNat s < 10 ^ length s" "digitVal c \<le> 9"
    by (auto simp: decimalDigits_def intro: digitVal_le)
  then show ?case by (simp add: readNat_def)
qed (simp add: readNat_def)

lemma ztapiSupplierRefundNumber_refundNumber:
  assumes "ztapiSupplierRefundNumber s = Some r"
  shows "refundNumber r" "0 \<le> r"
proof -
  let ?ip = "integerPart s" and ?fp = "tl (afterInteger s)"
  from assms have r: "r = of_nat (readNat (?ip @ ?fp)) / 10 ^ length ?fp"
    and ip: "decimalDigits ?ip" "length ?ip \<le> 30" and fp: "decimalDigits ?fp \<or> ?fp = []" "length ?fp \<le> 18"
    by (auto simp: ztapiSupplierRefundNumber_def ztapiSupplierRefundDecimal_def Let_def split: if_splits)
  let ?n = "readNat (?ip @ ?fp) * 10 ^ (18 - length ?fp)"
  have "decimalDigits (?ip @ ?fp)" using ip fp by (auto simp: decimalDigits_def)
  then have "readNat (?ip @ ?fp) < 10 ^ length (?ip @ ?fp)" by (intro readNat_less) simp
  then have "?n < 10 ^ (length ?ip + length ?fp) * 10 ^ (18 - length ?fp)" by simp
  also have "\<dots> = 10 ^ (length ?ip + 18)" using fp by (simp add: power_add [symmetric])
  also have "\<dots> \<le> (10 :: nat) ^ 48" using ip by (intro power_increasing) simp_all
  finally have "?n < 10 ^ 48" .
  moreover have "r = of_nat ?n / 10 ^ 18"
  proof -
    have "(10 :: rat) ^ 18 = 10 ^ length ?fp * 10 ^ (18 - length ?fp)" using fp by (simp add: power_add [symmetric])
    then show ?thesis unfolding r by (simp add: field_simps)
  qed
  ultimately show "refundNumber r" unfolding refundNumber_def by blast
  show "0 \<le> r" unfolding r by simp
qed

lemma refundNumber_add: "refundNumber a \<Longrightarrow> refundNumber b \<Longrightarrow> a + b \<le> c \<Longrightarrow> refundNumber c \<Longrightarrow> refundNumber (a + b)"
proof -
  assume "refundNumber a" "refundNumber b" "refundNumber c" and le: "a + b \<le> c"
  then obtain i j k where n: "a = of_nat i / 10 ^ 18" "b = of_nat j / 10 ^ 18" "c = of_nat k / 10 ^ 18" "k < 10 ^ 48"
    unfolding refundNumber_def by blast
  have ab: "a + b = of_nat (i + j) / 10 ^ 18" by (simp add: n add_divide_distrib)
  with le n(3) have "(of_nat (i + j) :: rat) \<le> of_nat k" by (simp add: divide_le_cancel)
  then have "i + j \<le> k" by (simp only: of_nat_le_iff)
  with n(4) have "i + j < 10 ^ 48" by simp
  with ab show ?thesis unfolding refundNumber_def by blast
qed

lemma decimalDigits_showNat: "decimalDigits (showNat n)"
proof (induction n rule: showNat.induct)
  case (1 n)
  then show ?case
    by (subst showNat.simps) (auto simp: decimalDigits_def digitChar_def)
qed

lemma length_showNat: "n < 10 ^ k \<Longrightarrow> 0 < k \<Longrightarrow> length (showNat n) \<le> k"
proof (induction n arbitrary: k rule: showNat.induct)
  case (1 n)
  show ?case
  proof (cases "n < 10")
    case True
    then show ?thesis using 1 by (subst showNat.simps) auto
  next
    case False
    then obtain k' where k: "k = Suc k'" "0 < k'"
      using 1(2,3) by (cases k; cases "k - 1") auto
    then have "n div 10 < 10 ^ k'" using 1(2) by (simp add: div_less_iff_less_mult mult.commute)
    with 1(1) False k have "length (showNat (n div 10)) \<le> k'" by simp
    with False k show ?thesis by (subst showNat.simps) auto
  qed
qed

lemma number_floatString18:
  assumes "refundNumber r"
  shows "ztapiSupplierRefundNumber (floatString18 r) = Some r"
proof -
  obtain n where n: "n < 10 ^ 48" "r = of_nat n / 10 ^ 18" using assms unfolding refundNumber_def by blast
  let ?a = "n div 10 ^ 18" and ?b = "n mod 10 ^ 18"
  let ?fp = "replicate (18 - length (showNat ?b)) (CHR ''0'') @ showNat ?b"
  have scaled: "nat \<lfloor>r * 10 ^ 18\<rfloor> = n" by (simp add: n(2))
  have len: "length (showNat ?b) \<le> 18" by (rule length_showNat) simp_all
  then have lfp: "length ?fp = 18" by simp
  have digits: "decimalDigits ?fp" using decimalDigits_showNat [of ?b] by (auto simp: decimalDigits_def)
  have nodot: "c \<noteq> CHR ''.''" if "c \<in> set (showNat m)" for c m
    using decimalDigits_showNat [of m] that by (auto simp: decimalDigits_def)
  have s: "floatString18 r = showNat ?a @ CHR ''.'' # ?fp"
    unfolding floatString18_def Let_def scaled by simp
  have ip: "integerPart (floatString18 r) = showNat ?a"
    unfolding s integerPart_def using nodot by (subst takeWhile_append2) auto
  have fp: "afterInteger (floatString18 r) = CHR ''.'' # ?fp"
    unfolding s afterInteger_def using nodot by (subst dropWhile_append2) auto
  have "?a < 10 ^ 30"
  proof -
    have "(10 :: nat) ^ 48 = 10 ^ 30 * 10 ^ 18" by simp
    with n(1) show ?thesis by (simp only: div_less_iff_less_mult zero_less_power zero_less_numeral)
  qed
  then have "length (showNat ?a) \<le> 30" by (rule length_showNat) simp
  then have ok: "ztapiSupplierRefundDecimal (floatString18 r)"
    unfolding ztapiSupplierRefundDecimal_def ip fp using digits lfp decimalDigits_showNat by simp
  have zeros: "readNat (replicate k (CHR ''0'') @ s) = readNat s" for k s
    by (induction k) (simp_all add: readNat_def digitVal_def)
  have "readNat (showNat ?a @ ?fp) = ?a * 10 ^ length ?fp + readNat ?fp"
    by (subst readNat_append) simp
  also have "\<dots> = n" unfolding lfp zeros by simp
  finally have "readNat (showNat ?a @ ?fp) = n" .
  then show ?thesis
    unfolding ztapiSupplierRefundNumber_def Let_def ip fp list.sel lfp
    by (simp only: ok not_True_eq_False if_False n(2) [symmetric])
qed

section \<open>Progress the next plan accepts\<close>

lemma planDimension_accepted:
  assumes p: "planDimension full req old d = Some p" and d: "refundDimensionOk charge d" "dimensionOf dims (sd_Dimension d) = Some d"
    and req: "\<And>u. req = Some u \<Longrightarrow> refundNumber u"
    and old: "sg_TokenQuota old \<le> sd_TokenChargedQuota d" "0 \<le> sg_Quota old" "0 \<le> sg_TokenQuota old"
  shows "refundProgressOk dims p"
proof -
  from p obtain sofar original rate where nums: "ztapiSupplierRefundNumber (sg_Units old) = Some sofar"
      "ztapiSupplierRefundNumber (sd_Units d) = Some original" "ztapiSupplierRefundNumber (sd_UnitQuota d) = Some rate"
    by (auto simp: planDimension_def split: option.splits)
  let ?units = "if full then original else case req of Some delta \<Rightarrow> sofar + delta | None \<Rightarrow> sofar"
  have le: "?units \<le> original" using p nums by (auto simp: planDimension_def Let_def split: if_splits)
  have orig: "refundNumber original" using nums by (blast intro: ztapiSupplierRefundNumber_refundNumber)
  have sofar: "refundNumber sofar" using nums by (blast intro: ztapiSupplierRefundNumber_refundNumber)
  have "refundNumber ?units"
    using le orig sofar req by (auto split: option.splits intro: refundNumber_add)
  then have reread: "ztapiSupplierRefundNumber (floatString18 ?units) = Some ?units" by (rule number_floatString18)
  have quota: "sg_Quota p = ztapiSupplierRefundTarget ?units original rate (sd_ChargedQuota d)"
    and units: "sg_Units p = floatString18 ?units" and name: "sg_Dimension p = sd_Dimension d"
    and tok: "sd_TokenChargedQuota d = sd_ChargedQuota d \<Longrightarrow> sg_TokenQuota p = sg_Quota p"
      "sd_TokenChargedQuota d = 0 \<Longrightarrow> sg_TokenQuota old = 0 \<Longrightarrow> sg_TokenQuota p = 0 \<or> sd_TokenChargedQuota d = sd_ChargedQuota d"
    using p nums by (auto simp: planDimension_def Let_def split: if_splits option.splits)
  note bounds = planDimension_Some [OF p]
  have "0 \<le> sd_TokenChargedQuota d" "sd_TokenChargedQuota d \<le> sd_ChargedQuota d"
    using d(1) nums by (simp_all add: refundDimensionOk_def Let_def)
  with bounds old tok name d(2) nums le reread quota units show ?thesis
    by (auto simp: refundProgressOk_def)
qed

lemma refundProgressOk_bounds:
  assumes "refundProgressOk dims p" "dimensionOf dims (sg_Dimension p) = Some d"
  shows "0 \<le> sg_Quota p \<and> sg_Quota p \<le> sd_ChargedQuota d \<and> 0 \<le> sg_TokenQuota p \<and>
    sg_TokenQuota p \<le> sd_TokenChargedQuota d \<and> (\<exists>u. ztapiSupplierRefundNumber (sg_Units p) = Some u)"
  using assms by (auto simp: refundProgressOk_def split: option.splits)

lemma progressOf_ok:
  assumes "list_all (refundProgressOk dims) prev" "dimensionOf dims n = Some d"
    "refundDimensionOk charge d"
  shows "0 \<le> sg_Quota (progressOf prev n)" "sg_Quota (progressOf prev n) \<le> sd_ChargedQuota d"
    "0 \<le> sg_TokenQuota (progressOf prev n)" "sg_TokenQuota (progressOf prev n) \<le> sd_TokenChargedQuota d"
    "\<exists>u. ztapiSupplierRefundNumber (sg_Units (progressOf prev n)) = Some u"
proof -
  have zero: "ztapiSupplierRefundNumber ''0'' = Some 0" by code_simp
  have "0 \<le> sd_ChargedQuota d" "0 \<le> sd_TokenChargedQuota d"
    using assms(3) by (auto simp: refundDimensionOk_def Let_def split: option.splits)
  moreover have member: "refundProgressOk dims p" "sg_Dimension p = n"
    if "List.find (\<lambda>p. sg_Dimension p = n) prev = Some p" for p
  proof -
    from that have "p \<in> set prev" "sg_Dimension p = n" by (auto simp: find_Some_iff)
    with assms(1) show "refundProgressOk dims p" "sg_Dimension p = n" by (simp_all add: list_all_iff)
  qed
  have "0 \<le> sg_Quota p \<and> sg_Quota p \<le> sd_ChargedQuota d \<and> 0 \<le> sg_TokenQuota p \<and>
      sg_TokenQuota p \<le> sd_TokenChargedQuota d \<and> (\<exists>u. ztapiSupplierRefundNumber (sg_Units p) = Some u)"
    if "List.find (\<lambda>p. sg_Dimension p = n) prev = Some p" for p
    using refundProgressOk_bounds [of dims p d] member [OF that] assms(2) by simp
  with calculation have "0 \<le> sg_Quota (progressOf prev n) \<and> sg_Quota (progressOf prev n) \<le> sd_ChargedQuota d \<and>
      0 \<le> sg_TokenQuota (progressOf prev n) \<and> sg_TokenQuota (progressOf prev n) \<le> sd_TokenChargedQuota d \<and>
      (\<exists>u. ztapiSupplierRefundNumber (sg_Units (progressOf prev n)) = Some u)"
    using zero unfolding progressOf_def
    by (cases "List.find (\<lambda>p. sg_Dimension p = n) prev") simp_all
  then show "0 \<le> sg_Quota (progressOf prev n)" "sg_Quota (progressOf prev n) \<le> sd_ChargedQuota d"
    "0 \<le> sg_TokenQuota (progressOf prev n)" "sg_TokenQuota (progressOf prev n) \<le> sd_TokenChargedQuota d"
    "\<exists>u. ztapiSupplierRefundNumber (sg_Units (progressOf prev n)) = Some u"
    by blast+
qed

lemma dimensionOf_member:
  "distinct (map sd_Dimension dims) \<Longrightarrow> d \<in> set dims \<Longrightarrow> dimensionOf dims (sd_Dimension d) = Some d"
  by (induction dims) (auto simp: dimensionOf_def rev_image_eqI)

lemma requestedUnits_number: "requestedUnits lines n = Some u \<Longrightarrow> refundNumber u"
  by (auto simp: requestedUnits_def dest: ztapiSupplierRefundNumber_refundNumber split: option.splits)

lemma plan_progress_accepted:
  assumes "planZTAPISupplierRefund charge tok dims prev mode lines = Inr plan"
  shows "list_all (refundProgressOk dims) (pl_Progress plan)" "distinct (map sg_Dimension (pl_Progress plan))"
proof (atomize (full), cases "dims = []")
  case True
  with assms show "list_all (refundProgressOk dims) (pl_Progress plan) \<and> distinct (map sg_Dimension (pl_Progress plan))"
    by (auto simp: planZTAPISupplierRefund_def split: if_splits)
next
  case False
  obtain progress where ev: "refundEvidenceOk charge tok dims prev lines" and plan: "plan = planOf prev progress"
    and each: "list_all2 (\<lambda>d p. planDimension (mode = ''full'') (requestedUnits lines (sd_Dimension d))
        (progressOf prev (sd_Dimension d)) d = Some p) dims progress"
    using planE [OF assms False] .
  from ev have dims: "list_all (refundDimensionOk charge) dims" "distinct (map sd_Dimension dims)"
      "list_all (refundProgressOk dims) prev"
    by (simp_all add: refundEvidenceOk_def)
  have "refundProgressOk dims p" if p: "p \<in> set progress" for p
  proof -
    obtain d where d: "d \<in> set dims" "planDimension (mode = ''full'') (requestedUnits lines (sd_Dimension d))
        (progressOf prev (sd_Dimension d)) d = Some p"
      using list_all2_in [OF each p] by blast
    have ok: "refundDimensionOk charge d" "dimensionOf dims (sd_Dimension d) = Some d"
      using dims d(1) by (auto simp: list_all_iff intro: dimensionOf_member)
    show ?thesis
      by (rule planDimension_accepted [OF d(2) ok])
        (use requestedUnits_number progressOf_ok [OF dims(3) ok(2,1)] in auto)
  qed
  note accepted = this
  have "map sg_Dimension progress = map sd_Dimension dims"
    using each by (induction rule: list_all2_induct) (auto dest: planDimension_Some(1))
  then have "distinct (map sg_Dimension progress)" using dims(2) by simp
  moreover have "mset (map sg_Dimension (sort_key sg_Dimension progress)) = mset (map sg_Dimension progress)"
    by simp
  ultimately have "distinct (map sg_Dimension (sort_key sg_Dimension progress))"
    using mset_eq_imp_distinct_iff by blast
  with accepted show "list_all (refundProgressOk dims) (pl_Progress plan) \<and> distinct (map sg_Dimension (pl_Progress plan))"
    by (simp add: plan planOf_def list_all_iff)
qed

text \<open>A full refund of well-formed evidence is always planned.\<close>

lemma planDimension_full:
  assumes "refundDimensionOk charge d" "dimensionOf dims (sd_Dimension d) = Some d" "list_all (refundProgressOk dims) prev"
  shows "\<exists>p. planDimension True None (progressOf prev (sd_Dimension d)) d = Some p"
proof -
  obtain original rate where "ztapiSupplierRefundNumber (sd_Units d) = Some original"
      "ztapiSupplierRefundNumber (sd_UnitQuota d) = Some rate"
    using assms(1) by (auto simp: refundDimensionOk_def split: option.splits)
  with progressOf_ok [OF assms(3,2,1)] show ?thesis
    by (auto simp: planDimension_def ztapiSupplierRefundTarget_def Let_def)
qed

lemma those_exists: "(\<And>x. x \<in> set xs \<Longrightarrow> \<exists>y. f x = Some y) \<Longrightarrow> \<exists>ys. those (map f xs) = Some ys"
  by (induction xs) fastforce+

section \<open>Properties\<close>

primrec refundRun ::
  "int \<Rightarrow> int \<Rightarrow> ZTAPISupplierRefundDimension list \<Rightarrow> ZTAPISupplierRefundProgress list \<Rightarrow>
   (string \<times> ZTAPISupplierRefundUnits list) list \<Rightarrow> int" where
  "refundRun charge tok dims prev [] = 0"
| "refundRun charge tok dims prev (r # rs) =
     (case planZTAPISupplierRefund charge tok dims prev (fst r) (snd r) of
        Inl _ \<Rightarrow> refundRun charge tok dims prev rs
      | Inr plan \<Rightarrow> pl_Quota plan + refundRun charge tok dims (pl_Progress plan) rs)"

lemma plan_empty_dims:
  "planZTAPISupplierRefund charge tok [] prev mode lines = Inr plan \<Longrightarrow>
   charge = 0 \<and> tok = 0 \<and> prev = [] \<and> pl_Quota plan = 0 \<and> pl_TokenQuota plan = 0 \<and> pl_Progress plan = []"
  by (auto simp: planZTAPISupplierRefund_def split: if_splits)

lemma refundRun_bound:
  "quotaOf prev \<le> charge \<Longrightarrow> 0 \<le> refundRun charge tok dims prev rs \<and> quotaOf prev + refundRun charge tok dims prev rs \<le> charge"
proof (induction rs arbitrary: prev)
  case (Cons r rs)
  show ?case
  proof (cases "planZTAPISupplierRefund charge tok dims prev (fst r) (snd r)")
    case (Inl e)
    with Cons show ?thesis by simp
  next
    case (Inr plan)
    have "pl_Quota plan = quotaOf (pl_Progress plan) - quotaOf prev \<and> 0 \<le> pl_Quota plan \<and> quotaOf (pl_Progress plan) \<le> charge"
      using plan_totals [OF Inr] plan_empty_dims [of charge tok prev "fst r" "snd r" plan] Inr
      by (cases "dims = []") (auto simp: quotaOf_def)
    with Cons.IH [of "pl_Progress plan"] Inr show ?thesis by simp
  qed
qed simp

text \<open>
  C35. Whatever refunds are asked for one after the other, full or partial, well formed or not,
  each planned on the progress the last accepted one left, together they give back at least
  nothing and at most the charge.
\<close>

theorem refunds_within_charge:
  assumes "0 \<le> charge"
  shows "0 \<le> refundRun charge tok dims [] requests \<and> refundRun charge tok dims [] requests \<le> charge"
  using refundRun_bound [of "[]" charge tok dims requests] assms by (simp add: quotaOf_def)

text \<open>
  C36. After every accepted refund the rest can be refunded: the progress it leaves is accepted,
  and a full refund on it is planned for exactly what is left of the charge and of the token's
  share.
\<close>

theorem rest_is_refundable:
  assumes "planZTAPISupplierRefund charge tok dims prev mode lines = Inr plan"
  shows "\<exists>rest. planZTAPISupplierRefund charge tok dims (pl_Progress plan) ''full'' [] = Inr rest \<and>
      pl_Quota rest = charge - quotaOf (pl_Progress plan) \<and>
      pl_TokenQuota rest = tok - tokenQuotaOf (pl_Progress plan)"
proof (cases "dims = []")
  case True
  with assms plan_empty_dims [of charge tok prev mode lines plan] show ?thesis
    by (auto simp: planZTAPISupplierRefund_def quotaOf_def tokenQuotaOf_def refundArgumentsOk_def MaxInt32_def)
next
  case False
  have "refundEvidenceOk charge tok dims prev lines" using planE [OF assms False] by metis
  then have dims: "list_all (refundDimensionOk charge) dims" "distinct (map sd_Dimension dims)"
      and ev: "refundEvidenceOk charge tok dims (pl_Progress plan) []"
    using plan_progress_accepted [OF assms] by (simp_all add: refundEvidenceOk_def)
  have args: "refundArgumentsOk charge tok ''full'' []"
    using assms by (auto simp: planZTAPISupplierRefund_def refundArgumentsOk_def split: if_splits)
  have "\<exists>p. planDimension True (requestedUnits [] (sd_Dimension d)) (progressOf (pl_Progress plan) (sd_Dimension d)) d = Some p"
    if "d \<in> set dims" for d
    using planDimension_full [OF _ _ plan_progress_accepted(1) [OF assms], of charge d] dims that dimensionOf_member
    by (auto simp: list_all_iff requestedUnits_def)
  then have "\<exists>progress. planDimensions dims (pl_Progress plan) ''full'' [] = Some progress"
    unfolding planDimensions_def by (intro those_exists) simp
  then obtain progress where "planDimensions dims (pl_Progress plan) ''full'' [] = Some progress" ..
  then obtain rest where rest: "planZTAPISupplierRefund charge tok dims (pl_Progress plan) ''full'' [] = Inr rest"
    using args ev False by (auto simp: planZTAPISupplierRefund_def)
  with plan_totals [OF rest False] show ?thesis by auto
qed

definition demoDimension :: ZTAPISupplierRefundDimension where
  "demoDimension =
     \<lparr>sd_Dimension = ''input'', sd_Units = ''10'', sd_UnitQuota = ''3'', sd_ChargedQuota = 30, sd_TokenChargedQuota = 30\<rparr>"

definition demoReversal :: ZTAPISupplierRefundUnits where
  "demoReversal = \<lparr>su_Dimension = ''input'', su_Units = ''4''\<rparr>"

lemma demo_numbers:
  "ztapiSupplierRefundNumber ''10'' = Some 10" "ztapiSupplierRefundNumber ''3'' = Some 3"
  "ztapiSupplierRefundNumber ''0'' = Some 0" "ztapiSupplierRefundNumber ''4'' = Some 4"
  by (simp_all add: ztapiSupplierRefundNumber_def ztapiSupplierRefundDecimal_def integerPart_def afterInteger_def
      decimalDigits_def readNat_def digitVal_def)

lemma demo_digits: "digitChar 0 = CHR ''0''" "digitChar 4 = CHR ''4''"
  by code_simp+

lemma replicate_numbers: "replicate 17 c = [c, c, c, c, c, c, c, c, c, c, c, c, c, c, c, c, c]"
  by (simp add: numeral_eq_Suc)

lemma demo_units: "floatString18 4 = ''4.000000000000000000''"
proof -
  have "\<lfloor>4 * 10 ^ 18 :: rat\<rfloor> = 4 * 10 ^ 18" by simp
  then show ?thesis
    by (simp add: floatString18_def Let_def showNat.simps [of 4] showNat.simps [of 0] demo_digits replicate_numbers)
qed

lemma demo_plan:
  "planZTAPISupplierRefund 30 30 [demoDimension] [] ''partial'' [demoReversal] =
     Inr \<lparr>pl_Quota = 12, pl_TokenQuota = 12,
          pl_Progress = [\<lparr>sg_Dimension = ''input'', sg_Units = ''4.000000000000000000'', sg_Quota = 12, sg_TokenQuota = 12\<rparr>]\<rparr>"
  by (simp add: planZTAPISupplierRefund_def refundArgumentsOk_def refundEvidenceOk_def refundDimensionOk_def
      refundLineOk_def dimensionOf_def planDimensions_def planDimension_def planOf_def requestedUnits_def progressOf_def
      demoDimension_def demoReversal_def demo_numbers demo_units ztapiSupplierRefundTarget_def int64Range_def
      MaxInt32_def MaxInt64_def Let_def)

theorem refunds_within_charge_witness:
  "0 \<le> refundRun 30 30 [demoDimension] [] [(''partial'', [demoReversal]), (''full'', [])] \<and>
   refundRun 30 30 [demoDimension] [] [(''partial'', [demoReversal]), (''full'', [])] \<le> 30"
  by (rule refunds_within_charge) simp

theorem rest_is_refundable_witness:
  "\<exists>rest. planZTAPISupplierRefund 30 30 [demoDimension]
        [\<lparr>sg_Dimension = ''input'', sg_Units = ''4.000000000000000000'', sg_Quota = 12, sg_TokenQuota = 12\<rparr>] ''full'' [] = Inr rest \<and>
      pl_Quota rest = 18 \<and> pl_TokenQuota rest = 18"
  using rest_is_refundable [OF demo_plan] by (simp add: quotaOf_def tokenQuotaOf_def)

end
