(* ===== verification/Requests.thy ===== *)
theory Requests
  imports Keys RefundPlan
begin

text \<open>
  Durable settlements of managed requests, \<open>server/model/ztapi_request_settlement.go\<close> and
  \<open>ztapi_request_attempt.go\<close>: a hold on wallet and token before any provider is called, more
  holds while the request runs, the attempts at suppliers, and the end of a hold as a charge,
  a release or a row parked for reconciliation.

  Every operation locks the request's row, changes wallet, token and row in one transaction and
  then synchronises the caches, whose failure stays in the row as a flag. A time is a Unix
  nanosecond. JSON is a parameter: what \<open>common.Marshal\<close> and \<open>common.UnmarshalJsonStr\<close> make of
  the values the code passes them.
\<close>

abbreviation ZTAPISettlementReserved :: string where "ZTAPISettlementReserved \<equiv> ''reserved''"
abbreviation ZTAPISettlementPending :: string where "ZTAPISettlementPending \<equiv> ''pending''"
abbreviation ZTAPISettlementSettled :: string where "ZTAPISettlementSettled \<equiv> ''settled''"
abbreviation ZTAPISettlementReleased :: string where "ZTAPISettlementReleased \<equiv> ''released''"
abbreviation BalanceLedgerSourceBillingRefund :: string where
  "BalanceLedgerSourceBillingRefund \<equiv> ''billing_refund''"
abbreviation ZTAPIMissingUpstreamBillingUnconfirmed :: string where
  "ZTAPIMissingUpstreamBillingUnconfirmed \<equiv> ''[\"upstream_billing_unconfirmed\"]''"
abbreviation settlementRetryRequired :: string where
  "settlementRetryRequired \<equiv> ''[\"settlement_retry_required\"]''"

definition ztapiMaxPriceSnapshotBytes :: nat where "ztapiMaxPriceSnapshotBytes = 256 * 1024"

text \<open>The fields of the evidence and of its consumption log the modelled code reads.\<close>

record ZTAPISettlementEvidence =
  ev_FinalAttempt :: int
  ev_UpstreamTaskID :: string
  ev_UserId :: int
  ev_TokenId :: int
  ev_RequestId :: string
  ev_ModelName :: string
  ev_Quota :: int

record codec =
  cd_valid :: "string \<Rightarrow> bool"
  cd_dims :: "string \<Rightarrow> ZTAPISupplierRefundDimension list option"
  cd_putDims :: "ZTAPISupplierRefundDimension list \<Rightarrow> string"
  cd_intent :: "ZTAPISettlementFinalizationIntent \<Rightarrow> string"
  cd_evidence :: "string \<Rightarrow> ZTAPISettlementEvidence option"

section \<open>Rows, owners and the two balances\<close>

definition ztapiSettlementLock :: "string \<Rightarrow> (store, ZTAPIRequestSettlement) act" where
  "ztapiSettlementLock op = firstRow settlements (\<lambda>r. zs_OperationID r = op)"

text \<open>\<open>Save\<close> writes every column and stamps the row; the result is the row as written.\<close>

definition saveSettlement :: "int \<Rightarrow> ZTAPIRequestSettlement \<Rightarrow> (store, ZTAPIRequestSettlement) act" where
  "saveSettlement now row =
     (let row' = row\<lparr>zs_UpdatedAt := now\<rparr> in
      bindE (updateRows settlements settlements_update (\<lambda>r. zs_ID r = zs_ID row) (\<lambda>_. row')) (\<lambda>_. ret row'))"

definition createSettlement :: "ZTAPIRequestSettlement \<Rightarrow> (store, ZTAPIRequestSettlement) act" where
  "createSettlement row = stmt (\<lambda>s.
     if zs_OperationID row \<in> zs_OperationID ` set (settlements s) \<or>
        zs_RequestID row \<in> zs_RequestID ` set (settlements s) then Inl ErrDuplicatedKey
     else let row' = row\<lparr>zs_ID := freshId zs_ID (settlements s)\<rparr>
          in Inr (row', s\<lparr>settlements := settlements s @ [row']\<rparr>))"

text \<open>\<open>Unscoped\<close>: deleted users and tokens are found too.\<close>

definition ztapiSettlementOwners :: "ZTAPIRequestSettlement \<Rightarrow> (store, User \<times> Token) act" where
  "ztapiSettlementOwners row =
     bindE (firstRow users (\<lambda>u. u_Id u = zs_UserID row)) (\<lambda>user.
     bindE (firstRow tokens (\<lambda>k. t_Id k = zs_TokenID row)) (\<lambda>token.
       if t_UserId token \<noteq> u_Id user then fail ErrZTAPISettlementConflict
       else ret (user, token)))"

definition settlementUserUpdates :: "User \<Rightarrow> int \<Rightarrow> bool \<Rightarrow> UserUpdates" where
  "settlementUserUpdates user after allowNegative =
     (let updates = balanceLedgerUserUpdates user after allowNegative in
      if u_DeletedAt user then updates\<lparr>up_status := None\<rparr> else updates)"

definition ztapiSettlementWalletDeltaTx ::
  "int \<Rightarrow> User \<Rightarrow> int \<Rightarrow> string \<Rightarrow> string \<Rightarrow> string \<Rightarrow> string \<Rightarrow> bool \<Rightarrow> (store, BalanceLedger option) act" where
  "ztapiSettlementWalletDeltaTx now user delta requestID key reason source allowNegative =
     (if delta = 0 then ret None
      else case checkedSum allowNegative (u_Quota user) delta of
        Inl err \<Rightarrow> fail err
      | Inr after \<Rightarrow>
          bindE (updateRows users users_update (\<lambda>u. u_Id u = u_Id user)
            (applyUserUpdates (settlementUserUpdates user after allowNegative))) (\<lambda>rows.
          if rows \<noteq> 1 then fail ErrZTAPISettlementConflict
          else bindE (createLedger
            \<lparr>bl_ID = 0, bl_UserID = u_Id user, bl_OperatorID = 0, bl_Delta = delta,
             bl_BalanceBefore = u_Quota user, bl_BalanceAfter = after, bl_Reason = reason,
             bl_IdempotencyKey = key, bl_RequestID = requestID, bl_SourceType = source,
             bl_CreatedAt = now\<rparr>) (\<lambda>entry. ret (Some entry))))"

text \<open>The token's row after a credit of \<open>delta\<close>.\<close>

definition tokenCredited :: "int \<Rightarrow> int \<Rightarrow> Token \<Rightarrow> Token \<Rightarrow> Token" where
  "tokenCredited after used token k =
     k\<lparr>t_RemainQuota := after, t_UsedQuota := used,
       t_Status := (if after > 0 \<and> t_Status token = TokenStatusExhausted then TokenStatusEnabled
                    else if after = 0 \<and> t_Status token = TokenStatusEnabled then TokenStatusExhausted
                    else t_Status k)\<rparr>"

definition ztapiSettlementTokenDeltaTx :: "Token \<Rightarrow> int \<Rightarrow> bool \<Rightarrow> (store, int) act" where
  "ztapiSettlementTokenDeltaTx token delta0 allowDebt =
     (if delta0 = 0 then ret 0
      else if delta0 < 0 \<and> - delta0 > t_RemainQuota token \<and> \<not> allowDebt then fail ErrInsufficientTokenQuota
      else let delta = (if delta0 < 0 \<and> - delta0 > t_RemainQuota token then - t_RemainQuota token else delta0) in
        if delta = 0 then ret 0
        else case checkedBalanceLedgerSum (t_RemainQuota token) delta of
          Inl err \<Rightarrow> fail err
        | Inr after \<Rightarrow>
            let used = t_UsedQuota token - delta in
            if used < 0 \<or> used > maxBalanceLedgerQuota then fail ErrBalanceLedgerOverflow
            else bindE (updateRows tokens tokens_update
                (\<lambda>k. t_Id k = t_Id token \<and> t_UserId k = t_UserId token) (tokenCredited after used token)) (\<lambda>rows.
              if rows \<noteq> 1 then fail ErrZTAPISettlementConflict else ret delta))"

text \<open>The token's share of a movement, which an unlimited token has none of.\<close>

definition tokenShare :: "ZTAPIRequestSettlement \<Rightarrow> Token \<Rightarrow> int \<Rightarrow> bool \<Rightarrow> (store, int) act" where
  "tokenShare row token delta allowDebt =
     (if zs_TokenUnlimited row then ret 0 else ztapiSettlementTokenDeltaTx token delta allowDebt)"

definition withLedger :: "BalanceLedger option \<Rightarrow> ZTAPIRequestSettlement \<Rightarrow> ZTAPIRequestSettlement" where
  "withLedger entry row = (case entry of None \<Rightarrow> row | Some e \<Rightarrow> row\<lparr>zs_LastLedgerID := bl_ID e\<rparr>)"

section \<open>Caches\<close>

text \<open>The flag is cleared only in the row as it was written; \<open>redis\<close> says whether tokens are cached.\<close>

definition syncZTAPISettlementCaches ::
  "bool \<Rightarrow> ZTAPIRequestSettlement \<Rightarrow> (store, ZTAPIRequestSettlement) act" where
  "syncZTAPISettlementCaches redis row =
     bindE (attempt (
       bindE (extern ErrCache) (\<lambda>_.
       bindE (if redis
              then bindE (firstRow tokens (\<lambda>k. t_Id k = zs_TokenID row)) (\<lambda>_. extern ErrCache)
              else ret ()) (\<lambda>_.
       updateRows settlements settlements_update
         (\<lambda>r. zs_ID r = zs_ID row \<and> zs_UpdatedAt r = zs_UpdatedAt row)
         (\<lambda>r. r\<lparr>zs_CacheSyncPending := False\<rparr>))))) (\<lambda>cleared.
     ret (case cleared of
            Inl _ \<Rightarrow> row
          | Inr rows \<Rightarrow> if rows = 1 then row\<lparr>zs_CacheSyncPending := False\<rparr> else row))"

text \<open>
  One mutation: the row is locked, a precondition, the change and a hook run on it, and all of
  it commits together. The precondition and the hook are arguments of the code too; they
  return the row, which they may have changed.
\<close>

type_synonym mutation = "ZTAPIRequestSettlement \<Rightarrow> (store, ZTAPIRequestSettlement) act"

definition mutationTx :: "int \<Rightarrow> string \<Rightarrow> mutation \<Rightarrow> mutation \<Rightarrow> mutation \<Rightarrow> (store, ZTAPIRequestSettlement) act" where
  "mutationTx now op precondition fn hook =
     bindE (ztapiSettlementLock op) (\<lambda>row.
     bindE (precondition row) (\<lambda>row.
     bindE (fn row) (\<lambda>row.
     bindE (saveSettlement now (row\<lparr>zs_CacheSyncPending := True\<rparr>)) hook)))"

definition mutateZTAPISettlementWithHooks ::
  "bool \<Rightarrow> int \<Rightarrow> string \<Rightarrow> mutation \<Rightarrow> mutation \<Rightarrow> mutation \<Rightarrow> (store, ZTAPIRequestSettlement) act" where
  "mutateZTAPISettlementWithHooks redis now op precondition fn hook =
     bindE (transaction (mutationTx now op precondition fn hook)) (syncZTAPISettlementCaches redis)"

definition mutateZTAPISettlement ::
  "bool \<Rightarrow> int \<Rightarrow> string \<Rightarrow> mutation \<Rightarrow> (store, ZTAPIRequestSettlement) act" where
  "mutateZTAPISettlement redis now op fn = mutateZTAPISettlementWithHooks redis now op ret fn ret"

definition RetryZTAPISettlementCaches :: "bool \<Rightarrow> int \<Rightarrow> int \<Rightarrow> (store, unit) act" where
  "RetryZTAPISettlementCaches redis now limit =
     (if limit < 1 \<or> limit > 1000 then fail ErrZTAPISettlementInvalid
      else bindE (query (\<lambda>s. Inr (take (nat limit) (sort_key zs_CacheLastAttemptAt (sort_key zs_ID
          (filter zs_CacheSyncPending (settlements s))))))) (\<lambda>rows.
        forEach rows (\<lambda>row.
          bindE (transaction (updateRows settlements settlements_update (\<lambda>r. zs_ID r = zs_ID row)
            (\<lambda>r. r\<lparr>zs_CacheLastAttemptAt := now\<rparr>))) (\<lambda>_.
          bindE (syncZTAPISettlementCaches redis row) (\<lambda>_. ret ())))))"

section \<open>Beginning a settlement\<close>

definition settlementInputInvalid :: "codec \<Rightarrow> ZTAPIRequestSettlement \<Rightarrow> bool" where
  "settlementInputInvalid codec input \<longleftrightarrow>
     TrimSpace (zs_OperationID input) = [] \<or> length (zs_OperationID input) > 64 \<or>
     TrimSpace (zs_RequestID input) = [] \<or> length (zs_RequestID input) > 64 \<or>
     zs_UserID input \<le> 0 \<or> zs_TokenID input \<le> 0 \<or> zs_ReservedQuota input < 0 \<or>
     zs_ReservedQuota input > maxBalanceLedgerQuota \<or> zs_PublicModel input = [] \<or>
     length (zs_PriceSnapshotJSON input) > ztapiMaxPriceSnapshotBytes \<or>
     \<not> cd_valid codec (zs_PriceSnapshotJSON input)"

definition ztapiSettlementMatches :: "ZTAPIRequestSettlement \<Rightarrow> ZTAPIRequestSettlement \<Rightarrow> bool" where
  "ztapiSettlementMatches row input \<longleftrightarrow>
     \<not> (zs_RequestID row \<noteq> zs_RequestID input \<or> zs_UserID row \<noteq> zs_UserID input \<or>
        zs_TokenID row \<noteq> zs_TokenID input \<or> zs_TokenUnlimited row \<noteq> zs_TokenUnlimited input \<or>
        zs_PublicModel row \<noteq> zs_PublicModel input \<or>
        zs_PriceSnapshotJSON row \<noteq> zs_PriceSnapshotJSON input \<or>
        zs_InitialReservedQuota row \<noteq> zs_ReservedQuota input)"

text \<open>A creation time of 0 stands for Go's zero time.\<close>

definition newSettlement :: "int \<Rightarrow> ZTAPIRequestSettlement \<Rightarrow> ZTAPIRequestSettlement" where
  "newSettlement now input =
     \<lparr>zs_ID = 0, zs_OperationID = zs_OperationID input, zs_RequestID = zs_RequestID input,
      zs_UserID = zs_UserID input, zs_TokenID = zs_TokenID input,
      zs_TokenUnlimited = zs_TokenUnlimited input, zs_PublicModel = zs_PublicModel input,
      zs_PriceSnapshotJSON = zs_PriceSnapshotJSON input, zs_Status = ZTAPISettlementReserved,
      zs_ReservedQuota = zs_ReservedQuota input, zs_InitialReservedQuota = zs_ReservedQuota input,
      zs_TokenReservedQuota = 0, zs_ChargedQuota = 0, zs_TokenChargedQuota = 0, zs_RefundedQuota = 0,
      zs_UsageJSON = ''{}'', zs_ChargeDimensionsJSON = ''[]'', zs_MissingDimensionsJSON = ''[]'',
      zs_LastLedgerID = 0, zs_FinalAttempt = 0, zs_Dispatched = False, zs_CacheSyncPending = True,
      zs_CacheLastAttemptAt = 0,
      zs_CreatedAt = (if zs_CreatedAt input = 0 then now else zs_CreatedAt input), zs_UpdatedAt = now\<rparr>"

definition ownersUsable :: "int \<Rightarrow> ZTAPIRequestSettlement \<Rightarrow> User \<Rightarrow> Token \<Rightarrow> bool" where
  "ownersUsable now input user token \<longleftrightarrow>
     \<not> (u_Status user \<noteq> UserStatusEnabled \<or> u_DeletedAt user \<or> t_DeletedAt token \<or>
        t_Status token \<noteq> TokenStatusEnabled \<or>
        (t_ExpiredTime token \<noteq> -1 \<and> t_ExpiredTime token < unixOf now) \<or>
        t_UnlimitedQuota token \<noteq> zs_TokenUnlimited input)"

text \<open>The hold of a new row: the row itself, the wallet, the token, and what they give the row.\<close>

definition holdSettlement ::
  "int \<Rightarrow> User \<Rightarrow> Token \<Rightarrow> ZTAPIRequestSettlement \<Rightarrow> (store, ZTAPIRequestSettlement) act" where
  "holdSettlement now user token row =
     bindE (createSettlement row) (\<lambda>row.
     bindE (ztapiSettlementWalletDeltaTx now user (- zs_ReservedQuota row) (zs_RequestID row)
       (''ztapi:'' @ zs_OperationID row @ '':begin'') ''managed request reservation''
       BalanceLedgerSourceUsageReservation False) (\<lambda>entry.
     bindE (tokenShare row token (- zs_ReservedQuota row) False) (\<lambda>d.
     saveSettlement now ((withLedger entry row)
       \<lparr>zs_TokenReservedQuota := (if zs_TokenUnlimited row then zs_TokenReservedQuota row else - d)\<rparr>))))"

definition beginTx :: "int \<Rightarrow> ZTAPIRequestSettlement \<Rightarrow> (store, ZTAPIRequestSettlement) act" where
  "beginTx now input =
     bindE (attempt (firstRow settlements (\<lambda>r. zs_OperationID r = zs_OperationID input))) (\<lambda>found.
       case found of
         Inr _ \<Rightarrow>
           bindE (ztapiSettlementLock (zs_OperationID input)) (\<lambda>row.
             if ztapiSettlementMatches row input then ret row else fail ErrZTAPISettlementConflict)
       | Inl err \<Rightarrow>
           if err \<noteq> ErrRecordNotFound then fail err
           else let row = newSettlement now input in
             bindE (ztapiSettlementOwners row) (\<lambda>(user, token).
             if \<not> ownersUsable now input user token then fail ErrZTAPISettlementInvalid
             else holdSettlement now user token row))"

definition recoverBegin :: "ZTAPIRequestSettlement \<Rightarrow> err \<Rightarrow> (store, ZTAPIRequestSettlement) act" where
  "recoverBegin input err =
     bindE (attempt (firstRow settlements (\<lambda>r. zs_OperationID r = zs_OperationID input))) (\<lambda>found.
       case found of
         Inl _ \<Rightarrow> fail err
       | Inr existing \<Rightarrow>
           if ztapiSettlementMatches existing input then ret existing else fail ErrZTAPISettlementConflict)"

definition BeginZTAPIRequestSettlement ::
  "codec \<Rightarrow> bool \<Rightarrow> int \<Rightarrow> ZTAPIRequestSettlement \<Rightarrow> (store, ZTAPIRequestSettlement) act" where
  "BeginZTAPIRequestSettlement codec redis now input =
     (if settlementInputInvalid codec input then fail ErrZTAPISettlementInvalid
      else bindE (attempt (transaction (beginTx now input))) (\<lambda>result.
        bindE (case result of Inl err \<Rightarrow> recoverBegin input err | Inr row \<Rightarrow> ret row)
          (syncZTAPISettlementCaches redis)))"

section \<open>More holds, dispatch and attempts\<close>

text \<open>Going past \<open>entry.ID\<close> without an entry would panic; \<open>delta\<close> is never 0 there.\<close>

definition reserveMore :: "int \<Rightarrow> string \<Rightarrow> int \<Rightarrow> mutation" where
  "reserveMore now op target row =
     (if zs_Status row \<noteq> ZTAPISettlementReserved then fail ErrZTAPISettlementPending
      else if target \<le> zs_ReservedQuota row then ret row
      else bindE (ztapiSettlementOwners row) (\<lambda>(user, token).
        let delta = target - zs_ReservedQuota row in
        bindE (ztapiSettlementWalletDeltaTx now user (- delta) (zs_RequestID row)
          (''ztapi:'' @ op @ '':reserve:'' @ showInt target) ''managed request additional reservation''
          BalanceLedgerSourceUsageReservation False) (\<lambda>entry.
        bindE (tokenShare row token (- delta) False) (\<lambda>d.
        ret ((withLedger entry row)
          \<lparr>zs_TokenReservedQuota := zs_TokenReservedQuota row - d, zs_ReservedQuota := target\<rparr>)))))"

definition ReserveZTAPIRequestSettlement ::
  "bool \<Rightarrow> int \<Rightarrow> string \<Rightarrow> int \<Rightarrow> (store, ZTAPIRequestSettlement) act" where
  "ReserveZTAPIRequestSettlement redis now op target =
     (if target < 0 \<or> target > maxBalanceLedgerQuota then fail ErrZTAPISettlementInvalid
      else mutateZTAPISettlement redis now op (reserveMore now op target))"

definition MarkZTAPIRequestDispatched :: "bool \<Rightarrow> int \<Rightarrow> string \<Rightarrow> (store, unit) act" where
  "MarkZTAPIRequestDispatched redis now op =
     bindE (mutateZTAPISettlement redis now op (\<lambda>row.
       if zs_Status row \<noteq> ZTAPISettlementReserved then fail ErrZTAPISettlementPending
       else ret (row\<lparr>zs_Dispatched := True\<rparr>))) (\<lambda>_. ret ())"

definition createAttempt :: "ZTAPIRequestAttempt \<Rightarrow> (store, ZTAPIRequestAttempt) act" where
  "createAttempt a = stmt (\<lambda>s.
     if (\<exists>b \<in> set (attempts s). za_SettlementID b = za_SettlementID a \<and>
           (za_Attempt b = za_Attempt a \<or> za_ChannelID b = za_ChannelID a)) then Inl ErrDuplicatedKey
     else let a' = a\<lparr>za_ID := freshId za_ID (attempts s)\<rparr>
          in Inr (a', s\<lparr>attempts := attempts s @ [a']\<rparr>))"

definition attemptsOf :: "ZTAPIRequestSettlement \<Rightarrow> (store, ZTAPIRequestAttempt list) act" where
  "attemptsOf row = query (\<lambda>s. Inr (filter (\<lambda>a. za_SettlementID a = zs_ID row) (attempts s)))"

definition BeginZTAPIRequestAttempt ::
  "bool \<Rightarrow> int \<Rightarrow> string \<Rightarrow> int \<Rightarrow> string \<Rightarrow> string \<Rightarrow> (store, unit) act" where
  "BeginZTAPIRequestAttempt redis now op channelID credentialVersion protocol =
     (if channelID \<le> 0 \<or> credentialVersion = [] \<or> length credentialVersion > 64 \<or> protocol = [] \<or>
         length protocol > 64
      then fail ErrZTAPISettlementInvalid
      else bindE (mutateZTAPISettlement redis now op (\<lambda>row.
        if zs_Status row \<noteq> ZTAPISettlementReserved then fail ErrZTAPISettlementPending
        else bindE (attemptsOf row) (\<lambda>prior.
          if length prior \<ge> 2 then fail ErrZTAPISettlementConflict
          else if \<exists>a \<in> set prior. za_ChannelID a = channelID then fail ErrZTAPISettlementConflict
          else bindE (createAttempt
              \<lparr>za_ID = 0, za_SettlementID = zs_ID row, za_Attempt = int (length prior) + 1,
               za_ChannelID = channelID, za_CredentialVersion = credentialVersion,
               za_Protocol = protocol, za_UpstreamRequestID = [], za_HTTPStatus = 0,
               za_SafetyOutcome = False, za_CreatedAt = now, za_UpdatedAt = now\<rparr>) (\<lambda>_.
            ret (row\<lparr>zs_Dispatched := True\<rparr>))))) (\<lambda>_. ret ()))"

definition saveAttempt :: "int \<Rightarrow> ZTAPIRequestAttempt \<Rightarrow> (store, unit) act" where
  "saveAttempt now a =
     bindE (updateRows attempts attempts_update (\<lambda>b. za_ID b = za_ID a) (\<lambda>_. a\<lparr>za_UpdatedAt := now\<rparr>)) (\<lambda>_. ret ())"

definition MarkZTAPIRequestSafetyOutcome :: "bool \<Rightarrow> int \<Rightarrow> string \<Rightarrow> (store, unit) act" where
  "MarkZTAPIRequestSafetyOutcome redis now op =
     bindE (mutateZTAPISettlement redis now op (\<lambda>row.
       bindE (updateRows attempts attempts_update (\<lambda>a. za_SettlementID a = zs_ID row)
         (\<lambda>a. a\<lparr>za_SafetyOutcome := True, za_UpdatedAt := now\<rparr>)) (\<lambda>_. ret row))) (\<lambda>_. ret ())"

definition upstreamIDInvalid :: "string \<Rightarrow> bool" where
  "upstreamIDInvalid s \<longleftrightarrow> length s > 200 \<or> (\<exists>c \<in> set s. c \<in> {CHR 0x0D, CHR 0x0A, CHR 0x00})"

definition RecordZTAPIRequestAttemptResponse ::
  "bool \<Rightarrow> int \<Rightarrow> string \<Rightarrow> int \<Rightarrow> int \<Rightarrow> int \<Rightarrow> string \<Rightarrow> (store, unit) act" where
  "RecordZTAPIRequestAttemptResponse redis now op index channelID status upstreamID =
     (if status < 0 \<or> status > 599 \<or> upstreamIDInvalid upstreamID then fail ErrZTAPISettlementInvalid
      else bindE (mutateZTAPISettlement redis now op (\<lambda>row.
        bindE (firstRow attempts (\<lambda>a. za_SettlementID a = zs_ID row \<and> za_Attempt a = index \<and>
            za_ChannelID a = channelID)) (\<lambda>a.
          if za_UpstreamRequestID a \<noteq> [] \<and> upstreamID \<noteq> [] \<and> za_UpstreamRequestID a \<noteq> upstreamID
          then fail ErrZTAPISettlementConflict
          else bindE (saveAttempt now (a
              \<lparr>za_UpstreamRequestID := (if upstreamID \<noteq> [] then upstreamID else za_UpstreamRequestID a),
               za_HTTPStatus := status\<rparr>)) (\<lambda>_. ret row)))) (\<lambda>_. ret ()))"

section \<open>Finalization intents\<close>

definition HasZTAPISettlementFinalizationIntentTx :: "string \<Rightarrow> (store, bool) act" where
  "HasZTAPISettlementFinalizationIntentTx requestID =
     (if requestID = [] then fail ErrZTAPISettlementInvalid
      else query (\<lambda>s. Inr (\<exists>i \<in> set (intents s). zi_RequestID i = requestID)))"

definition ztapiSettlementIntentDigest :: "codec \<Rightarrow> ZTAPISettlementFinalizationIntent \<Rightarrow> string" where
  "ztapiSettlementIntentDigest codec intent = hexEncode (sha256 (cd_intent codec intent))"

definition intentTrusted ::
  "codec \<Rightarrow> ZTAPIRequestSettlement \<Rightarrow> ZTAPISettlementFinalizationIntent \<Rightarrow> ZTAPISettlementEvidence \<Rightarrow> bool" where
  "intentTrusted codec row intent evidence \<longleftrightarrow>
     \<not> (zi_RequestID intent \<noteq> zs_RequestID row \<or> zi_ActualQuota intent < 0 \<or>
        zi_ActualQuota intent > maxBalanceLedgerQuota \<or>
        zi_PayloadSHA256 intent \<noteq> ztapiSettlementIntentDigest codec intent \<or>
        ev_UserId evidence \<noteq> zs_UserID row \<or> ev_TokenId evidence \<noteq> zs_TokenID row \<or>
        ev_RequestId evidence \<noteq> zs_RequestID row \<or> ev_ModelName evidence \<noteq> zs_PublicModel row \<or>
        ev_Quota evidence \<noteq> zi_ActualQuota intent)"

definition loadZTAPISettlementFinalizationIntentTx ::
  "codec \<Rightarrow> ZTAPIRequestSettlement \<Rightarrow> (store, ZTAPISettlementFinalizationIntent \<times> ZTAPISettlementEvidence) act" where
  "loadZTAPISettlementFinalizationIntentTx codec row =
     bindE (firstRow intents (\<lambda>i. zi_OperationID i = zs_OperationID row)) (\<lambda>intent.
       case cd_evidence codec (zi_EvidenceJSON intent) of
         None \<Rightarrow> fail ErrZTAPISettlementConflict
       | Some evidence \<Rightarrow>
           if intentTrusted codec row intent evidence then ret (intent, evidence)
           else fail ErrZTAPISettlementConflict)"

definition refuseIntent :: "ZTAPIRequestSettlement \<Rightarrow> (store, unit) act" where
  "refuseIntent row =
     bindE (HasZTAPISettlementFinalizationIntentTx (zs_RequestID row)) (\<lambda>exists.
       if exists then fail ErrZTAPISettlementConflict else ret ())"

section \<open>Parking a hold\<close>

definition settlementJSONInvalid :: "codec \<Rightarrow> string \<Rightarrow> nat \<Rightarrow> bool" where
  "settlementJSONInvalid codec raw limit \<longleftrightarrow> length raw > limit \<or> \<not> cd_valid codec raw"

text \<open>A deferred cleanup must not replace the usage a durable intent has recorded.\<close>

definition pendingEvidence ::
  "codec \<Rightarrow> string \<Rightarrow> string \<Rightarrow> ZTAPIRequestSettlement \<Rightarrow> (store, string \<times> string) act" where
  "pendingEvidence codec usage missing row =
     (if missing = ZTAPIMissingUpstreamBillingUnconfirmed \<and>
         (zs_Status row = ZTAPISettlementReserved \<or>
          zs_Status row = ZTAPISettlementPending \<and> zs_MissingDimensionsJSON row = settlementRetryRequired)
      then bindE (attempt (loadZTAPISettlementFinalizationIntentTx codec row)) (\<lambda>loaded.
        case loaded of
          Inr (intent, _) \<Rightarrow> ret (zi_UsageJSON intent, settlementRetryRequired)
        | Inl err \<Rightarrow> if err \<noteq> ErrRecordNotFound then fail err else ret (usage, missing))
      else ret (usage, missing))"

definition pendSettlement :: "codec \<Rightarrow> string \<Rightarrow> string \<Rightarrow> mutation" where
  "pendSettlement codec usage0 missing0 row =
     bindE (pendingEvidence codec usage0 missing0 row) (\<lambda>(usage, missing).
       if zs_Status row = ZTAPISettlementPending then
         (if zs_UsageJSON row \<noteq> usage \<or> zs_MissingDimensionsJSON row \<noteq> missing
          then fail ErrZTAPISettlementConflict else ret row)
       else if zs_Status row \<noteq> ZTAPISettlementReserved then fail ErrZTAPISettlementConflict
       else ret (row\<lparr>zs_Status := ZTAPISettlementPending, zs_UsageJSON := usage,
                      zs_MissingDimensionsJSON := missing\<rparr>))"

definition PendZTAPIRequestSettlement ::
  "codec \<Rightarrow> bool \<Rightarrow> int \<Rightarrow> string \<Rightarrow> string \<Rightarrow> string \<Rightarrow> (store, ZTAPIRequestSettlement) act" where
  "PendZTAPIRequestSettlement codec redis now op usage missing =
     (if settlementJSONInvalid codec usage 65536 \<or> settlementJSONInvalid codec missing 8192
      then fail ErrZTAPISettlementInvalid
      else mutateZTAPISettlement redis now op (pendSettlement codec usage missing))"

record ZTAPIPendingSettlementLineage =
  li_FinalAttempt :: int
  li_ChannelID :: int
  li_UpstreamRequestID :: string

definition lineageInvalid :: "ZTAPIPendingSettlementLineage \<Rightarrow> bool" where
  "lineageInvalid l \<longleftrightarrow>
     li_FinalAttempt l < 1 \<or> li_FinalAttempt l > 2 \<or> li_ChannelID l \<le> 0 \<or>
     upstreamIDInvalid (li_UpstreamRequestID l)"

definition upstreamIDsDiffer :: "ZTAPIRequestAttempt \<Rightarrow> ZTAPIPendingSettlementLineage \<Rightarrow> bool" where
  "upstreamIDsDiffer a l \<longleftrightarrow>
     za_UpstreamRequestID a \<noteq> [] \<and> li_UpstreamRequestID l \<noteq> [] \<and> za_UpstreamRequestID a \<noteq> li_UpstreamRequestID l"

text \<open>The last attempt, highest number first.\<close>

definition lastAttempt :: "ZTAPIRequestSettlement \<Rightarrow> (store, ZTAPIRequestAttempt) act" where
  "lastAttempt row = query (\<lambda>s.
     orNotFound (findRow (\<lambda>_. True) (sort_key (\<lambda>a. - za_Attempt a)
       (filter (\<lambda>a. za_SettlementID a = zs_ID row) (attempts s)))))"

definition pendWithLineage :: "int \<Rightarrow> string \<Rightarrow> string \<Rightarrow> ZTAPIPendingSettlementLineage \<Rightarrow> mutation" where
  "pendWithLineage now usage missing lineage row =
     bindE (lastAttempt row) (\<lambda>a.
       if za_Attempt a \<noteq> li_FinalAttempt lineage \<or> za_ChannelID a \<noteq> li_ChannelID lineage \<or>
          za_HTTPStatus a < 200 \<or> za_HTTPStatus a \<ge> 300
       then fail ErrZTAPISettlementConflict
       else if upstreamIDsDiffer a lineage then fail ErrZTAPISettlementConflict
       else bindE (if za_UpstreamRequestID a = [] \<and> li_UpstreamRequestID lineage \<noteq> []
                   then saveAttempt now (a\<lparr>za_UpstreamRequestID := li_UpstreamRequestID lineage\<rparr>)
                   else ret ()) (\<lambda>_.
         if zs_Status row = ZTAPISettlementPending then
           (if zs_UsageJSON row \<noteq> usage \<or> zs_MissingDimensionsJSON row \<noteq> missing \<or>
               zs_FinalAttempt row \<noteq> li_FinalAttempt lineage
            then fail ErrZTAPISettlementConflict else ret row)
         else if zs_Status row \<noteq> ZTAPISettlementReserved \<or> zs_FinalAttempt row \<noteq> 0
         then fail ErrZTAPISettlementConflict
         else ret (row\<lparr>zs_Status := ZTAPISettlementPending, zs_UsageJSON := usage,
                        zs_MissingDimensionsJSON := missing, zs_FinalAttempt := li_FinalAttempt lineage\<rparr>)))"

definition pendZTAPIRequestSettlementWithLineageAndHook ::
  "codec \<Rightarrow> bool \<Rightarrow> int \<Rightarrow> string \<Rightarrow> string \<Rightarrow> string \<Rightarrow> ZTAPIPendingSettlementLineage \<Rightarrow> mutation \<Rightarrow> mutation \<Rightarrow>
   (store, ZTAPIRequestSettlement) act" where
  "pendZTAPIRequestSettlementWithLineageAndHook codec redis now op usage missing lineage precondition hook =
     (if settlementJSONInvalid codec usage 65536 \<or> settlementJSONInvalid codec missing 8192 \<or> lineageInvalid lineage
      then fail ErrZTAPISettlementInvalid
      else mutateZTAPISettlementWithHooks redis now op precondition
        (pendWithLineage now usage missing lineage) hook)"

definition PendZTAPIRequestSettlementWithLineage ::
  "codec \<Rightarrow> bool \<Rightarrow> int \<Rightarrow> string \<Rightarrow> string \<Rightarrow> string \<Rightarrow> ZTAPIPendingSettlementLineage \<Rightarrow>
   (store, ZTAPIRequestSettlement) act" where
  "PendZTAPIRequestSettlementWithLineage codec redis now op usage missing lineage =
     pendZTAPIRequestSettlementWithLineageAndHook codec redis now op usage missing lineage ret ret"

section \<open>Releasing a hold\<close>

text \<open>The whole hold goes back: the wallet's to the wallet, the token's to the token.\<close>

definition returnHold :: "int \<Rightarrow> string \<Rightarrow> string \<Rightarrow> mutation" where
  "returnHold now key reason row =
     bindE (ztapiSettlementOwners row) (\<lambda>(user, token).
     bindE (ztapiSettlementWalletDeltaTx now user (zs_ReservedQuota row) (zs_RequestID row) key reason
       BalanceLedgerSourceBillingRefund False) (\<lambda>entry.
     bindE (tokenShare row token (zs_TokenReservedQuota row) False) (\<lambda>_.
     ret ((withLedger entry row)\<lparr>zs_Status := ZTAPISettlementReleased\<rparr>))))"

definition releaseSettlement :: "int \<Rightarrow> string \<Rightarrow> mutation" where
  "releaseSettlement now op row =
     (if zs_Status row = ZTAPISettlementReleased then ret row
      else if zs_Status row = ZTAPISettlementSettled then fail ErrZTAPISettlementConflict
      else if zs_Status row = ZTAPISettlementPending \<or> zs_Dispatched row then fail ErrZTAPISettlementPending
      else bindE (refuseIntent row) (\<lambda>_.
        returnHold now (''ztapi:'' @ op @ '':release'') ''undispatched request reservation release'' row))"

definition ReleaseZTAPIRequestSettlement :: "bool \<Rightarrow> int \<Rightarrow> string \<Rightarrow> (store, ZTAPIRequestSettlement) act" where
  "ReleaseZTAPIRequestSettlement redis now op = mutateZTAPISettlement redis now op (releaseSettlement now op)"

definition ztapiUpstreamRejectedBeforeInference :: "int \<Rightarrow> bool" where
  "ztapiUpstreamRejectedBeforeInference status =
     (if status = 408 then False else if status \<ge> 400 \<and> status < 500 then True else status = 503)"

definition releaseRejected :: "int \<Rightarrow> string \<Rightarrow> mutation" where
  "releaseRejected now op row =
     (if zs_Status row = ZTAPISettlementReleased then ret row
      else if zs_Status row = ZTAPISettlementSettled then fail ErrZTAPISettlementConflict
      else if zs_Status row \<noteq> ZTAPISettlementReserved \<and> zs_Status row \<noteq> ZTAPISettlementPending
      then fail ErrZTAPISettlementPending
      else if zs_Status row = ZTAPISettlementPending \<and>
              zs_MissingDimensionsJSON row \<noteq> ZTAPIMissingUpstreamBillingUnconfirmed
      then fail ErrZTAPISettlementPending
      else if zs_ChargedQuota row \<noteq> 0 \<or> zs_TokenChargedQuota row \<noteq> 0 then fail ErrZTAPISettlementConflict
      else bindE (query (\<lambda>s. Inr (sort_key za_Attempt
            (filter (\<lambda>a. za_SettlementID a = zs_ID row) (attempts s))))) (\<lambda>tried.
        if tried = [] then fail ErrZTAPISettlementPending
        else if \<exists>a \<in> set tried. za_SafetyOutcome a \<or> \<not> ztapiUpstreamRejectedBeforeInference (za_HTTPStatus a)
        then fail ErrZTAPISettlementPending
        else bindE (refuseIntent row) (\<lambda>_.
          bindE (returnHold now (''ztapi:'' @ op @ '':upstream-rejected'')
            ''supplier rejected the request before inference, releasing the original reservation'' row) (\<lambda>row.
          ret (row\<lparr>zs_MissingDimensionsJSON := ''[]'', zs_FinalAttempt := za_Attempt (last tried)\<rparr>)))))"

definition ReleaseZTAPIDispatchedRejectedSettlement ::
  "bool \<Rightarrow> int \<Rightarrow> string \<Rightarrow> (store, ZTAPIRequestSettlement) act" where
  "ReleaseZTAPIDispatchedRejectedSettlement redis now op =
     mutateZTAPISettlement redis now op (releaseRejected now op)"

text \<open>
  The sweep over the parked holds, page by page; \<open>fuel\<close> bounds the number of pages. Every page
  starts after the last id of the one before, so one page more than there are rows is enough.
  The first error of another kind than missing proof is reported in the end.
\<close>

primrec releasePage ::
  "bool \<Rightarrow> int \<Rightarrow> ZTAPIRequestSettlement list \<Rightarrow> int \<Rightarrow> err option \<Rightarrow> (store, int \<times> err option) act" where
  "releasePage redis now [] released firstErr = ret (released, firstErr)"
| "releasePage redis now (row # rows) released firstErr =
     bindE (attempt (ReleaseZTAPIDispatchedRejectedSettlement redis now (zs_OperationID row))) (\<lambda>result.
       case result of
         Inr _ \<Rightarrow> releasePage redis now rows (released + 1) firstErr
       | Inl err \<Rightarrow>
           if err = ErrZTAPISettlementPending \<or> err = ErrZTAPISettlementConflict
           then releasePage redis now rows released firstErr
           else releasePage redis now rows released (if firstErr = None then Some err else firstErr))"

primrec releaseHolds ::
  "nat \<Rightarrow> bool \<Rightarrow> int \<Rightarrow> nat \<Rightarrow> int \<Rightarrow> int \<Rightarrow> err option \<Rightarrow> (store, int \<times> err option) act" where
  "releaseHolds 0 redis now limit lastID released firstErr = fail NotReturning"
| "releaseHolds (Suc fuel) redis now limit lastID released firstErr =
     bindE (attempt (query (\<lambda>s. Inr (take limit (sort_key zs_ID (filter (\<lambda>r.
         zs_Status r = ZTAPISettlementPending \<and>
         zs_MissingDimensionsJSON r = ZTAPIMissingUpstreamBillingUnconfirmed \<and> zs_ID r > lastID)
         (settlements s))))))) (\<lambda>found.
       case found of
         Inl err \<Rightarrow> ret (released, Some err)
       | Inr rows \<Rightarrow>
           bindE (releasePage redis now rows released firstErr) (\<lambda>(released, firstErr).
             if length rows < limit then ret (released, firstErr)
             else releaseHolds fuel redis now limit (zs_ID (last rows)) released firstErr))"

definition ReleaseZTAPIRejectedDispatchedHolds ::
  "nat \<Rightarrow> bool \<Rightarrow> int \<Rightarrow> int \<Rightarrow> (store, int \<times> err option) act" where
  "ReleaseZTAPIRejectedDispatchedHolds fuel redis now limit =
     (if limit \<le> 0 then ret (0, None) else releaseHolds fuel redis now (nat limit) 0 0 None)"

section \<open>Charge dimensions\<close>

text \<open>The token's charge is spread over the dimensions in their order.\<close>

fun allotTokenCharge ::
  "int \<Rightarrow> ZTAPISupplierRefundDimension list \<Rightarrow> int \<times> ZTAPISupplierRefundDimension list" where
  "allotTokenCharge remaining [] = (remaining, [])"
| "allotTokenCharge remaining (d # ds) =
     (let share = min remaining (sd_ChargedQuota d);
          (rest, ds') = allotTokenCharge (remaining - share) ds
      in (rest, d\<lparr>sd_TokenChargedQuota := share\<rparr> # ds'))"

definition normalizeZTAPIChargeDimensions :: "codec \<Rightarrow> string \<Rightarrow> int \<Rightarrow> int \<Rightarrow> err + string" where
  "normalizeZTAPIChargeDimensions codec raw actual tokenCharge =
     (case cd_dims codec raw of
        None \<Rightarrow> Inl ErrZTAPISettlementInvalid
      | Some dims \<Rightarrow>
          if length dims > 128 then Inl ErrZTAPISettlementInvalid
          else case allotTokenCharge tokenCharge dims of (remaining, dims) \<Rightarrow>
            if remaining \<noteq> 0 then Inl ErrZTAPISettlementInvalid
            else case planZTAPISupplierRefund actual tokenCharge dims [] ''full'' [] of
              Inl err \<Rightarrow> Inl err
            | Inr _ \<Rightarrow> Inr (cd_putDims codec dims))"

section \<open>Finalizing without evidence\<close>

text \<open>A settled row only answers a repetition of what it was settled with.\<close>

definition replayFinal :: "codec \<Rightarrow> int \<Rightarrow> string \<Rightarrow> string \<Rightarrow> mutation" where
  "replayFinal codec actual usage dimensions row =
     (case normalizeZTAPIChargeDimensions codec dimensions actual (zs_TokenChargedQuota row) of
        Inl _ \<Rightarrow> fail ErrZTAPISettlementConflict
      | Inr canonical \<Rightarrow>
          if zs_ChargedQuota row \<noteq> actual \<or> zs_UsageJSON row \<noteq> usage \<or> zs_ChargeDimensionsJSON row \<noteq> canonical
          then fail ErrZTAPISettlementConflict
          else ret row)"

text \<open>The difference of hold and charge moves; the wallet may go into debt, the token is used up.\<close>

definition chargeHold :: "codec \<Rightarrow> int \<Rightarrow> string \<Rightarrow> int \<Rightarrow> string \<Rightarrow> string \<Rightarrow> mutation" where
  "chargeHold codec now op actual usage dimensions row =
     bindE (ztapiSettlementOwners row) (\<lambda>(user, token).
     bindE (ztapiSettlementWalletDeltaTx now user (zs_ReservedQuota row - actual) (zs_RequestID row)
       (''ztapi:'' @ op @ '':settle'') ''managed request actual usage settlement''
       BalanceLedgerSourceUsageSettlement True) (\<lambda>entry.
     bindE (tokenShare row token (zs_TokenReservedQuota row - actual) True) (\<lambda>d.
       let tokenCharged = (if zs_TokenUnlimited row then 0 else zs_TokenReservedQuota row - d) in
       if u_UsedQuota user + actual > maxBalanceLedgerQuota then fail ErrBalanceLedgerOverflow
       else bindE (updateRows users users_update (\<lambda>u. u_Id u = zs_UserID row)
           (\<lambda>u. u\<lparr>u_UsedQuota := u_UsedQuota u + actual, u_RequestCount := u_RequestCount u + 1\<rparr>)) (\<lambda>rows.
         if rows \<noteq> 1 then fail ErrZTAPISettlementConflict
         else case normalizeZTAPIChargeDimensions codec dimensions actual tokenCharged of
           Inl err \<Rightarrow> fail err
         | Inr canonical \<Rightarrow>
             ret ((withLedger entry row)
               \<lparr>zs_Status := ZTAPISettlementSettled, zs_MissingDimensionsJSON := ''[]'',
                zs_ChargedQuota := actual, zs_TokenChargedQuota := tokenCharged, zs_UsageJSON := usage,
                zs_ChargeDimensionsJSON := canonical\<rparr>)))))"

definition finalizeSettlement :: "codec \<Rightarrow> int \<Rightarrow> string \<Rightarrow> int \<Rightarrow> string \<Rightarrow> string \<Rightarrow> mutation" where
  "finalizeSettlement codec now op actual usage dimensions row =
     (if zs_Status row = ZTAPISettlementSettled then replayFinal codec actual usage dimensions row
      else if zs_Status row \<noteq> ZTAPISettlementReserved then fail ErrZTAPISettlementPending
      else bindE (refuseIntent row) (\<lambda>_.
        case normalizeZTAPIChargeDimensions codec dimensions actual 0 of
          Inl err \<Rightarrow> fail err
        | Inr _ \<Rightarrow> chargeHold codec now op actual usage dimensions row))"

definition FinalizeZTAPIRequestSettlement ::
  "codec \<Rightarrow> bool \<Rightarrow> int \<Rightarrow> string \<Rightarrow> int \<Rightarrow> string \<Rightarrow> string \<Rightarrow> (store, ZTAPIRequestSettlement) act" where
  "FinalizeZTAPIRequestSettlement codec redis now op actual usage dimensions =
     (if actual < 0 \<or> actual > maxBalanceLedgerQuota \<or> settlementJSONInvalid codec usage 65536 \<or>
         settlementJSONInvalid codec dimensions 65536
      then fail ErrZTAPISettlementInvalid
      else mutateZTAPISettlement redis now op (finalizeSettlement codec now op actual usage dimensions))"

section \<open>Releasing a dispatched hold that the supplier does not bill\<close>

definition releaseNoCharge ::
  "int \<Rightarrow> string \<Rightarrow> string \<Rightarrow> string \<Rightarrow> ZTAPIPendingSettlementLineage \<Rightarrow> string \<Rightarrow> mutation" where
  "releaseNoCharge now op usage canonical lineage allowedPendingMissing row =
     bindE (firstRow attempts (\<lambda>a. za_SettlementID a = zs_ID row \<and> za_Attempt a = li_FinalAttempt lineage)) (\<lambda>a.
       if za_ChannelID a \<noteq> li_ChannelID lineage \<or> za_HTTPStatus a < 200 \<or> za_HTTPStatus a \<ge> 300 \<or>
          upstreamIDsDiffer a lineage
       then fail ErrZTAPISettlementConflict
       else if zs_Status row = ZTAPISettlementReleased then
         (if zs_ChargedQuota row \<noteq> 0 \<or> zs_UsageJSON row \<noteq> usage \<or> zs_ChargeDimensionsJSON row \<noteq> canonical \<or>
             zs_MissingDimensionsJSON row \<noteq> ''[]'' \<or> zs_FinalAttempt row \<noteq> li_FinalAttempt lineage
          then fail ErrZTAPISettlementConflict else ret row)
       else if zs_Status row \<noteq> ZTAPISettlementReserved \<and>
               \<not> (allowedPendingMissing \<noteq> [] \<and> zs_Status row = ZTAPISettlementPending \<and>
                  zs_MissingDimensionsJSON row = allowedPendingMissing)
       then fail ErrZTAPISettlementPending
       else bindE (refuseIntent row) (\<lambda>_.
         bindE (returnHold now (''ztapi:'' @ op @ '':media-no-charge'')
           ''trusted media supplier non-billing releases original reservation'' row) (\<lambda>row.
         ret (row\<lparr>zs_ChargedQuota := 0, zs_TokenChargedQuota := 0, zs_UsageJSON := usage,
                  zs_ChargeDimensionsJSON := canonical, zs_MissingDimensionsJSON := ''[]'',
                  zs_FinalAttempt := li_FinalAttempt lineage\<rparr>))))"

definition releaseZTAPIDispatchedNoChargeWithLineageAndHook ::
  "codec \<Rightarrow> bool \<Rightarrow> int \<Rightarrow> string \<Rightarrow> string \<Rightarrow> string \<Rightarrow> ZTAPIPendingSettlementLineage \<Rightarrow> string \<Rightarrow> mutation \<Rightarrow>
   mutation \<Rightarrow> (store, ZTAPIRequestSettlement) act" where
  "releaseZTAPIDispatchedNoChargeWithLineageAndHook codec redis now op usage dimensions lineage
     allowedPendingMissing precondition hook =
     (if settlementJSONInvalid codec usage 65536 \<or> settlementJSONInvalid codec dimensions 65536 \<or> lineageInvalid lineage
      then fail ErrZTAPISettlementInvalid
      else case normalizeZTAPIChargeDimensions codec dimensions 0 0 of
        Inl err \<Rightarrow> fail err
      | Inr canonical \<Rightarrow> mutateZTAPISettlementWithHooks redis now op precondition
          (releaseNoCharge now op usage canonical lineage allowedPendingMissing) hook)"

end
