(* ===== verification/RequestRuns.thy ===== *)
theory RequestRuns
  imports Requests
begin

text \<open>
  What any sequence of operations on request settlements can do. The locale
  \<open>settlement_mutation\<close> states what the change of a locked row promises: at most one ledger
  entry, for exactly the difference between the row's hold before and after, the token's quota
  conserved, and a step of the row's lifecycle. Every mutation of the code interprets it; the
  invariants of whole runs follow once for all.
\<close>

section \<open>Holds and the ledger\<close>

text \<open>What a row keeps of the wallet.\<close>

definition heldQuota :: "ZTAPIRequestSettlement \<Rightarrow> int" where
  "heldQuota r =
     (if zs_Status r = ZTAPISettlementSettled then zs_ChargedQuota r
      else if zs_Status r = ZTAPISettlementReleased then 0 else zs_ReservedQuota r)"

definition requestEntry :: "BalanceLedger \<Rightarrow> bool" where
  "requestEntry e \<longleftrightarrow> HasPrefix (bl_IdempotencyKey e) ''ztapi:''"

definition requestTotal :: "BalanceLedger list \<Rightarrow> string \<Rightarrow> int" where
  "requestTotal es req = (\<Sum>e \<leftarrow> filter (\<lambda>e. requestEntry e \<and> bl_RequestID e = req) es. bl_Delta e)"

lemma requestTotal_append [simp]: "requestTotal (xs @ ys) req = requestTotal xs req + requestTotal ys req"
  by (simp add: requestTotal_def)

lemma requestTotal_Nil [simp]: "requestTotal [] req = 0"
  by (simp add: requestTotal_def)

lemma requestTotal_none: "\<forall>e \<in> set es. requestEntry e \<longrightarrow> bl_RequestID e \<noteq> req \<Longrightarrow> requestTotal es req = 0"
  by (induction es) (auto simp: requestTotal_def)

lemma requestEntry_key [simp]:
  "bl_IdempotencyKey e = ''ztapi:'' @ s \<Longrightarrow> requestEntry e"
  by (simp add: requestEntry_def)

definition settlementStates :: "string set" where
  "settlementStates = {ZTAPISettlementReserved, ZTAPISettlementPending, ZTAPISettlementSettled, ZTAPISettlementReleased}"

text \<open>The tables of settlements, and that the ledger says of every row what the row says.\<close>

definition requestBooks :: "store \<Rightarrow> bool" where
  "requestBooks s \<longleftrightarrow>
     distinct (map zs_ID (settlements s)) \<and> distinct (map zs_OperationID (settlements s)) \<and>
     distinct (map zs_RequestID (settlements s)) \<and> distinct (map t_Id (tokens s)) \<and>
     zs_Status ` set (settlements s) \<subseteq> settlementStates \<and>
     (\<forall>r \<in> set (settlements s). requestTotal (ledgers s) (zs_RequestID r) = - heldQuota r) \<and>
     (\<forall>e \<in> set (ledgers s). requestEntry e \<longrightarrow> bl_RequestID e \<in> zs_RequestID ` set (settlements s))"

text \<open>A token's quota, spent or not.\<close>

definition tokenSums :: "store \<Rightarrow> (int \<times> int) list" where
  "tokenSums s = map (\<lambda>k. (t_Id k, t_RemainQuota k + t_UsedQuota k)) (tokens s)"

section \<open>The lifecycle of a row\<close>

text \<open>Who asked for what never changes.\<close>

definition sameRequest :: "ZTAPIRequestSettlement \<Rightarrow> ZTAPIRequestSettlement \<Rightarrow> bool" where
  "sameRequest r r' \<longleftrightarrow>
     zs_ID r' = zs_ID r \<and> zs_OperationID r' = zs_OperationID r \<and> zs_RequestID r' = zs_RequestID r \<and>
     zs_UserID r' = zs_UserID r \<and> zs_TokenID r' = zs_TokenID r \<and>
     zs_TokenUnlimited r' = zs_TokenUnlimited r \<and> zs_PublicModel r' = zs_PublicModel r \<and>
     zs_PriceSnapshotJSON r' = zs_PriceSnapshotJSON r \<and> zs_CreatedAt r' = zs_CreatedAt r \<and>
     zs_InitialReservedQuota r' = zs_InitialReservedQuota r"

definition sameMoney :: "ZTAPIRequestSettlement \<Rightarrow> ZTAPIRequestSettlement \<Rightarrow> bool" where
  "sameMoney r r' \<longleftrightarrow>
     zs_Status r' = zs_Status r \<and> zs_ReservedQuota r' = zs_ReservedQuota r \<and>
     zs_TokenReservedQuota r' = zs_TokenReservedQuota r \<and> zs_ChargedQuota r' = zs_ChargedQuota r \<and>
     zs_TokenChargedQuota r' = zs_TokenChargedQuota r \<and> zs_UsageJSON r' = zs_UsageJSON r \<and>
     zs_ChargeDimensionsJSON r' = zs_ChargeDimensionsJSON r"

text \<open>
  The states: a reserved hold only grows; a parked one keeps its amount and is released or not;
  settled and released rows are final.
\<close>

inductive lifecycle :: "ZTAPIRequestSettlement \<Rightarrow> ZTAPIRequestSettlement \<Rightarrow> bool" where
  same: "sameMoney r r' \<Longrightarrow> lifecycle r r'"
| more: "zs_Status r = ZTAPISettlementReserved \<Longrightarrow> zs_Status r' = ZTAPISettlementReserved \<Longrightarrow>
    zs_ReservedQuota r \<le> zs_ReservedQuota r' \<Longrightarrow> lifecycle r r'"
| park: "zs_Status r = ZTAPISettlementReserved \<Longrightarrow> zs_Status r' = ZTAPISettlementPending \<Longrightarrow>
    zs_ReservedQuota r \<le> zs_ReservedQuota r' \<Longrightarrow> lifecycle r r'"
| settle: "zs_Status r = ZTAPISettlementReserved \<Longrightarrow> zs_Status r' = ZTAPISettlementSettled \<Longrightarrow>
    lifecycle r r'"
| release: "zs_Status r \<in> {ZTAPISettlementReserved, ZTAPISettlementPending} \<Longrightarrow>
    zs_Status r' = ZTAPISettlementReleased \<Longrightarrow> lifecycle r r'"

inductive_cases lifecycleE: "lifecycle r r'"

lemma lifecycle_refl [simp]: "lifecycle r r"
  by (rule lifecycle.same) (simp add: sameMoney_def)

lemma lifecycle_state: "lifecycle r r' \<Longrightarrow> zs_Status r \<in> settlementStates \<Longrightarrow> zs_Status r' \<in> settlementStates"
  by (erule lifecycleE) (simp_all add: sameMoney_def settlementStates_def)

lemma lifecycle_trans:
  assumes "lifecycle r r'" "lifecycle r' r''"
  shows "lifecycle r r''"
  using assms by (elim lifecycleE) (auto simp: sameMoney_def intro: lifecycle.intros)

section \<open>What a mutation of a row does\<close>

definition gives :: "('a \<Rightarrow> store \<Rightarrow> bool) \<Rightarrow> err + 'a \<Rightarrow> store \<Rightarrow> bool" where
  "gives P r t \<longleftrightarrow> (case r of Inl _ \<Rightarrow> True | Inr a \<Rightarrow> P a t)"

lemma gives_simps [simp]: "gives P (Inl e) t" "gives P (Inr a) t = P a t"
  by (simp_all add: gives_def)

lemma wp_givesI:
  "wp m (gives P) s \<Longrightarrow> (\<And>a t. P a t \<Longrightarrow> wp (k a) (gives Q) t) \<Longrightarrow> wp (bindE m k) (gives Q) s"
  by (rule wp_bindI [where P = "gives P"]) simp_all

lemma wp_gives_mono: "wp m (gives P) s \<Longrightarrow> (\<And>a t. P a t \<Longrightarrow> Q a t) \<Longrightarrow> wp m (gives Q) s"
  by (erule wp_mono) (auto simp: gives_def split: sum.splits)

lemma wp_gives_attempt:
  "wp m (gives P) s \<Longrightarrow> keeps I m \<Longrightarrow> I s \<Longrightarrow> (\<And>e t. I t \<Longrightarrow> wp (k (Inl e)) (gives Q) t) \<Longrightarrow>
   (\<And>a t. P a t \<Longrightarrow> wp (k (Inr a)) (gives Q) t) \<Longrightarrow> wp (bindE (attempt m) k) (gives Q) s"
proof (rule wp_bind_attemptI [where P = "\<lambda>r t. gives P r t \<and> I t"])
  assume "wp m (gives P) s" "keeps I m" "I s"
  then have "wp m (gives P) s" "wp m (\<lambda>_. I) s" by (auto intro: keeps_wp)
  then show "wp m (\<lambda>r t. gives P r t \<and> I t) s" by (auto simp: wp_def split: prod.splits)
qed (auto simp: gives_def split: sum.splits)

text \<open>Tables that differ only in the ledger, the users it accounts for and the tokens.\<close>

definition sameRows :: "store \<Rightarrow> store \<Rightarrow> bool" where
  "sameRows s t \<longleftrightarrow> settlements t = settlements s \<and> map t_Id (tokens t) = map t_Id (tokens s) \<and>
     tokenSums t = tokenSums s \<and> (\<forall>base. ledger_ok base s \<longrightarrow> ledger_ok base t)"

lemma sameRows_refl [simp]: "sameRows s s"
  by (simp add: sameRows_def)

lemma sameRows_trans: "sameRows s t \<Longrightarrow> sameRows t u \<Longrightarrow> sameRows s u"
  by (simp add: sameRows_def)

text \<open>The entries of a request that move \<open>q\<close>.\<close>

definition postedFor :: "store \<Rightarrow> string \<Rightarrow> int \<Rightarrow> store \<Rightarrow> bool" where
  "postedFor s req q t \<longleftrightarrow> (\<exists>es. ledgers t = ledgers s @ es \<and>
     (\<forall>e \<in> set es. requestEntry e \<and> bl_RequestID e = req) \<and> sum_list (map bl_Delta es) = q)"

lemma postedFor_none: "ledgers t = ledgers s \<Longrightarrow> postedFor s req 0 t"
  by (auto simp: postedFor_def)

lemma postedFor_one:
  "ledgers t = ledgers s @ [e] \<Longrightarrow> requestEntry e \<Longrightarrow> bl_RequestID e = req \<Longrightarrow> bl_Delta e = q \<Longrightarrow> postedFor s req q t"
  unfolding postedFor_def by (intro exI [of _ "[e]"]) simp

lemma postedFor_cong: "postedFor s req q t \<Longrightarrow> ledgers u = ledgers t \<Longrightarrow> postedFor s req q u"
  by (simp add: postedFor_def)

lemma postedFor_total:
  assumes "postedFor s req q t"
  shows "requestTotal (ledgers t) r = requestTotal (ledgers s) r + (if r = req then q else 0)"
proof -
  obtain es where es: "ledgers t = ledgers s @ es" "\<forall>e \<in> set es. requestEntry e \<and> bl_RequestID e = req"
    "sum_list (map bl_Delta es) = q"
    using assms unfolding postedFor_def by blast
  then have "filter (\<lambda>e. requestEntry e \<and> bl_RequestID e = r) es = (if r = req then es else [])"
    by (auto simp: filter_id_conv filter_empty_conv)
  with es show ?thesis by (simp add: requestTotal_def)
qed

lemma postedFor_known:
  "postedFor s req q t \<Longrightarrow> e \<in> set (ledgers t) \<Longrightarrow> requestEntry e \<Longrightarrow> e \<in> set (ledgers s) \<or> bl_RequestID e = req"
  by (auto simp: postedFor_def)

text \<open>The whole contract of the change of a row.\<close>

definition moved :: "store \<Rightarrow> ZTAPIRequestSettlement \<Rightarrow> ZTAPIRequestSettlement \<Rightarrow> store \<Rightarrow> bool" where
  "moved s row row' t \<longleftrightarrow>
     sameRows s t \<and> sameRequest row row' \<and> lifecycle row row' \<and>
     postedFor s (zs_RequestID row) (heldQuota row - heldQuota row') t"

lemma movedI:
  assumes "sameRows s t" "sameRequest row row'" "lifecycle row row'" "postedFor s (zs_RequestID row) q t"
    "q = heldQuota row - heldQuota row'"
  shows "moved s row row' t"
  using assms by (simp add: moved_def)

lemma moved_unmoved:
  "settlements t = settlements s \<Longrightarrow> tokens t = tokens s \<Longrightarrow> users t = users s \<Longrightarrow> ledgers t = ledgers s \<Longrightarrow>
   sameRequest row row' \<Longrightarrow> sameMoney row row' \<Longrightarrow> moved s row row' t"
  by (rule movedI [where q = 0])
     (auto simp: sameRows_def tokenSums_def ledger_ok_frame [of t s] heldQuota_def sameMoney_def
       intro: postedFor_none lifecycle.same)

section \<open>The wallet and the token\<close>

lemma ledger_ok_unscoped:
  assumes ok: "ledger_ok base s" and u: "findRow (\<lambda>u. u_Id u = i) (users s) = Some u"
    and e: "bl_UserID e = i" "bl_BalanceBefore e = u_Quota u" "bl_BalanceAfter e = bl_BalanceBefore e + bl_Delta e"
      "bl_IdempotencyKey e \<notin> bl_IdempotencyKey ` set (ledgers s)"
    and f: "\<And>u. u_Id (f u) = u_Id u" "\<And>u. u_Quota (f u) = bl_BalanceAfter e"
    and t: "users t = updateWhere (\<lambda>u. u_Id u = i) f (users s)" "ledgers t = ledgers s @ [e]"
  shows "ledger_ok base t"
proof -
  have mem: "u \<in> set (users s)" "u_Id u = i" using findRow_Some [OF u] by auto
  have quota: "u_Quota v = replay base (ledgers t) (u_Id v)" if v: "v \<in> set (users t)" for v
  proof -
    obtain w where w: "w \<in> set (users s)" "v = (if u_Id w = i then f w else w)"
      using v unfolding t by (rule in_updateWhereE)
    with ok f e t show ?thesis
      by (cases "u_Id w = i") (auto simp: replay_append ledger_ok_def)
  qed
  have "map u_Id (users t) = map u_Id (users s)" unfolding t by (rule map_updateWhere) (simp add: f)
  moreover have "chained base (ledgers t)" using ok mem e t by (auto simp: chained_append ledger_ok_def)
  moreover have "distinct (map bl_IdempotencyKey (ledgers t))" using ok e t by (auto simp: ledger_ok_def)
  ultimately show ?thesis using ok quota by (auto simp: ledger_ok_def)
qed

lemma up_quota_settlement [simp]: "up_quota (settlementUserUpdates user after neg) = after"
  by (simp add: settlementUserUpdates_def Let_def)

lemma wp_walletDelta:
  assumes "findRow (\<lambda>u. u_Id u = i) (users s) = Some user" "requestEntry (e0\<lparr>bl_IdempotencyKey := key\<rparr>)"
  shows "wp (ztapiSettlementWalletDeltaTx now user delta req key reason source neg)
     (gives (\<lambda>_ t. sameRows s t \<and> tokens t = tokens s \<and> postedFor s req delta t)) s"
proof -
  have i: "u_Id user = i" using findRow_Some [OF assms(1)] by simp
  have key: "requestEntry e" if "bl_IdempotencyKey e = key" for e
    using assms(2) that by (simp add: requestEntry_def)
  show ?thesis
    unfolding ztapiSettlementWalletDeltaTx_def i
  proof (intro wp_if, goal_cases)
    case 1
    then show ?case by (simp add: postedFor_none)
  next
    case 2
    show ?case
    proof (cases "checkedSum neg (u_Quota user) delta")
      case (Inr after)
      let ?t = "s\<lparr>users := updateWhere (\<lambda>u. u_Id u = i) (applyUserUpdates (settlementUserUpdates user after neg)) (users s)\<rparr>"
      have after: "after = u_Quota user + delta" using checkedSum_Inr_eq [OF Inr] .
      have "sameRows s (?t\<lparr>ledgers := ledgers s @ [e]\<rparr>)"
        if "bl_UserID e = i" "bl_BalanceBefore e = u_Quota user" "bl_BalanceAfter e = after" "bl_Delta e = delta"
          "bl_IdempotencyKey e \<notin> bl_IdempotencyKey ` set (ledgers s)" for e
        using ledger_ok_unscoped [OF _ assms(1), of _ e "applyUserUpdates (settlementUserUpdates user after neg)" "?t\<lparr>ledgers := ledgers s @ [e]\<rparr>"] that after
        by (auto simp: sameRows_def tokenSums_def)
      moreover have "postedFor s req delta (?t\<lparr>ledgers := ledgers s @ [e]\<rparr>)"
        if "bl_IdempotencyKey e = key" "bl_RequestID e = req" "bl_Delta e = delta" for e
        by (rule postedFor_one [of _ _ e]) (use key that in simp_all)
      ultimately show ?thesis using Inr by (auto intro!: wp_intro)
    qed simp
  qed
qed

lemma wp_tokenDelta:
  assumes "findRow (\<lambda>k. t_Id k = i) (tokens s) = Some token" "distinct (map t_Id (tokens s))"
  shows "wp (ztapiSettlementTokenDeltaTx token delta debt)
     (gives (\<lambda>_ t. sameRows s t \<and> users t = users s \<and> ledgers t = ledgers s)) s"
proof -
  have tok: "token \<in> set (tokens s)" "t_Id token = i" using findRow_Some [OF assms(1)] by auto
  have same: "sameRows s (s\<lparr>tokens := updateWhere (\<lambda>k. t_Id k = t_Id token \<and> t_UserId k = t_UserId token)
      (tokenCredited after used token) (tokens s)\<rparr>)"
    if "after + used = t_RemainQuota token + t_UsedQuota token" for after used
  proof -
    have only: "k = token" if "k \<in> set (tokens s)" "t_Id k = t_Id token" for k
      using distinct_key_unique [OF assms(2) that(1) tok(1) that(2)] .
    from that show ?thesis
      unfolding sameRows_def tokenSums_def
      by (auto simp: tokenCredited_def ledger_ok_def intro!: map_updateWhere dest!: only)
  qed
  show ?thesis
    unfolding ztapiSettlementTokenDeltaTx_def Let_def
    by (auto intro!: wp_intro same dest!: checkedSum_Inr_sum split: sum.splits)
qed

lemma wp_tokenShare:
  assumes "findRow (\<lambda>k. t_Id k = i) (tokens s) = Some token" "distinct (map t_Id (tokens s))"
  shows "wp (tokenShare row token delta debt)
     (gives (\<lambda>_ t. sameRows s t \<and> users t = users s \<and> ledgers t = ledgers s)) s"
  using wp_tokenDelta [OF assms] by (simp add: tokenShare_def)

lemma wp_owners:
  "wp (ztapiSettlementOwners row)
     (gives (\<lambda>(user, token) t. t = s \<and> findRow (\<lambda>u. u_Id u = zs_UserID row) (users s) = Some user \<and>
        findRow (\<lambda>k. t_Id k = zs_TokenID row) (tokens s) = Some token)) s"
  unfolding ztapiSettlementOwners_def by (auto intro!: wp_intro)

section \<open>What a run of operations does\<close>

definition requestsRun :: "store \<Rightarrow> store \<Rightarrow> bool" where
  "requestsRun s t \<longleftrightarrow>
     requestBooks t \<and> (\<forall>base. ledger_ok base s \<longrightarrow> ledger_ok base t) \<and> tokenSums t = tokenSums s \<and>
     (\<forall>r \<in> set (settlements s). \<exists>r' \<in> set (settlements t). sameRequest r r' \<and> lifecycle r r')"

lemma sameRequest_refl [simp]: "sameRequest r r"
  by (simp add: sameRequest_def)

lemma sameMoney_refl [simp]: "sameMoney r r"
  by (simp add: sameMoney_def)

lemma sameRequest_trans: "sameRequest r r' \<Longrightarrow> sameRequest r' r'' \<Longrightarrow> sameRequest r r''"
  by (simp add: sameRequest_def)

lemma sameMoney_held: "sameMoney r r' \<Longrightarrow> heldQuota r' = heldQuota r"
  by (simp add: sameMoney_def heldQuota_def)

lemma requestsRun_refl: "requestBooks s \<Longrightarrow> requestsRun s s"
  unfolding requestsRun_def by (meson lifecycle_refl sameRequest_refl)

lemma requestsRun_trans: "requestsRun s t \<Longrightarrow> requestsRun t u \<Longrightarrow> requestsRun s u"
  unfolding requestsRun_def by (elim conjE, intro conjI; (simp; fail)?) (meson lifecycle_trans sameRequest_trans)

lemma keeps_requestsI:
  assumes "\<And>s. requestBooks s \<Longrightarrow> wp m (\<lambda>_. requestsRun s) s"
  shows "keeps (requestsRun s0) m"
proof (rule keepsI)
  fix s assume s: "requestsRun s0 s"
  then have "requestBooks s" by (simp add: requestsRun_def)
  from assms [OF this] show "wp m (\<lambda>_. requestsRun s0) s"
    by (rule wp_mono) (rule requestsRun_trans [OF s])
qed

lemma keeps_requestsD: "keeps (requestsRun s) m \<Longrightarrow> requestBooks s \<Longrightarrow> wp m (\<lambda>_. requestsRun s) s"
  by (erule keeps_wp) (rule requestsRun_refl)

text \<open>Writing back the row a mutation has changed.\<close>

lemma requestsRun_saved:
  assumes ok: "requestBooks s" and row: "row \<in> set (settlements s)" and mv: "moved s row row' t"
    and new: "sameRequest row' new" "sameMoney row' new"
  shows "requestsRun s (t\<lparr>settlements := updateWhere (\<lambda>r. zs_ID r = zs_ID row') (\<lambda>_. new) (settlements t)\<rparr>)"
    (is "requestsRun s ?t")
proof -
  have same: "sameRequest row new" "zs_ID row' = zs_ID row" "zs_ID new = zs_ID row"
    and life: "lifecycle row new" and rows: "settlements t = settlements s"
    and post: "postedFor s (zs_RequestID row) (heldQuota row - heldQuota row') t"
    using mv new by (auto simp: moved_def sameRows_def sameRequest_def intro: lifecycle_trans lifecycle.same)
  have only: "r = row" if "r \<in> set (settlements s)" "zs_ID r = zs_ID row \<or> zs_RequestID r = zs_RequestID row" for r
    using that row ok by (auto simp: requestBooks_def intro: distinct_key_unique [of zs_ID] distinct_key_unique [of zs_RequestID])
  have set: "r \<in> set (settlements ?t) \<longleftrightarrow> r = new \<or> r \<in> set (settlements s) \<and> zs_ID r \<noteq> zs_ID row" for r
    using row by (auto simp: rows set_updateWhere same)
  have keys: "map g (settlements ?t) = map g (settlements s)" if "g new = g row" for g :: "_ \<Rightarrow> 'b"
    using only that by (auto simp: rows same intro!: map_updateWhere)
  have req: "zs_RequestID ` set (settlements ?t) = zs_RequestID ` set (settlements s)"
    using keys [of zs_RequestID] same(1) by (metis list.set_map sameRequest_def)
  have total: "requestTotal (ledgers ?t) (zs_RequestID r) = - heldQuota r" if mem: "r \<in> set (settlements ?t)" for r
  proof -
    have req: "zs_RequestID new = zs_RequestID row" using same(1) by (simp add: sameRequest_def)
    have books: "requestTotal (ledgers s) (zs_RequestID x) = - heldQuota x" if "x \<in> set (settlements s)" for x
      using ok that by (simp add: requestBooks_def)
    consider "r = new" | "r \<in> set (settlements s)" "zs_ID r \<noteq> zs_ID row" using mem unfolding set by blast
    then show ?thesis
    proof cases
      case 1
      then show ?thesis using books [OF row] postedFor_total [OF post] sameMoney_held [OF new(2)] req by simp
    next
      case 2
      with only have "zs_RequestID r \<noteq> zs_RequestID row" by blast
      with books [OF 2(1)] postedFor_total [OF post] show ?thesis by simp
    qed
  qed
  have known: "bl_RequestID e \<in> zs_RequestID ` set (settlements ?t)" if "e \<in> set (ledgers ?t)" "requestEntry e" for e
    using that postedFor_known [OF post, of e] ok row unfolding req by (auto simp: requestBooks_def)
  have "map t_Id (tokens ?t) = map t_Id (tokens s)" using mv by (simp add: moved_def sameRows_def)
  moreover have "zs_Status ` set (settlements ?t) \<subseteq> settlementStates"
  proof (rule image_subsetI)
    fix r assume "r \<in> set (settlements ?t)"
    then consider "r = new" | "r \<in> set (settlements s)" unfolding set by blast
    then show "zs_Status r \<in> settlementStates"
      using ok row lifecycle_state [OF life] by cases (auto simp: requestBooks_def)
  qed
  ultimately have "requestBooks ?t"
    using ok total known keys [of zs_ID] keys [of zs_OperationID] keys [of zs_RequestID] same
    unfolding requestBooks_def by (simp add: sameRequest_def)
  moreover have "\<exists>r' \<in> set (settlements ?t). sameRequest r r' \<and> lifecycle r r'" if r: "r \<in> set (settlements s)" for r
  proof (cases "zs_ID r = zs_ID row")
    case True
    with only r have "r = row" by blast
    moreover have "new \<in> set (settlements ?t)" unfolding set by simp
    ultimately show ?thesis using same(1) life by blast
  next
    case False
    with r have "r \<in> set (settlements ?t)" unfolding set by blast
    then show ?thesis by (meson lifecycle_refl sameRequest_refl)
  qed
  ultimately show ?thesis
    using mv by (auto simp: requestsRun_def moved_def sameRows_def tokenSums_def ledger_ok_def)
qed

lemma requestsRun_flags:
  assumes ok: "requestBooks s" and f: "\<And>r. sameRequest r (f r)" "\<And>r. sameMoney r (f r)"
  shows "requestsRun s (s\<lparr>settlements := updateWhere P f (settlements s)\<rparr>)" (is "requestsRun s ?t")
proof -
  have keys: "map g (settlements ?t) = map g (settlements s)" if "\<And>r. g (f r) = g r" for g :: "_ \<Rightarrow> 'b"
    using that by (auto intro!: map_updateWhere)
  note k = keys [of zs_ID] keys [of zs_OperationID] keys [of zs_RequestID]
  have id: "zs_ID (f r) = zs_ID r" "zs_OperationID (f r) = zs_OperationID r" "zs_RequestID (f r) = zs_RequestID r" for r
    using f by (auto simp: sameRequest_def)
  have req: "zs_RequestID ` set (settlements ?t) = zs_RequestID ` set (settlements s)"
    using k(3) id by (metis list.set_map)
  have total: "requestTotal (ledgers ?t) (zs_RequestID r) = - heldQuota r" if r: "r \<in> set (settlements ?t)" for r
    using r ok by (auto simp: set_updateWhere requestBooks_def id sameMoney_held [OF f(2)])
  have "zs_Status ` set (settlements ?t) \<subseteq> settlementStates"
    using ok f(2) by (auto simp: requestBooks_def set_updateWhere sameMoney_def)
  then have "requestBooks ?t" using ok k id total req unfolding requestBooks_def by simp
  moreover have "\<exists>r' \<in> set (settlements ?t). sameRequest r r' \<and> lifecycle r r'" if "r \<in> set (settlements s)" for r
    using that f by (intro bexI [of _ "if P r then f r else r"]) (auto simp: set_updateWhere intro: lifecycle.same)
  ultimately show ?thesis by (simp add: requestsRun_def tokenSums_def ledger_ok_def)
qed

section \<open>The contract of a mutation\<close>

lemma bindE_ret [simp]: "bindE (ret a) k = k a"
  by (simp add: fun_eq_iff bindE_def ret_def)

lemma wp_save:
  "wp (saveSettlement now row) (gives (\<lambda>a t. a = row\<lparr>zs_UpdatedAt := now\<rparr> \<and>
     t = s\<lparr>settlements := updateWhere (\<lambda>r. zs_ID r = zs_ID row) (\<lambda>_. row\<lparr>zs_UpdatedAt := now\<rparr>) (settlements s)\<rparr>)) s"
  unfolding saveSettlement_def Let_def by (auto intro!: wp_intro)

lemma wp_lock:
  "wp (ztapiSettlementLock op) (gives (\<lambda>row t. t = s \<and> row \<in> set (settlements s) \<and> zs_OperationID row = op)) s"
  by (simp add: ztapiSettlementLock_def)

lemma keeps_sync: "keeps (requestsRun s0) (syncZTAPISettlementCaches redis row)"
proof -
  have "keeps (requestsRun s0) (updateRows settlements settlements_update P (\<lambda>r. r\<lparr>zs_CacheSyncPending := False\<rparr>))" for P
    by (rule keeps_requestsI)
       (auto intro!: requestsRun_refl requestsRun_flags simp: sameRequest_def sameMoney_def)
  then show ?thesis
    unfolding syncZTAPISettlementCaches_def by (intro keeps_intro)
qed

text \<open>The transaction around a change; \<open>R\<close> is what the change says of the row it returns.\<close>

lemma wp_mutationTx:
  assumes ok: "requestBooks s" and R: "\<And>r r'. R r \<Longrightarrow> sameRequest r r' \<Longrightarrow> sameMoney r r' \<Longrightarrow> R r'"
    and fn: "\<And>row. zs_Status row \<in> settlementStates \<Longrightarrow> zs_OperationID row = op \<Longrightarrow>
      wp (fn row) (gives (\<lambda>row' t. moved s row row' t \<and> R row')) s"
  shows "wp (mutationTx now op ret fn ret) (gives (\<lambda>row t. requestsRun s t \<and> R row \<and> row \<in> set (settlements t) \<and>
     map zs_ID (settlements t) = map zs_ID (settlements s))) s"
  unfolding mutationTx_def bindE_ret
proof (rule wp_givesI [OF wp_lock], clarify, rule wp_givesI [OF fn], goal_cases)
  case (1 row)
  with ok show ?case by (auto simp: requestBooks_def)
next
  case (2 row)
  then show ?case by simp
next
  case (3 row t row' u)
  let ?new = "row'\<lparr>zs_CacheSyncPending := True, zs_UpdatedAt := now\<rparr>"
  let ?u = "u\<lparr>settlements := updateWhere (\<lambda>r. zs_ID r = zs_ID row') (\<lambda>_. ?new) (settlements u)\<rparr>"
  have "requestsRun s ?u"
    by (rule requestsRun_saved [OF ok]) (use 3 in \<open>auto simp: sameRequest_def sameMoney_def\<close>)
  moreover have "R ?new" by (rule R [of row']) (use 3 in \<open>simp_all add: sameRequest_def sameMoney_def\<close>)
  moreover have "row \<in> set (settlements u)" "zs_ID row = zs_ID row'" and rows: "settlements u = settlements s"
    using 3 by (simp_all add: moved_def sameRows_def sameRequest_def)
  then have "?new \<in> set (settlements ?u)" by (force simp: set_updateWhere)
  moreover have "map zs_ID (settlements ?u) = map zs_ID (settlements s)"
    by (simp add: rows, rule map_updateWhere) simp
  ultimately show ?case by (intro wp_givesI [OF wp_save]) simp
qed

locale settlement_mutation =
  fixes fn :: mutation
  assumes moves: "distinct (map t_Id (tokens s)) \<Longrightarrow> zs_Status row \<in> settlementStates \<Longrightarrow> wp (fn row) (gives (moved s row)) s"
begin

lemma mutates: "keeps (requestsRun s0) (mutateZTAPISettlement redis now op fn)"
proof -
  have "wp (mutationTx now op ret fn ret) (gives (\<lambda>row t. requestsRun s t \<and> True \<and> row \<in> set (settlements t) \<and>
     map zs_ID (settlements t) = map zs_ID (settlements s))) s"
    if ok: "requestBooks s" for s
  proof (rule wp_mutationTx [OF ok])
    show "wp (fn row) (gives (\<lambda>row' t. moved s row row' t \<and> True)) s" if "zs_Status row \<in> settlementStates" for row
      using moves [of s row] ok that by (simp add: requestBooks_def)
  qed simp
  then have "keeps (requestsRun s0) (transaction (mutationTx now op ret fn ret))"
    by (intro keeps_requestsI) (rule wp_transactionI, assumption, auto intro: requestsRun_refl)
  then show ?thesis
    unfolding mutateZTAPISettlement_def mutateZTAPISettlementWithHooks_def
    by (intro keeps_bindE keeps_sync)
qed

end

section \<open>Every mutation keeps it\<close>

lemma withLedger_simps [simp]:
  "zs_ID (withLedger e r) = zs_ID r" "zs_OperationID (withLedger e r) = zs_OperationID r"
  "zs_RequestID (withLedger e r) = zs_RequestID r" "zs_UserID (withLedger e r) = zs_UserID r"
  "zs_TokenID (withLedger e r) = zs_TokenID r" "zs_TokenUnlimited (withLedger e r) = zs_TokenUnlimited r"
  "zs_PublicModel (withLedger e r) = zs_PublicModel r" "zs_PriceSnapshotJSON (withLedger e r) = zs_PriceSnapshotJSON r"
  "zs_CreatedAt (withLedger e r) = zs_CreatedAt r"
  "zs_InitialReservedQuota (withLedger e r) = zs_InitialReservedQuota r"
  "zs_Status (withLedger e r) = zs_Status r" "zs_ReservedQuota (withLedger e r) = zs_ReservedQuota r"
  by (simp_all add: withLedger_def split: option.splits)

lemma moved_refl [simp]: "moved s row row s"
  by (rule moved_unmoved) simp_all

text \<open>The movement of wallet and token every one of them makes.\<close>

lemma wp_movement:
  assumes tok: "distinct (map t_Id (tokens s))"
    and key: "requestEntry (e0\<lparr>bl_IdempotencyKey := key\<rparr>)"
    and k: "\<And>user entry d t. sameRows s t \<Longrightarrow> postedFor s (zs_RequestID row) q t \<Longrightarrow>
        wp (k user entry d) (gives Q) t"
  shows "wp (bindE (ztapiSettlementOwners row) (\<lambda>(user, token).
      bindE (ztapiSettlementWalletDeltaTx now user q (zs_RequestID row) key reason source neg) (\<lambda>entry.
      bindE (tokenShare row token share debt) (k user entry)))) (gives Q) s"
proof (rule wp_givesI [OF wp_owners], clarsimp, goal_cases)
  case (1 user token)
  show ?case
  proof (rule wp_givesI [OF wp_walletDelta [OF 1(1) key]], goal_cases)
    case (1 entry t)
    show ?case
    proof (rule wp_givesI [OF wp_tokenShare], goal_cases)
      case (3 d u)
      with 1 show ?case by (intro k) (auto intro: sameRows_trans postedFor_cong)
    qed (use 1 \<open>findRow _ (tokens s) = _\<close> tok in simp_all)
  qed
qed

lemma moves_reserve:
  "distinct (map t_Id (tokens s)) \<Longrightarrow> wp (reserveMore now op target row) (gives (moved s row)) s"
  unfolding reserveMore_def Let_def
  by (intro wp_if wp_movement)
     (auto intro!: movedI lifecycle.more simp: sameRequest_def heldQuota_def)

lemma moves_return:
  assumes "distinct (map t_Id (tokens s))" "requestEntry (e0\<lparr>bl_IdempotencyKey := key\<rparr>)"
    "zs_Status row \<in> {ZTAPISettlementReserved, ZTAPISettlementPending}"
  shows "wp (returnHold now key reason row)
     (gives (\<lambda>row' t. moved s row row' t \<and> zs_Status row' = ZTAPISettlementReleased)) s"
  unfolding returnHold_def
  by (intro wp_movement [OF assms(1,2)])
     (use assms(3) in \<open>auto intro!: movedI lifecycle.release simp: sameRequest_def heldQuota_def\<close>)

lemma wp_refuseIntent: "wp (refuseIntent row) (gives (\<lambda>_ t. t = s)) s"
  unfolding refuseIntent_def HasZTAPISettlementFinalizationIntentTx_def by (auto intro!: wp_intro)

lemma moves_release:
  "distinct (map t_Id (tokens s)) \<Longrightarrow> zs_Status row \<in> settlementStates \<Longrightarrow>
   wp (releaseSettlement now op row) (gives (moved s row)) s"
  unfolding releaseSettlement_def settlementStates_def
  by (auto intro!: wp_if wp_givesI [OF wp_refuseIntent] wp_gives_mono [OF moves_return])

text \<open>Fields of a released row that are not money may change too.\<close>

lemma moved_released:
  assumes "moved s row row' t" "zs_Status row' = ZTAPISettlementReleased" "zs_Status r = ZTAPISettlementReleased"
    "sameRequest row' r" "zs_Status row \<in> {ZTAPISettlementReserved, ZTAPISettlementPending}"
  shows "moved s row r t"
  using assms sameRequest_trans [of row row' r] by (auto simp: moved_def heldQuota_def intro: lifecycle.release)

lemma moves_releaseRejected:
  assumes tok: "distinct (map t_Id (tokens s))"
  shows "wp (releaseRejected now op row) (gives (moved s row)) s"
  unfolding releaseRejected_def
proof (intro wp_if, goal_cases)
  case 6
  then have st: "zs_Status row \<in> {ZTAPISettlementReserved, ZTAPISettlementPending}" by blast
  have "wp (bindE (refuseIntent row) (\<lambda>_. bindE (returnHold now (''ztapi:'' @ op @ '':upstream-rejected'') reason row) (\<lambda>row.
          ret (row\<lparr>zs_MissingDimensionsJSON := ''[]'', zs_FinalAttempt := i\<rparr>)))) (gives (moved s row)) s" for reason i
    by (rule wp_givesI [OF wp_refuseIntent], clarify, rule wp_givesI [OF moves_return [OF tok _ st]])
       (auto intro: moved_released [OF _ _ _ _ st] simp: sameRequest_def)
  then show ?case by (auto intro!: wp_bindE [where m = "query _"])
qed simp_all

lemma moves_releaseNoCharge:
  assumes tok: "distinct (map t_Id (tokens s))"
  shows "wp (releaseNoCharge now op usage canonical lineage allowed row) (gives (moved s row)) s"
proof -
  have "wp (bindE (refuseIntent row) (\<lambda>_. bindE (returnHold now (''ztapi:'' @ op @ '':media-no-charge'') reason row) (\<lambda>row.
          ret (row\<lparr>zs_ChargedQuota := 0, zs_TokenChargedQuota := 0, zs_UsageJSON := usage,
                  zs_ChargeDimensionsJSON := canonical, zs_MissingDimensionsJSON := ''[]'',
                  zs_FinalAttempt := li_FinalAttempt lineage\<rparr>)))) (gives (moved s row)) s"
    if st: "zs_Status row \<in> {ZTAPISettlementReserved, ZTAPISettlementPending}" for reason
    by (rule wp_givesI [OF wp_refuseIntent], clarify, rule wp_givesI [OF moves_return [OF tok _ st]])
       (auto intro: moved_released [OF _ _ _ _ st] simp: sameRequest_def)
  then show ?thesis
    unfolding releaseNoCharge_def by (auto intro!: wp_bindE [where m = "firstRow _ _"] wp_if)
qed

lemma moves_pend:
  "wp (pendSettlement codec usage missing row) (gives (moved s row)) s"
proof -
  have "wp (pendingEvidence codec usage missing row) (gives (\<lambda>_ t. t = s)) s"
    unfolding pendingEvidence_def loadZTAPISettlementFinalizationIntentTx_def
    by (auto intro!: wp_intro split: sum.splits option.splits)
  then show ?thesis
    unfolding pendSettlement_def
    by (rule wp_givesI)
       (auto intro!: movedI [where q = 0] lifecycle.park postedFor_none simp: sameRequest_def heldQuota_def)
qed

text \<open>Attempts are rows of a table of their own.\<close>

lemma moved_attempts [simp]: "moved s row row (s\<lparr>attempts := as\<rparr>)"
  by (rule moved_unmoved) simp_all

lemma wp_query_gives: "wp (query f) (gives (\<lambda>_ t. t = s)) s"
  by (simp split: sum.splits)

lemma wp_saveAttempt: "wp (saveAttempt now a) (gives (\<lambda>_ t. \<exists>as. t = s\<lparr>attempts := as\<rparr>)) s"
  unfolding saveAttempt_def by (auto intro!: wp_intro)

lemma moves_pendWithLineage:
  "wp (pendWithLineage now usage missing lineage row) (gives (moved s row)) s"
proof -
  have save: "wp (if b then saveAttempt now a else ret ()) (gives (\<lambda>_ t. \<exists>as. t = s\<lparr>attempts := as\<rparr>)) s" for b a
    by (auto intro: exI [of _ "attempts s"] wp_saveAttempt)
  have park: "moved s row (row\<lparr>zs_Status := ZTAPISettlementPending, zs_UsageJSON := usage,
      zs_MissingDimensionsJSON := missing, zs_FinalAttempt := i\<rparr>) (s\<lparr>attempts := as\<rparr>)"
    if "zs_Status row = ZTAPISettlementReserved" for i as
    by (rule movedI [where q = 0])
       (use that in \<open>auto intro: lifecycle.park postedFor_none simp: sameRequest_def heldQuota_def sameRows_def
          tokenSums_def ledger_ok_def\<close>)
  show ?thesis
    unfolding pendWithLineage_def lastAttempt_def
    by (rule wp_givesI [OF wp_query_gives], clarify, intro wp_if wp_givesI [OF save])
       (auto intro: park)
qed

lemma sameRows_counters:
  "(\<And>u. u_Id (f u) = u_Id u) \<Longrightarrow> (\<And>u. u_Quota (f u) = u_Quota u) \<Longrightarrow>
   sameRows t (t\<lparr>users := updateWhere P f (users t)\<rparr>)"
  unfolding sameRows_def by (auto simp: tokenSums_def intro: ledger_ok_users [where s = t])

lemma moves_charge:
  assumes tok: "distinct (map t_Id (tokens s))" and st: "zs_Status row = ZTAPISettlementReserved"
  shows "wp (chargeHold codec now op actual usage dims row)
     (gives (\<lambda>row' t. moved s row row' t \<and> zs_Status row' = ZTAPISettlementSettled \<and> zs_ChargedQuota row' = actual)) s"
  unfolding chargeHold_def
proof (rule wp_movement [OF tok], simp, goal_cases)
  case (1 user entry d t)
  let ?u = "t\<lparr>users := updateWhere (\<lambda>u. u_Id u = zs_UserID row)
    (\<lambda>u. u\<lparr>u_UsedQuota := u_UsedQuota u + actual, u_RequestCount := u_RequestCount u + 1\<rparr>) (users t)\<rparr>"
  have same: "sameRows s ?u" by (rule sameRows_trans [OF 1(1)]) (rule sameRows_counters, simp_all)
  have post: "postedFor s (zs_RequestID row) (zs_ReservedQuota row - actual) ?u"
    by (rule postedFor_cong [OF 1(2)]) simp
  have "moved s row ((withLedger entry row)
      \<lparr>zs_Status := ZTAPISettlementSettled, zs_MissingDimensionsJSON := ''[]'', zs_ChargedQuota := actual,
       zs_TokenChargedQuota := c, zs_UsageJSON := usage, zs_ChargeDimensionsJSON := j\<rparr>) ?u" for c j
    by (rule movedI [OF same _ _ post]) (use st in \<open>auto intro: lifecycle.settle simp: sameRequest_def heldQuota_def\<close>)
  then show ?case unfolding Let_def by (auto intro!: wp_intro split: sum.splits)
qed

lemma moves_finalize:
  assumes tok: "distinct (map t_Id (tokens s))"
  shows "wp (finalizeSettlement codec now op actual usage dims row)
     (gives (\<lambda>row' t. moved s row row' t \<and> zs_Status row' = ZTAPISettlementSettled \<and> zs_ChargedQuota row' = actual)) s"
  unfolding finalizeSettlement_def
  by (intro wp_if wp_givesI [OF wp_refuseIntent])
     (auto simp: replayFinal_def intro!: wp_if moves_charge [OF tok] split: sum.splits)

section \<open>The interpretations\<close>

interpretation reserve: settlement_mutation "reserveMore now op target"
  by unfold_locales (rule moves_reserve)

interpretation pend: settlement_mutation "pendSettlement codec usage missing"
  by unfold_locales (rule moves_pend)

interpretation lineage: settlement_mutation "pendWithLineage now usage missing li"
  by unfold_locales (rule moves_pendWithLineage)

interpretation release: settlement_mutation "releaseSettlement now op"
  by unfold_locales (rule moves_release)

interpretation rejected: settlement_mutation "releaseRejected now op"
  by unfold_locales (rule moves_releaseRejected)

interpretation nocharge: settlement_mutation "releaseNoCharge now op usage canonical li allowed"
  by unfold_locales (rule moves_releaseNoCharge)

interpretation charge: settlement_mutation "finalizeSettlement codec now op actual usage dims"
  by unfold_locales (rule wp_gives_mono [OF moves_finalize], simp_all)

lemma moved_dispatched [simp]: "moved s row (row\<lparr>zs_Dispatched := True\<rparr>) (s\<lparr>attempts := as\<rparr>)"
  "moved s row (row\<lparr>zs_Dispatched := True\<rparr>) s"
  by (rule moved_unmoved; simp add: sameRequest_def sameMoney_def)+

lemma keeps_dispatch: "keeps (requestsRun s0) (MarkZTAPIRequestDispatched redis now op)"
proof -
  have "settlement_mutation (\<lambda>row. if zs_Status row \<noteq> ZTAPISettlementReserved then fail ErrZTAPISettlementPending
      else ret (row\<lparr>zs_Dispatched := True\<rparr>))"
    by unfold_locales (intro wp_if, simp_all)
  then show ?thesis
    unfolding MarkZTAPIRequestDispatched_def by (intro keeps_bindE keeps_ret settlement_mutation.mutates)
qed

lemma keeps_attempt_op:
  "keeps (requestsRun s0) (BeginZTAPIRequestAttempt redis now op channelID credentialVersion protocol)"
  "keeps (requestsRun s0) (MarkZTAPIRequestSafetyOutcome redis now op)"
  "keeps (requestsRun s0) (RecordZTAPIRequestAttemptResponse redis now op index channelID status upstreamID)"
  unfolding BeginZTAPIRequestAttempt_def MarkZTAPIRequestSafetyOutcome_def RecordZTAPIRequestAttemptResponse_def
  by (intro keeps_if keeps_fail keeps_bindE keeps_ret settlement_mutation.mutates; unfold_locales;
      auto intro!: wp_intro simp: attemptsOf_def createAttempt_def saveAttempt_def Let_def)+

lemma keeps_pend:
  "keeps (requestsRun s0) (PendZTAPIRequestSettlement codec redis now op usage missing)"
  "keeps (requestsRun s0) (PendZTAPIRequestSettlementWithLineage codec redis now op usage missing li)"
  unfolding PendZTAPIRequestSettlement_def PendZTAPIRequestSettlementWithLineage_def
    pendZTAPIRequestSettlementWithLineageAndHook_def mutateZTAPISettlement_def [symmetric]
  by (intro keeps_if keeps_fail pend.mutates lineage.mutates)+

lemma keeps_release:
  "keeps (requestsRun s0) (ReleaseZTAPIRequestSettlement redis now op)"
  "keeps (requestsRun s0) (ReleaseZTAPIDispatchedRejectedSettlement redis now op)"
  "keeps (requestsRun s0) (releaseZTAPIDispatchedNoChargeWithLineageAndHook codec redis now op usage dims li allowed ret ret)"
  unfolding ReleaseZTAPIRequestSettlement_def ReleaseZTAPIDispatchedRejectedSettlement_def
    releaseZTAPIDispatchedNoChargeWithLineageAndHook_def mutateZTAPISettlement_def [symmetric]
  by (intro keeps_if keeps_fail keeps_case_sum release.mutates rejected.mutates nocharge.mutates)+

lemma keeps_finalize: "keeps (requestsRun s0) (FinalizeZTAPIRequestSettlement codec redis now op actual usage dims)"
  unfolding FinalizeZTAPIRequestSettlement_def by (intro keeps_if keeps_fail charge.mutates)

lemma keeps_reserve: "keeps (requestsRun s0) (ReserveZTAPIRequestSettlement redis now op target)"
  unfolding ReserveZTAPIRequestSettlement_def by (intro keeps_if keeps_fail reserve.mutates)

lemma keeps_retryCaches: "keeps (requestsRun s0) (RetryZTAPISettlementCaches redis now limit)"
proof -
  have "keeps (requestsRun s0) (updateRows settlements settlements_update P (\<lambda>r. r\<lparr>zs_CacheLastAttemptAt := now\<rparr>))" for P
    by (rule keeps_requestsI)
       (auto intro!: requestsRun_refl requestsRun_flags simp: sameRequest_def sameMoney_def)
  then show ?thesis
    unfolding RetryZTAPISettlementCaches_def by (intro keeps_intro keeps_sync)
qed

lemma keeps_releasePage: "keeps (requestsRun s0) (releasePage redis now rows released firstErr)"
  by (induction rows arbitrary: released firstErr) (auto intro!: keeps_intro keeps_release)

lemma keeps_sweep: "keeps (requestsRun s0) (ReleaseZTAPIRejectedDispatchedHolds fuel redis now limit)"
proof -
  have "keeps (requestsRun s0) (releaseHolds fuel redis now n lastID released firstErr)" for n lastID released firstErr
    by (induction fuel arbitrary: lastID released firstErr) (auto intro!: keeps_intro keeps_releasePage)
  then show ?thesis unfolding ReleaseZTAPIRejectedDispatchedHolds_def by (auto intro!: keeps_intro)
qed

section \<open>Beginning\<close>

lemma requestsRun_new:
  assumes ok: "requestBooks s" and rows: "settlements t = settlements s @ [new]"
    and fresh: "zs_ID new \<notin> zs_ID ` set (settlements s)" "zs_OperationID new \<notin> zs_OperationID ` set (settlements s)"
      "zs_RequestID new \<notin> zs_RequestID ` set (settlements s)"
    and st: "zs_Status new = ZTAPISettlementReserved"
    and post: "postedFor s (zs_RequestID new) (- zs_ReservedQuota new) t"
    and rest: "map t_Id (tokens t) = map t_Id (tokens s)" "tokenSums t = tokenSums s"
      "\<And>base. ledger_ok base s \<Longrightarrow> ledger_ok base t"
  shows "requestsRun s t"
proof -
  have none: "requestTotal (ledgers s) (zs_RequestID new) = 0"
    using ok fresh(3) unfolding requestBooks_def by (metis requestTotal_none)
  have total: "requestTotal (ledgers t) (zs_RequestID r) = - heldQuota r" if "r \<in> set (settlements t)" for r
  proof (cases "r \<in> set (settlements s)")
    case True
    with fresh(3) have "zs_RequestID r \<noteq> zs_RequestID new" by (metis imageI)
    with True ok postedFor_total [OF post] show ?thesis by (simp add: requestBooks_def)
  next
    case False
    with that rows have "r = new" by simp
    with none st postedFor_total [OF post] show ?thesis by (simp add: heldQuota_def)
  qed
  have known: "bl_RequestID e \<in> zs_RequestID ` set (settlements t)" if "e \<in> set (ledgers t)" "requestEntry e" for e
    using postedFor_known [OF post that] ok that(2) rows by (auto simp: requestBooks_def)
  have "requestBooks t"
    using ok rows fresh st rest(1) total known unfolding requestBooks_def by (simp add: settlementStates_def)
  moreover have "\<exists>r' \<in> set (settlements t). sameRequest r r' \<and> lifecycle r r'" if "r \<in> set (settlements s)" for r
    by (rule bexI [of _ r]) (use that rows in simp_all)
  ultimately show ?thesis using rest by (simp add: requestsRun_def)
qed

lemma wp_hold:
  assumes ok: "requestBooks s" and user: "findRow (\<lambda>u. u_Id u = i) (users s) = Some user"
    and token: "findRow (\<lambda>k. t_Id k = j) (tokens s) = Some token"
    and st: "zs_Status row = ZTAPISettlementReserved"
  shows "wp (holdSettlement now user token row) (gives (\<lambda>_. requestsRun s)) s"
proof -
  let ?new = "row\<lparr>zs_ID := freshId zs_ID (settlements s)\<rparr>"
  let ?s = "s\<lparr>settlements := settlements s @ [?new]\<rparr>"
  have create: "wp (createSettlement row) (gives (\<lambda>r t. r = ?new \<and> t = ?s \<and>
      zs_OperationID row \<notin> zs_OperationID ` set (settlements s) \<and> zs_RequestID row \<notin> zs_RequestID ` set (settlements s))) s"
    unfolding createSettlement_def Let_def by simp
  have tok: "distinct (map t_Id (tokens s))" using ok by (simp add: requestBooks_def)
  have upd: "updateWhere (\<lambda>r. zs_ID r = freshId zs_ID (settlements s)) (\<lambda>_. x) (settlements s) = settlements s" for x
    by (rule updateWhere_id) (metis freshId_notin image_eqI)
  show ?thesis
    unfolding holdSettlement_def
  proof (rule wp_givesI [OF create], clarify, goal_cases)
    case fresh: 1
    show ?case
    proof (rule wp_givesI [OF wp_walletDelta [of i]], goal_cases)
      case (3 entry t)
      show ?case
      proof (rule wp_givesI [OF wp_tokenShare [of j]], goal_cases)
        case (3 d u)
        then have u: "sameRows ?s u" "postedFor ?s (zs_RequestID row) (- zs_ReservedQuota row) u"
          using \<open>sameRows ?s t \<and> _ \<and> _\<close> by (auto intro: sameRows_trans postedFor_cong)
        let ?row = "(withLedger entry ?new)\<lparr>zs_TokenReservedQuota :=
            (if zs_TokenUnlimited ?new then zs_TokenReservedQuota ?new else - d), zs_UpdatedAt := now\<rparr>"
        have "requestsRun s (u\<lparr>settlements := updateWhere (\<lambda>r. zs_ID r = zs_ID ?row) (\<lambda>_. ?row) (settlements u)\<rparr>)"
          by (rule requestsRun_new [OF ok, of _ ?row])
             (use fresh st u upd in \<open>auto simp: sameRows_def tokenSums_def ledger_ok_def postedFor_def\<close>)
        then show ?case by (intro wp_gives_mono [OF wp_save]) simp
      qed (use \<open>sameRows ?s t \<and> _ \<and> _\<close> token tok in simp_all)
    qed (use user in simp_all)
  qed
qed

lemma wp_beginTx:
  assumes ok: "requestBooks s"
  shows "wp (beginTx now input) (gives (\<lambda>_. requestsRun s)) s"
proof -
  have new: "wp (let row = newSettlement now input in bindE (ztapiSettlementOwners row) (\<lambda>(user, token).
      if \<not> ownersUsable now input user token then fail ErrZTAPISettlementInvalid
      else holdSettlement now user token row)) (gives (\<lambda>_. requestsRun s)) s"
    unfolding Let_def
    by (rule wp_givesI [OF wp_owners], clarsimp, rule wp_hold [OF ok])
       (simp_all add: newSettlement_def)
  have old: "wp (bindE (ztapiSettlementLock op) (\<lambda>row. if ztapiSettlementMatches row input then ret row
      else fail ErrZTAPISettlementConflict)) (gives (\<lambda>_. requestsRun s)) s" for op
    by (rule wp_givesI [OF wp_lock]) (simp add: requestsRun_refl [OF ok])
  show ?thesis
    unfolding beginTx_def
    by (rule wp_bindI [where P = "\<lambda>r t. t = s"])
       (use new old in \<open>auto simp: split: sum.splits\<close>)
qed

lemma keeps_begin: "keeps (requestsRun s0) (BeginZTAPIRequestSettlement codec redis now input)"
proof -
  have "keeps (requestsRun s0) (transaction (beginTx now input))"
    by (rule keeps_requestsI, rule wp_transactionI [OF wp_beginTx]) (auto intro: requestsRun_refl)
  moreover have "keeps (requestsRun s0) (recoverBegin input e)" for e
    unfolding recoverBegin_def by (intro keeps_intro)
  ultimately show ?thesis
    unfolding BeginZTAPIRequestSettlement_def
    by (intro keeps_if keeps_fail keeps_bindE keeps_attempt keeps_case_sum keeps_ret keeps_sync)
qed

section \<open>Runs\<close>

datatype requestCall =
    CallBegin int ZTAPIRequestSettlement
  | CallReserve int string int
  | CallDispatch int string
  | CallAttempt int string int string string
  | CallSafety int string
  | CallResponse int string int int int string
  | CallPend int string string string
  | CallPendLineage int string string string ZTAPIPendingSettlementLineage
  | CallRelease int string
  | CallRejected int string
  | CallSweep nat int int
  | CallNoCharge int string string string ZTAPIPendingSettlementLineage string
  | CallFinalize int string int string string
  | CallCaches int int

definition ignore :: "(store, 'a) act \<Rightarrow> (store, unit) act" where
  "ignore m = bindE m (\<lambda>_. ret ())"

fun runRequest :: "codec \<Rightarrow> bool \<Rightarrow> requestCall \<Rightarrow> (store, unit) act" where
  "runRequest codec redis (CallBegin now input) = ignore (BeginZTAPIRequestSettlement codec redis now input)"
| "runRequest codec redis (CallReserve now op target) = ignore (ReserveZTAPIRequestSettlement redis now op target)"
| "runRequest codec redis (CallDispatch now op) = MarkZTAPIRequestDispatched redis now op"
| "runRequest codec redis (CallAttempt now op ch cred prot) = BeginZTAPIRequestAttempt redis now op ch cred prot"
| "runRequest codec redis (CallSafety now op) = MarkZTAPIRequestSafetyOutcome redis now op"
| "runRequest codec redis (CallResponse now op i ch status up) =
     RecordZTAPIRequestAttemptResponse redis now op i ch status up"
| "runRequest codec redis (CallPend now op usage missing) =
     ignore (PendZTAPIRequestSettlement codec redis now op usage missing)"
| "runRequest codec redis (CallPendLineage now op usage missing li) =
     ignore (PendZTAPIRequestSettlementWithLineage codec redis now op usage missing li)"
| "runRequest codec redis (CallRelease now op) = ignore (ReleaseZTAPIRequestSettlement redis now op)"
| "runRequest codec redis (CallRejected now op) = ignore (ReleaseZTAPIDispatchedRejectedSettlement redis now op)"
| "runRequest codec redis (CallSweep fuel now limit) =
     ignore (ReleaseZTAPIRejectedDispatchedHolds fuel redis now limit)"
| "runRequest codec redis (CallNoCharge now op usage dims li allowed) =
     ignore (releaseZTAPIDispatchedNoChargeWithLineageAndHook codec redis now op usage dims li allowed ret ret)"
| "runRequest codec redis (CallFinalize now op actual usage dims) =
     ignore (FinalizeZTAPIRequestSettlement codec redis now op actual usage dims)"
| "runRequest codec redis (CallCaches now limit) = RetryZTAPISettlementCaches redis now limit"

lemmas keeps_requests = keeps_begin keeps_reserve keeps_dispatch keeps_attempt_op keeps_pend keeps_release
  keeps_sweep keeps_finalize keeps_retryCaches

lemma keeps_runRequest: "keeps (requestsRun s0) (runRequest codec redis call)"
  by (cases call) (auto simp: ignore_def intro!: keeps_bindE keeps_ret keeps_requests)

lemma runs_requests:
  "requestBooks (db c) \<Longrightarrow> requestsRun (db c) (db (snd (runAll (map (runRequest codec redis) calls) c)))"
  by (rule runAll_map_keeps [OF keeps_runRequest]) (rule requestsRun_refl)

text \<open>What a mutation returns is a row of the table, up to the flags of the caches.\<close>

lemma wp_sync:
  assumes ok: "requestBooks s" and row: "row \<in> set (settlements s)"
  shows "wp (syncZTAPISettlementCaches redis row) (gives (\<lambda>row' t. sameMoney row row' \<and> sameRequest row row' \<and>
     requestBooks t \<and> (\<exists>r \<in> set (settlements t). sameRequest row r \<and> sameMoney row r))) s"
proof -
  let ?f = "\<lambda>r. r\<lparr>zs_CacheSyncPending := False\<rparr>"
  let ?P = "\<lambda>r. zs_ID r = zs_ID row \<and> zs_UpdatedAt r = zs_UpdatedAt row"
  have f: "sameRequest r (?f r)" "sameMoney r (?f r)" for r by (simp_all add: sameRequest_def sameMoney_def)
  have flagged: "requestBooks (s\<lparr>settlements := updateWhere ?P ?f (settlements s)\<rparr>)"
    using requestsRun_flags [OF ok f] by (simp add: requestsRun_def)
  have found: "\<exists>r \<in> set (updateWhere ?P ?f (settlements s)). sameRequest row r \<and> sameMoney row r"
    by (rule bexI [of _ "if ?P row then ?f row else row"])
       (use row f in \<open>auto simp: set_updateWhere\<close>)
  have stay: "\<exists>r \<in> set (settlements s). sameRequest row r \<and> sameMoney row r"
    using row by (meson sameMoney_refl sameRequest_refl)
  show ?thesis
    unfolding syncZTAPISettlementCaches_def
    by (auto intro!: wp_intro simp: ok stay flagged found f simp del: updateWhere_simps split: sum.splits)
qed

lemma wp_mutated:
  assumes ok: "requestBooks s" and R: "\<And>r r'. R r \<Longrightarrow> sameRequest r r' \<Longrightarrow> sameMoney r r' \<Longrightarrow> R r'"
    and fn: "\<And>row. zs_Status row \<in> settlementStates \<Longrightarrow> zs_OperationID row = op \<Longrightarrow>
      wp (fn row) (gives (\<lambda>row' t. moved s row row' t \<and> R row')) s"
  shows "wp (mutateZTAPISettlement redis now op fn)
     (gives (\<lambda>row t. R row \<and> requestTotal (ledgers t) (zs_RequestID row) = - heldQuota row)) s"
proof -
  have "wp (mutationTx now op ret fn ret) (gives (\<lambda>row t. requestsRun s t \<and> R row \<and> row \<in> set (settlements t) \<and>
     map zs_ID (settlements t) = map zs_ID (settlements s))) s"
    by (rule wp_mutationTx [OF ok]) (fact R fn)+
  then have tx: "wp (transaction (mutationTx now op ret fn ret))
      (gives (\<lambda>row t. requestBooks t \<and> R row \<and> row \<in> set (settlements t))) s"
    by (rule wp_transactionI) (auto simp: requestsRun_def)
  show ?thesis
    unfolding mutateZTAPISettlement_def mutateZTAPISettlementWithHooks_def
  proof (rule wp_givesI [OF tx], clarify)
    fix row t assume row: "requestBooks t" "R row" "row \<in> set (settlements t)"
    show "wp (syncZTAPISettlementCaches redis row)
        (gives (\<lambda>row t. R row \<and> requestTotal (ledgers t) (zs_RequestID row) = - heldQuota row)) t"
    proof (rule wp_gives_mono [OF wp_sync [OF row(1,3)]], goal_cases)
      case (1 row' u)
      then obtain r where r: "r \<in> set (settlements u)" "sameRequest row r" "sameMoney row r" by blast
      then have "requestTotal (ledgers u) (zs_RequestID r) = - heldQuota r"
        using 1 by (simp add: requestBooks_def)
      moreover have "zs_RequestID r = zs_RequestID row'" using r 1 by (simp add: sameRequest_def)
      moreover have "heldQuota r = heldQuota row'" using sameMoney_held [of row r] sameMoney_held [of row row'] r 1 by simp
      ultimately show ?case using R [OF row(2)] 1 by simp
    qed
  qed
qed

section \<open>The sweep ends\<close>

definition rowsAre :: "int list \<Rightarrow> store \<Rightarrow> bool" where
  "rowsAre ids s \<longleftrightarrow> requestBooks s \<and> map zs_ID (settlements s) = ids"

lemma keeps_rows: "keeps (rowsAre ids) (ReleaseZTAPIDispatchedRejectedSettlement redis now op)"
proof -
  have "keeps (rowsAre ids) (transaction (mutationTx now op ret (releaseRejected now op) ret))"
  proof (rule keepsI)
    fix s assume s: "rowsAre ids s"
    then have ok: "requestBooks s" by (simp add: rowsAre_def)
    have "wp (mutationTx now op ret (releaseRejected now op) ret) (gives (\<lambda>row t. requestsRun s t \<and> True \<and>
        row \<in> set (settlements t) \<and> map zs_ID (settlements t) = map zs_ID (settlements s))) s"
      by (rule wp_mutationTx [OF ok]) (use ok moves_releaseRejected in \<open>simp_all add: requestBooks_def\<close>)
    then show "wp (transaction (mutationTx now op ret (releaseRejected now op) ret)) (\<lambda>_. rowsAre ids) s"
      by (rule wp_transactionI) (use s in \<open>auto simp: rowsAre_def requestsRun_def\<close>)
  qed
  moreover have "keeps (rowsAre ids) (syncZTAPISettlementCaches redis row)" for row
  proof -
    have "keeps (rowsAre ids) (updateRows settlements settlements_update P (\<lambda>r. r\<lparr>zs_CacheSyncPending := False\<rparr>))" for P
    proof (rule keepsI)
      fix s assume s: "rowsAre ids s"
      have "requestsRun s (s\<lparr>settlements := updateWhere P (\<lambda>r. r\<lparr>zs_CacheSyncPending := False\<rparr>) (settlements s)\<rparr>)"
        by (rule requestsRun_flags) (use s in \<open>simp_all add: rowsAre_def sameRequest_def sameMoney_def\<close>)
      with s show "wp (updateRows settlements settlements_update P (\<lambda>r. r\<lparr>zs_CacheSyncPending := False\<rparr>)) (\<lambda>_. rowsAre ids) s"
        by (simp add: rowsAre_def requestsRun_def map_updateWhere)
    qed
    then show ?thesis unfolding syncZTAPISettlementCaches_def by (intro keeps_intro)
  qed
  ultimately show ?thesis
    unfolding ReleaseZTAPIDispatchedRejectedSettlement_def mutateZTAPISettlement_def mutateZTAPISettlementWithHooks_def
    by (intro keeps_bindE)
qed

definition returns :: "err + 'a \<Rightarrow> bool" where
  "returns r \<longleftrightarrow> (\<exists>a. r = Inr a)"

lemma wp_releasePage:
  "rowsAre ids s \<Longrightarrow> wp (releasePage redis now rows released firstErr) (\<lambda>r t. returns r \<and> rowsAre ids t) s"
proof (induction rows arbitrary: released firstErr s)
  case (Cons row rows)
  have "wp (ReleaseZTAPIDispatchedRejectedSettlement redis now (zs_OperationID row)) (\<lambda>_. rowsAre ids) s"
    by (rule keeps_wp [OF keeps_rows Cons.prems])
  then show ?case
    unfolding releasePage.simps
    by (rule wp_bind_attemptI) (auto intro!: wp_if Cons.IH split: sum.splits)
qed (simp add: returns_def)

lemma fewer_after:
  assumes "i \<in> set ids" "l < i"
  shows "length (filter (\<lambda>j. i < j) ids) < length (filter (\<lambda>j. l < (j :: int)) ids)"
proof -
  have "filter (\<lambda>j. i < j) ids = filter (\<lambda>j. i < j) (filter (\<lambda>j. l < j) ids)"
    using assms(2) by (induction ids) auto
  also have "length \<dots> < length (filter (\<lambda>j. l < j) ids)"
    by (rule length_filter_less [of i]) (use assms in auto)
  finally show ?thesis .
qed

lemma wp_releaseHolds:
  "rowsAre ids s \<Longrightarrow> 0 < limit \<Longrightarrow> length (filter (\<lambda>i. lastID < i) ids) < fuel \<Longrightarrow>
   wp (releaseHolds fuel redis now limit lastID released firstErr) (\<lambda>r _. returns r) s"
proof (induction fuel arbitrary: lastID released firstErr s)
  case (Suc fuel)
  define rows where "rows = take limit (sort_key zs_ID (filter (\<lambda>r.
         zs_Status r = ZTAPISettlementPending \<and>
         zs_MissingDimensionsJSON r = ZTAPIMissingUpstreamBillingUnconfirmed \<and> zs_ID r > lastID) (settlements s)))"
  have next': "wp (releaseHolds fuel redis now limit (zs_ID (last rows)) rel e) (\<lambda>r _. returns r) t"
    if t: "rowsAre ids t" and full: "\<not> length rows < limit" for t rel e
  proof -
    from full Suc.prems(2) have "last rows \<in> set rows" by (intro last_in_set) auto
    then have "last rows \<in> set (settlements s)" "lastID < zs_ID (last rows)"
      unfolding rows_def by (auto dest: in_set_takeD)
    then have "zs_ID (last rows) \<in> set ids" "lastID < zs_ID (last rows)"
      using Suc.prems(1) by (auto simp: rowsAre_def)
    from fewer_after [OF this] Suc.prems(3) show ?thesis by (intro Suc.IH [OF t Suc.prems(2)]) simp
  qed
  have "wp (bindE (releasePage redis now rows released firstErr) (\<lambda>(released, firstErr).
      if length rows < limit then ret (released, firstErr)
      else releaseHolds fuel redis now limit (zs_ID (last rows)) released firstErr)) (\<lambda>r _. returns r) s"
    by (rule wp_bindI [OF wp_releasePage [OF Suc.prems(1)]]) (auto simp: returns_def [of "Inl _"] returns_def [of "Inr _"] intro!: wp_if next')
  then show ?case
    unfolding releaseHolds.simps
    by (intro wp_bindE) (simp add: rows_def [symmetric], simp add: returns_def)
qed simp

section \<open>Properties\<close>

text \<open>
  C37. Holds and ledger agree: whatever calls are made on the settlements, in any order and with
  any failures of the database, of a commit's acknowledgement and of the caches, the ledger stays
  a true record of every balance, the entries of every request add up to minus what its row still
  holds or has charged, and no token gains or loses quota.
\<close>

theorem holds_match_ledger:
  assumes "requestBooks (db c)" "ledger_ok base (db c)"
  shows "let t = db (snd (runAll (map (runRequest codec redis) calls) c)) in
      ledger_ok base t \<and> tokenSums t = tokenSums (db c) \<and>
      (\<forall>r \<in> set (settlements t). requestTotal (ledgers t) (zs_RequestID r) = - heldQuota r)"
  using runs_requests [OF assms(1), of codec redis calls] assms(2)
  by (simp add: requestsRun_def requestBooks_def Let_def)


text \<open>
  C39. When a finalization reports a row, whatever failures happened before and during it, the row
  is settled at exactly the actual quota and the ledger entries of the request add up to exactly
  that charge, whatever was reserved before.
\<close>

theorem finalized_costs_actual:
  assumes "requestBooks (db c)"
    "FinalizeZTAPIRequestSettlement codec redis now op actual usage dims c = (Inr row, c')"
  shows "zs_OperationID row = op \<and> zs_Status row = ZTAPISettlementSettled \<and> zs_ChargedQuota row = actual \<and>
     requestTotal (ledgers (db c')) (zs_RequestID row) = - actual"
proof -
  let ?R = "\<lambda>row. zs_OperationID row = op \<and> zs_Status row = ZTAPISettlementSettled \<and> zs_ChargedQuota row = actual"
  have tok: "distinct (map t_Id (tokens (db c)))" using assms(1) by (simp add: requestBooks_def)
  have "wp (mutateZTAPISettlement redis now op (finalizeSettlement codec now op actual usage dims))
      (gives (\<lambda>row t. ?R row \<and> requestTotal (ledgers t) (zs_RequestID row) = - heldQuota row)) (db c)"
  proof (rule wp_mutated [OF assms(1)])
    show "wp (finalizeSettlement codec now op actual usage dims row)
        (gives (\<lambda>row' t. moved (db c) row row' t \<and> ?R row')) (db c)" if "zs_OperationID row = op" for row
      by (rule wp_gives_mono [OF moves_finalize [OF tok]]) (use that in \<open>auto simp: moved_def sameRequest_def\<close>)
  qed (auto simp: sameRequest_def sameMoney_def)
  then have "wp (FinalizeZTAPIRequestSettlement codec redis now op actual usage dims)
      (gives (\<lambda>row t. ?R row \<and> requestTotal (ledgers t) (zs_RequestID row) = - heldQuota row)) (db c)"
    unfolding FinalizeZTAPIRequestSettlement_def by (intro wp_if) simp_all
  from wpD [OF this assms(2)] show ?thesis by (simp add: heldQuota_def)
qed

text \<open>
  C40. The sweep over the parked holds ends: with one page more than there are rows it returns how
  many it released and the first unexpected error, whatever the database does.
\<close>

theorem sweep_returns:
  assumes "requestBooks (db c)" "length (settlements (db c)) < fuel"
  shows "\<exists>released firstErr. fst (ReleaseZTAPIRejectedDispatchedHolds fuel redis now limit c) = Inr (released, firstErr)"
proof (cases "limit \<le> 0")
  case True
  then show ?thesis by (simp add: ReleaseZTAPIRejectedDispatchedHolds_def ret_def)
next
  case False
  let ?ids = "map zs_ID (settlements (db c))"
  have "length (filter (\<lambda>i. 0 < i) ?ids) < fuel"
    by (rule le_less_trans [OF length_filter_le]) (simp add: assms(2))
  moreover have "rowsAre ?ids (db c)" using assms(1) by (simp add: rowsAre_def)
  ultimately have "wp (releaseHolds fuel redis now (nat limit) 0 0 None) (\<lambda>r _. returns r) (db c)"
    using False by (intro wp_releaseHolds) auto
  then have "returns (fst (releaseHolds fuel redis now (nat limit) 0 0 None c))"
    by (metis prod.collapse wpD)
  with False show ?thesis by (auto simp: ReleaseZTAPIRejectedDispatchedHolds_def returns_def)
qed

definition demoCodec :: codec where
  "demoCodec = \<lparr>cd_valid = (\<lambda>_. True), cd_dims = (\<lambda>_. Some [demoDimension]), cd_putDims = (\<lambda>_. ''[input]''),
     cd_intent = (\<lambda>_. []), cd_evidence = (\<lambda>_. None)\<rparr>"

definition demoKey :: Token where
  "demoKey =
     \<lparr>t_Id = 3, t_UserId = 7, t_KeyHash = ''h'', t_KeyPrefix = ''sk-zt-abc'', t_KeyCiphertext = [],
      t_Status = 1, t_Name = ''k'', t_CreatedTime = 0, t_AccessedTime = 0, t_ExpiredTime = - 1,
      t_RemainQuota = 250, t_UnlimitedQuota = False, t_ModelLimitsEnabled = False, t_ModelLimits = [],
      t_AllowIps = None, t_UsedQuota = 70, t_Group = [], t_CrossGroupRetry = False, t_DeletedAt = False\<rparr>"

definition demoHold :: ZTAPIRequestSettlement where
  "demoHold =
     \<lparr>zs_ID = 1, zs_OperationID = ''op1'', zs_RequestID = ''r1'', zs_UserID = 7, zs_TokenID = 3,
      zs_TokenUnlimited = False, zs_PublicModel = ''m'', zs_PriceSnapshotJSON = ''{}'',
      zs_Status = ZTAPISettlementReserved, zs_ReservedQuota = 50, zs_InitialReservedQuota = 50,
      zs_TokenReservedQuota = 50, zs_ChargedQuota = 0, zs_TokenChargedQuota = 0, zs_RefundedQuota = 0,
      zs_UsageJSON = ''{}'', zs_ChargeDimensionsJSON = ''[]'', zs_MissingDimensionsJSON = ''[]'',
      zs_LastLedgerID = 1, zs_FinalAttempt = 0, zs_Dispatched = False, zs_CacheSyncPending = False,
      zs_CacheLastAttemptAt = 0, zs_CreatedAt = 4, zs_UpdatedAt = 4\<rparr>"

definition demoRequests :: store where
  "demoRequests = demoStore\<lparr>users := [demoUser\<lparr>u_Quota := 450\<rparr>], tokens := [demoKey],
     ledgers := [\<lparr>bl_ID = 1, bl_UserID = 7, bl_OperatorID = 0, bl_Delta = - 50, bl_BalanceBefore = 500,
       bl_BalanceAfter = 450, bl_Reason = ''managed request reservation'',
       bl_IdempotencyKey = ''ztapi:op1:begin'', bl_RequestID = ''r1'',
       bl_SourceType = BalanceLedgerSourceUsageReservation, bl_CreatedAt = 4\<rparr>],
     settlements := [demoHold]\<rparr>"

lemmas demo_request_defs = demoRequests_def demoHold_def demoKey_def demoStore_def demoUser_def

lemma demo_requestBooks: "requestBooks demoRequests" "ledger_ok (\<lambda>_. 500) demoRequests"
  by (simp_all add: requestBooks_def ledger_ok_def requestTotal_def requestEntry_def heldQuota_def
      settlementStates_def demo_request_defs)

theorem holds_match_ledger_witness:
  "let t = db (snd (runAll (map (runRequest demoCodec True) [CallFinalize 9 ''op1'' 30 ''{}'' ''d'', CallRelease 10 ''op1'',
        CallSweep 3 11 20]) \<lparr>db = demoRequests, faults = [Good, Broken]\<rparr>)) in
      ledger_ok (\<lambda>_. 500) t \<and> tokenSums t = [(3, 320)] \<and>
      list_all (\<lambda>r. requestTotal (ledgers t) (zs_RequestID r) = - heldQuota r) (settlements t)"
proof -
  have "tokenSums demoRequests = [(3, 320)]" by (simp add: tokenSums_def demo_request_defs)
  with holds_match_ledger [of "\<lparr>db = demoRequests, faults = [Good, Broken]\<rparr>" "\<lambda>_. 500" demoCodec True
      "[CallFinalize 9 ''op1'' 30 ''{}'' ''d'', CallRelease 10 ''op1'', CallSweep 3 11 20]"] demo_requestBooks
  show ?thesis unfolding Let_def by (simp add: list_all_iff)
qed


lemma demo_normalize:
  "normalizeZTAPIChargeDimensions demoCodec raw 30 0 = Inr ''[input]''"
  "normalizeZTAPIChargeDimensions demoCodec raw 30 30 = Inr ''[input]''"
  by (simp_all add: normalizeZTAPIChargeDimensions_def demoCodec_def planZTAPISupplierRefund_def refundArgumentsOk_def
      refundEvidenceOk_def refundDimensionOk_def planDimensions_def planDimension_def
      requestedUnits_def progressOf_def demoDimension_def demo_numbers ztapiSupplierRefundTarget_def int64Range_def
      MaxInt32_def MaxInt64_def Let_def)

lemma demo_finalize:
  "\<exists>row c'. FinalizeZTAPIRequestSettlement demoCodec False 9 ''op1'' 30 ''{}'' ''d'' \<lparr>db = demoRequests, faults = []\<rparr> = (Inr row, c')"
  by (simp add: FinalizeZTAPIRequestSettlement_def settlementJSONInvalid_def mutateZTAPISettlement_def
      mutateZTAPISettlementWithHooks_def mutationTx_def ztapiSettlementLock_def finalizeSettlement_def refuseIntent_def
      HasZTAPISettlementFinalizationIntentTx_def demo_normalize chargeHold_def ztapiSettlementOwners_def
      ztapiSettlementWalletDeltaTx_def tokenShare_def ztapiSettlementTokenDeltaTx_def checkedSum_def
      checkedBalanceLedgerSum_def checkedSettlementBalanceLedgerSum_def maxBalanceLedgerQuota_def MaxInt32_def
      saveSettlement_def syncZTAPISettlementCaches_def store_ops Let_def demo_request_defs)
   (simp add: demoCodec_def)

theorem finalized_costs_actual_witness:
  "\<exists>row c'. FinalizeZTAPIRequestSettlement demoCodec False 9 ''op1'' 30 ''{}'' ''d'' \<lparr>db = demoRequests, faults = []\<rparr> = (Inr row, c') \<and>
     zs_ChargedQuota row = 30 \<and> requestTotal (ledgers (db c')) (zs_RequestID row) = - 30"
proof -
  obtain row c' where run: "FinalizeZTAPIRequestSettlement demoCodec False 9 ''op1'' 30 ''{}'' ''d'' \<lparr>db = demoRequests, faults = []\<rparr> = (Inr row, c')"
    using demo_finalize by blast
  from finalized_costs_actual [OF _ this] demo_requestBooks(1) run show ?thesis by auto
qed

theorem sweep_returns_witness:
  "\<exists>released firstErr. fst (ReleaseZTAPIRejectedDispatchedHolds 2 True 9 20 \<lparr>db = demoRequests, faults = [Broken]\<rparr>) = Inr (released, firstErr)"
  by (rule sweep_returns) (simp add: demo_requestBooks(1), simp add: demoRequests_def)

end
