(* ===== verification/Spec2Isabelle.thy ===== *)
theory Spec2Isabelle
  imports LedgerGuard SessionRuns Rewards UsdtRuns RequestRuns
begin

text \<open>
  A verification development for the billing core of the ZTAPI gateway (\<open>src/server\<close>, Go): the
  code that moves customers' money. The gateway sells access to language models. A user has a
  balance (\<open>users.quota\<close>), API tokens with a share of it, subscriptions with an allowance, and
  tops the balance up by payments, redemption codes and check-ins. A request is paid in advance,
  settled when its usage is known, and refunded when it fails. All of it is rows of one database,
  changed by transactions that the network, the database and the cache may interrupt.

  \<^bold>\<open>How the program is modelled.\<close> \<open>Prelude\<close> has what the source uses of Go's standard library
  (byte strings, \<open>TrimSpace\<close>, decimal formatting and parsing, truncating division) and tables as
  lists of rows. \<open>Database\<close> is the connection: an action takes it to a result or an error value
  and the connection afterwards; \<open>stmt\<close> is one SQL statement, \<open>transaction\<close> rolls back on an
  error, and a list of outcomes decides which statement, commit or cache call fails, including a
  commit that took effect although its acknowledgement was lost. A theorem for every such list
  holds for every pattern of failures. \<open>Store\<close> has one record per GORM struct and the record of
  all tables. A function of the code is a definition of the same name; the function literal it
  passes to \<open>DB.Transaction\<close> is one with the suffix \<open>Tx\<close>. Errors are values of \<open>err\<close>. The time
  of a call is an argument. Transactions run one after the other: row locks and the SQLite mutex,
  which order them, are not modelled.

  \<^bold>\<open>Theories and code.\<close>
  \<^item> \<open>Ledger\<close>, \<open>LedgerGuard\<close> (\<open>model/balance_ledger.go\<close>): checked sums, on \<open>int\<close> and on wrapping
    \<open>64 word\<close>; idempotent adjustments, reservations and settlements of a balance; debt suspension;
    the SQL scanner that keeps other code from writing the ledger. \<open>ledger_ok\<close> says that replaying
    the ledger from the opening balances gives every balance.
  \<^item> \<open>Refund\<close> (\<open>model/billing_refund.go\<close>): the durable queue of refunds and its compensator.
  \<^item> \<open>Quota\<close>, \<open>Tokens\<close>, \<open>Keys\<close> (\<open>model/user.go\<close>, \<open>model/token.go\<close>, \<open>model/utils.go\<close>,
    \<open>common/key.go\<close>): direct and batched quota changes, token lookup, validation and search
    patterns, key generation with SHA-256 and base64 computed.
  \<^item> \<open>Calendar\<close>, \<open>Subscription\<close> (\<open>model/subscription.go\<close>): Gregorian dates, plan periods, resets,
    purchases, pre-consumption and expiry.
  \<^item> \<open>Session\<close>, \<open>Cost\<close>, \<open>SessionRuns\<close> (\<open>service/billing_session.go\<close>, \<open>service/funding_source.go\<close>,
    \<open>service/billing.go\<close>, \<open>service/pre_consume_quota.go\<close>, \<open>service/quota.go\<close>): the billing of one
    request from a wallet or a subscription. The locale \<open>funding_source\<close> is the contract of a
    source, interpreted by both; what a request costs is proved in it once.
  \<^item> \<open>Vouchers\<close>, \<open>Rewards\<close>, \<open>TopUps\<close>, \<open>Usdt\<close>, \<open>UsdtOrders\<close>, \<open>UsdtSettle\<close>, \<open>UsdtRuns\<close>
    (\<open>model/redemption.go\<close>, \<open>model/checkin.go\<close>, \<open>model/topup.go\<close>, \<open>model/usdt_topup_order.go\<close>,
    \<open>model/usdt_topup_watcher.go\<close>, \<open>model/usdt_topup_settlement.go\<close>,
    \<open>setting/usdt_topup_setting.go\<close>): what pays money in. The locale \<open>voucher_book\<close> is the contract
    of a table whose rows each pay at most once; codes, check-ins, orders and transfers interpret it.
  \<^item> \<open>RefundPlan\<close> (\<open>model/ztapi_supplier_refund_amount.go\<close>): the amount of a supplier's refund, on
    rationals.
  \<^item> \<open>Requests\<close>, \<open>RequestRuns\<close> (\<open>model/ztapi_request_settlement.go\<close>,
    \<open>model/ztapi_request_attempt.go\<close>): the durable hold of a managed request, its attempts at
    suppliers, and its end. The locale \<open>settlement_mutation\<close> is the contract of a change of a locked
    row, interpreted by each of them; the invariant of runs rests on it.

  \<^bold>\<open>How the parts interact.\<close> Adjustments, sessions, refunds, administrators' completions, USDT
  settlements and request settlements all post to the ledger together with the user's row;
  \<open>sessions_keep_ledger\<close>, \<open>keeps_ledger_runSettlement\<close> and \<open>holds_match_ledger\<close> show that \<open>ledger_ok\<close>
  survives them. Sessions call \<open>Ledger\<close>, \<open>Quota\<close>, \<open>Subscription\<close> and hand refunds to \<open>Refund\<close>.
  Direct changes of \<open>Quota\<close>, codes, check-ins and the webhooks' top-ups change the balance without
  a ledger entry; for them \<open>paidOut\<close> accounts for every balance movement by a closed voucher. Request
  settlements use the sums of \<open>Ledger\<close> and the plan of \<open>RefundPlan\<close>.

  \<^bold>\<open>What the lemmas show.\<close> Safety: retries of adjustments, refunds and pre-consumptions, competing
  completions of an order and repeated transfers pay once. Invariants: balances are explained by the
  ledger, tokens conserve their quota, subscriptions are not overdrawn, rows follow their
  lifecycles, USDT tables are well typed, a request's entries add up to its hold. Function: what a
  request costs, when a key is valid, when a reset is due, what a refund amounts to. Equivalence and
  bounds: arithmetic on \<open>int64\<close> agrees with \<open>int\<close>, batched updates with direct ones, the SQL scanner
  with a grammar of tokens. Termination: the reset catch-up, the scan of table expressions, the
  sweep of parked holds. Four theorems exhibit runs in which the code does not do what it
  means to: \<open>cache_failure_refunds_twice\<close>, \<open>subscription_refund_repeats\<close>, \<open>reset_catch_up_diverges\<close>
  and \<open>creem_completions_differ\<close>.

  \<^bold>\<open>Bounds and fuel.\<close> \<open>dropRunes\<close> takes the length of the string, since no rune is empty. The scan
  of a GORM expression takes a fuel that \<open>guard_scan_returns\<close> proves enough. \<open>refundWithRetry\<close> counts
  the code's three attempts. The reset loop is a \<open>partial_function\<close>: that it returns, and when it
  does not, are theorems. The shuffle counts down like the code's loop. The sweep of holds takes one
  unit per page; more than there are rows is enough (\<open>sweep_returns\<close>).

  \<^bold>\<open>Parameters.\<close> Random draws, UUIDs and the time are arguments; \<open>quotaRates\<close> stands for the
  third-party decimal package on \<open>float64\<close> settings; \<open>moneyOf\<close> for a conversion to \<open>float64\<close>; \<open>codec\<close>
  for the JSON encoding; caches are external calls that fail or not.

  \<^bold>\<open>Not modelled.\<close> Finalization with evidence, its saved intents and their retry, because the same
  transaction writes the log outbox and the attempt billing reviews, which are parts of their own
  (\<open>model/ztapi_settlement_log.go\<close>, \<open>model/ztapi_attempt_billing_storage.go\<close>); supplier refund storage
  and reconciliation; media tasks; prices, quotations and publication of models; health checks and
  model verification; channels and their cache; the relay adaptors, which translate protocols;
  controllers, middleware and routing, which are glue around the modelled functions; accounts, OAuth
  and options; logs, notifications and migrations; the web and desktop interfaces.
\<close>

end
